theory Spec2Isabelle
  imports Complex_Main
begin

section \<open>Values, rows and the two seeded sources\<close>

text \<open>
  A row is a tuple of driver parameters.  Python's \<open>int\<close>, \<open>float\<close>, \<open>bool\<close>, \<open>str\<close>,
  \<open>date\<close>, \<open>datetime\<close> and \<open>None\<close> each get a constructor; floats are idealised as
  rationals.  \<open>VFmt spec v\<close> stands for the text that a library formatter
  (\<open>strftime\<close>, a float format specifier) renders for \<open>v\<close>; the rendering itself is
  library code and is kept symbolic.
\<close>

datatype val =
    VNone
  | VInt int
  | VNum rat
  | VBool bool
  | VStr string
  | VDate int
  | VDateTime int
  | VFmt string val

type_synonym row = "val list"

text \<open>
  The generators draw from two process-wide sources that the module seeds once
  (\<open>Faker.seed(42)\<close>, \<open>random.seed(42)\<close>): the \<open>random\<close> module and the value provider
  \<open>fake\<close>.  Each source is a tape: \<open>rtape k\<close> is the raw outcome of the \<open>k\<close>-th call into
  \<open>random\<close>, \<open>ftape k m\<close> (\<open>dtape k m\<close>) the text (the day or second number) that the
  \<open>k\<close>-th provider call returns when it is a call of method \<open>m\<close>.  \<open>today\<close> is the
  reading of \<open>datetime.now(timezone.utc).date()\<close> as a day number.
\<close>

record gen =
  rtape :: "nat \<Rightarrow> nat"
  rpos :: nat
  ftape :: "nat \<Rightarrow> string \<Rightarrow> string"
  dtape :: "nat \<Rightarrow> string \<Rightarrow> int"
  fpos :: nat
  today :: int

definition next_raw :: "gen \<Rightarrow> nat \<times> gen" where
  "next_raw g = (rtape g (rpos g), g\<lparr>rpos := rpos g + 1\<rparr>)"

text \<open>\<open>random.random()\<close>: a multiple of \<open>2^-53\<close> in \<open>[0, 1)\<close>.\<close>

definition random_random :: "gen \<Rightarrow> rat \<times> gen" where
  "random_random g =
     (let (r, g1) = next_raw g in (of_nat (r mod 2 ^ 53) / 2 ^ 53, g1))"

text \<open>\<open>random._randbelow(n)\<close>, for \<open>n > 0\<close>: an index below \<open>n\<close>.\<close>

definition randbelow :: "nat \<Rightarrow> gen \<Rightarrow> nat \<times> gen" where
  "randbelow n g = (let (r, g1) = next_raw g in (r mod n, g1))"

text \<open>\<open>random.randint(a, b) = a + _randbelow(b - a + 1)\<close>.\<close>

definition randint :: "int \<Rightarrow> int \<Rightarrow> gen \<Rightarrow> int \<times> gen" where
  "randint a b g = (let (k, g1) = randbelow (nat (b - a + 1)) g in (a + int k, g1))"

text \<open>\<open>random.uniform(a, b) = a + (b - a) * random()\<close>.\<close>

definition uniform :: "rat \<Rightarrow> rat \<Rightarrow> gen \<Rightarrow> rat \<times> gen" where
  "uniform a b g = (let (u, g1) = random_random g in (a + (b - a) * u, g1))"

text \<open>\<open>random.choice(seq) = seq[_randbelow(len(seq))]\<close>; every call site passes a
  non-empty literal list.\<close>

definition choice :: "'a list \<Rightarrow> gen \<Rightarrow> 'a \<times> gen" where
  "choice xs g = (let (k, g1) = randbelow (length xs) g in (xs ! k, g1))"

text \<open>\<open>random.sample(population, k)\<close> on a small population: \<open>k\<close> picks from a pool, the
  picked slot refilled with the pool's last live element.\<close>

fun sample_pool :: "'a list \<Rightarrow> nat \<Rightarrow> nat \<Rightarrow> gen \<Rightarrow> 'a list \<times> gen" where
  "sample_pool pool live 0 g = ([], g)"
| "sample_pool pool live (Suc k) g =
     (let (j, g1) = randbelow live g;
          x = pool ! j;
          pool1 = pool[j := pool ! (live - 1)];
          (rest, g2) = sample_pool pool1 (live - 1) k g1
      in (x # rest, g2))"

definition sample :: "'a list \<Rightarrow> nat \<Rightarrow> gen \<Rightarrow> 'a list \<times> gen" where
  "sample population k g = sample_pool population (length population) k g"

text \<open>A provider call returning text, and one returning a date or a datetime.\<close>

definition fake :: "string \<Rightarrow> gen \<Rightarrow> string \<times> gen" where
  "fake m g = (ftape g (fpos g) m, g\<lparr>fpos := fpos g + 1\<rparr>)"

definition fake_date :: "string \<Rightarrow> gen \<Rightarrow> int \<times> gen" where
  "fake_date m g = (dtape g (fpos g) m, g\<lparr>fpos := fpos g + 1\<rparr>)"

text \<open>\<open>round(x, d)\<close> on the idealised floats: to \<open>d\<close> decimals, ties to even.\<close>

definition py_round :: "rat \<Rightarrow> nat \<Rightarrow> rat" where
  "py_round x d =
     (let y = x * 10 ^ d; f = \<lfloor>y\<rfloor>; r = y - of_int f;
          n = (if r < 1 / 2 then f else if 1 / 2 < r then f + 1
               else if even f then f else f + 1)
      in of_int n / 10 ^ d)"

subsection \<open>Decimal text of integers\<close>

definition digit_char :: "nat \<Rightarrow> char" where
  "digit_char d = char_of (48 + d)"

fun str_nat :: "nat \<Rightarrow> string" where
  "str_nat n = (if n < 10 then [digit_char n] else str_nat (n div 10) @ [digit_char (n mod 10)])"

declare str_nat.simps [simp del]

text \<open>\<open>str(n)\<close> for a Python int.\<close>

definition str_int :: "int \<Rightarrow> string" where
  "str_int n = (if n < 0 then CHR ''-'' # str_nat (nat (- n)) else str_nat (nat n))"

text \<open>\<open>f"{n:0wd}"\<close>: sign first, then zeros up to width \<open>w\<close>; never truncates.\<close>

definition zero_pad :: "nat \<Rightarrow> int \<Rightarrow> string" where
  "zero_pad w n =
     (if n < 0 then CHR ''-'' # replicate (w - 1 - length (str_nat (nat (- n)))) CHR ''0''
                      @ str_nat (nat (- n))
      else replicate (w - length (str_nat (nat n))) CHR ''0'' @ str_nat (nat n))"

section \<open>Database abstraction layer\<close>

datatype DBType = Postgres | MySQL | Redshift

record DBConfig =
  db_type :: DBType
  host :: string
  port :: int
  database :: string
  user :: string
  password :: string

definition SCHEMA_NAME :: string where
  "SCHEMA_NAME = ''bad_data_workshop''"

text \<open>
  The SQL text handed to the driver, by statement kind and (prefixed) table name; an
  insert also carries its column list.  Column definitions of \<open>CREATE TABLE\<close> are not
  modelled.
\<close>

datatype stmt =
    CreateSchema
  | DropSchema
  | SelectTables
  | DropTable string
  | CreateTable string
  | InsertInto string "string list"

text \<open>Driver calls that completed, in order.\<close>

datatype event =
    Connected
  | CursorOpened
  | Executed stmt
  | ExecutedMany stmt "row list"
  | Fetched
  | Committed
  | CursorClosed
  | ConnectionClosed

datatype error = DriverError | AttributeError

text \<open>
  The adapter object together with the server behind it.  \<open>connection\<close> and \<open>cursor\<close>
  say whether the handle is set (not \<open>None\<close>).  \<open>trace\<close> lists the driver calls that
  completed; \<open>fault h e\<close> says that the driver raises when call \<open>e\<close> is attempted after
  the history \<open>h\<close>; \<open>catalog\<close> is what the MySQL catalog query returns.
\<close>

record adapter =
  config :: DBConfig
  connection :: bool
  cursor :: bool
  trace :: "event list"
  fault :: "event list \<Rightarrow> event \<Rightarrow> bool"
  catalog :: "string list"

type_synonym 'a outcome = "error option \<times> 'a"

definition driver_call :: "event \<Rightarrow> adapter \<Rightarrow> adapter outcome" where
  "driver_call e db =
     (if fault db (trace db) e then (Some DriverError, db)
      else (None, db\<lparr>trace := trace db @ [e]\<rparr>))"

text \<open>\<open>connect()\<close> of the three adapters: open the connection, then the cursor.  The
  connection handle is stored before the cursor is requested.\<close>

definition connect :: "adapter \<Rightarrow> adapter outcome" where
  "connect db =
     (case driver_call Connected db of
        (Some e, db1) \<Rightarrow> (Some e, db1)
      | (None, db1) \<Rightarrow>
          (case driver_call CursorOpened (db1\<lparr>connection := True\<rparr>) of
             (Some e, db2) \<Rightarrow> (Some e, db2)
           | (None, db2) \<Rightarrow> (None, db2\<lparr>cursor := True\<rparr>)))"

definition execute :: "stmt \<Rightarrow> adapter \<Rightarrow> adapter outcome" where
  "execute sql db =
     (if cursor db then driver_call (Executed sql) db else (Some AttributeError, db))"

definition executemany :: "stmt \<Rightarrow> row list \<Rightarrow> adapter \<Rightarrow> adapter outcome" where
  "executemany sql params_list db =
     (if cursor db then driver_call (ExecutedMany sql params_list) db
      else (Some AttributeError, db))"

definition commit :: "adapter \<Rightarrow> adapter outcome" where
  "commit db =
     (if connection db then driver_call Committed db else (Some AttributeError, db))"

definition close :: "adapter \<Rightarrow> adapter outcome" where
  "close db =
     (case (if cursor db then driver_call CursorClosed db else (None, db)) of
        (Some e, db1) \<Rightarrow> (Some e, db1)
      | (None, db1) \<Rightarrow>
          (if connection db1 then driver_call ConnectionClosed db1 else (None, db1)))"

definition get_auto_increment_syntax :: "adapter \<Rightarrow> string" where
  "get_auto_increment_syntax db =
     (case db_type (config db) of
        Postgres \<Rightarrow> ''SERIAL''
      | MySQL \<Rightarrow> ''INT AUTO_INCREMENT''
      | Redshift \<Rightarrow> ''INTEGER IDENTITY(1,1)'')"

definition get_table_prefix :: "adapter \<Rightarrow> string" where
  "get_table_prefix db =
     (case db_type (config db) of
        Postgres \<Rightarrow> SCHEMA_NAME @ ''.''
      | MySQL \<Rightarrow> ''bdw_''
      | Redshift \<Rightarrow> SCHEMA_NAME @ ''.'')"

definition get_boolean_type :: "adapter \<Rightarrow> string" where
  "get_boolean_type db =
     (case db_type (config db) of
        Postgres \<Rightarrow> ''BOOLEAN''
      | MySQL \<Rightarrow> ''TINYINT(1)''
      | Redshift \<Rightarrow> ''BOOLEAN'')"

text \<open>Two operations in sequence; an exception of the first skips the second.\<close>

definition seq :: "('s \<Rightarrow> 's outcome) \<Rightarrow> ('s \<Rightarrow> 's outcome) \<Rightarrow> 's \<Rightarrow> 's outcome" where
  "seq a b s = (case a s of (Some e, s1) \<Rightarrow> (Some e, s1) | (None, s1) \<Rightarrow> b s1)"

definition create_schema :: "adapter \<Rightarrow> adapter outcome" where
  "create_schema db =
     (case db_type (config db) of
        MySQL \<Rightarrow> (None, db)
      | _ \<Rightarrow> seq (execute CreateSchema) commit db)"

fun drop_tables :: "string list \<Rightarrow> adapter \<Rightarrow> adapter outcome" where
  "drop_tables [] db = (None, db)"
| "drop_tables (table_name # tables) db =
     seq (execute (DropTable table_name)) (drop_tables tables) db"

text \<open>\<open>self.cursor.fetchall()\<close> of the MySQL adapter.\<close>

definition fetchall :: "adapter \<Rightarrow> adapter outcome" where
  "fetchall db =
     (if cursor db then driver_call Fetched db else (Some AttributeError, db))"

definition drop_schema :: "adapter \<Rightarrow> adapter outcome" where
  "drop_schema db =
     (case db_type (config db) of
        MySQL \<Rightarrow>
          seq (execute SelectTables)
            (seq fetchall (seq (drop_tables (catalog db)) commit)) db
      | _ \<Rightarrow> seq (execute DropSchema) commit db)"

text \<open>\<open>get_adapter\<close>: a fresh adapter with both handles unset.  The server it will talk to
  is given by its fault behaviour and its catalog; nothing has been sent to it yet.\<close>

definition get_adapter ::
  "DBConfig \<Rightarrow> (event list \<Rightarrow> event \<Rightarrow> bool) \<Rightarrow> string list \<Rightarrow> adapter" where
  "get_adapter cfg flt cat =
     \<lparr>config = cfg, connection = False, cursor = False, trace = [], fault = flt,
      catalog = cat\<rparr>"

section \<open>Batch loading\<close>

text \<open>A generator works on the adapter and on the seeded sources.\<close>

type_synonym world = "adapter \<times> gen"

definition on_db :: "(adapter \<Rightarrow> adapter outcome) \<Rightarrow> world \<Rightarrow> world outcome" where
  "on_db f w = (case f (fst w) of (r, db1) \<Rightarrow> (r, (db1, snd w)))"

text \<open>A loop that builds one item per iteration, threading the sources.\<close>

fun collect :: "('i \<Rightarrow> gen \<Rightarrow> 'a \<times> gen) \<Rightarrow> 'i list \<Rightarrow> gen \<Rightarrow> 'a list \<times> gen" where
  "collect f [] g = ([], g)"
| "collect f (i # is) g =
     (let (x, g1) = f i g; (xs, g2) = collect f is g1 in (x # xs, g2))"

text \<open>The inner loop of a batch: iteration \<open>i\<close> appends the rows \<open>f i\<close> to \<open>rows\<close>.\<close>

definition build_rows :: "('i \<Rightarrow> gen \<Rightarrow> row list \<times> gen) \<Rightarrow> 'i list \<Rightarrow> gen \<Rightarrow> row list \<times> gen" where
  "build_rows f is g = (let (xss, g1) = collect f is g in (concat xss, g1))"

definition batch_size :: nat where
  "batch_size = 1000"

text \<open>
  The loop shared by generators 1-4, 6-12, 14 and 15:
  \<^verbatim>\<open>for batch_start in range(0, num_rows, batch_size):
      batch_end = min(batch_start + batch_size, num_rows)
      rows = []
      for i in range(batch_start, batch_end): ...rows.append(...)
      db.executemany(sql, rows)\<close>
\<close>

function batch_loop ::
  "stmt \<Rightarrow> (nat \<Rightarrow> gen \<Rightarrow> row list \<times> gen) \<Rightarrow> nat \<Rightarrow> nat \<Rightarrow> world \<Rightarrow> world outcome" where
  "batch_loop sql f batch_start num_rows w =
     (if batch_start < num_rows then
        (let batch_end = min (batch_start + batch_size) num_rows;
             (rows, g1) = build_rows f [batch_start ..< batch_end] (snd w)
         in case executemany sql rows (fst w) of
              (Some e, db1) \<Rightarrow> (Some e, (db1, g1))
            | (None, db1) \<Rightarrow> batch_loop sql f (batch_start + batch_size) num_rows (db1, g1))
      else (None, w))"
  by pat_completeness auto
termination
  by (relation "measure (\<lambda>(sql, f, batch_start, num_rows, w). num_rows - batch_start)")
     (auto simp: batch_size_def)

declare batch_loop.simps [simp del]

text \<open>
  The loop of generators 5 and 13: the buffer \<open>rows\<close> lives across iterations and is
  flushed as soon as it holds \<open>batch_size\<close> rows or more; the buffer left at the end is
  returned for the final flush.
\<close>

fun flush_loop ::
  "stmt \<Rightarrow> ('i \<Rightarrow> gen \<Rightarrow> row list \<times> gen) \<Rightarrow> 'i list \<Rightarrow> row list \<Rightarrow> world
     \<Rightarrow> (row list \<times> world) outcome" where
  "flush_loop sql f [] rows w = (None, (rows, w))"
| "flush_loop sql f (x # xs) rows w =
     (let (new, g1) = f x (snd w); rows1 = rows @ new in
      if batch_size \<le> length rows1 then
        (case executemany sql rows1 (fst w) of
           (Some e, db1) \<Rightarrow> (Some e, (rows1, (db1, g1)))
         | (None, db1) \<Rightarrow> flush_loop sql f xs [] (db1, g1))
      else flush_loop sql f xs rows1 (fst w, g1))"

text \<open>The loop followed by \<open>if rows: db.executemany(sql, rows)\<close>.\<close>

definition flush_all ::
  "stmt \<Rightarrow> ('i \<Rightarrow> gen \<Rightarrow> row list \<times> gen) \<Rightarrow> 'i list \<Rightarrow> world \<Rightarrow> world outcome" where
  "flush_all sql f xs w =
     (case flush_loop sql f xs [] w of
        (Some e, (rows, w1)) \<Rightarrow> (Some e, w1)
      | (None, (rows, w1)) \<Rightarrow>
          (if rows \<noteq> [] then on_db (executemany sql rows) w1 else (None, w1)))"
section \<open>Data problem generators\<close>

text \<open>\<open>prefix\<close> followed by a table name, as the f-strings of the SQL build it.\<close>

definition table :: "adapter \<Rightarrow> string \<Rightarrow> string" where
  "table db name = get_table_prefix db @ name"

subsection \<open>Problem 1: tables without primary keys\<close>

text \<open>One iteration: the row, appended a second time when \<open>random.random() < 0.1\<close>.\<close>

definition rows_01 :: "nat \<Rightarrow> gen \<Rightarrow> row list \<times> gen" where
  "rows_01 i g =
     (let (first_name, g1) = fake ''first_name'' g;
          (last_name, g2) = fake ''last_name'' g1;
          (email, g3) = fake ''email'' g2;
          (created_at, g4) = fake_date ''date_time_between(-2y, now)'' g3;
          row = [VInt (int i + 1), VStr first_name, VStr last_name, VStr email,
                 VDateTime created_at];
          (u, g5) = random_random g4
      in (if u < 1 / 10 then [row, row] else [row], g5))"

definition insert_01 :: "adapter \<Rightarrow> stmt" where
  "insert_01 db = InsertInto (table db ''customers_no_pk'')
     [''customer_id'', ''first_name'', ''last_name'', ''email'', ''created_at'']"

definition problem_01_no_primary_key :: "nat \<Rightarrow> world \<Rightarrow> world outcome" where
  "problem_01_no_primary_key num_rows w =
     (let db = fst w in
      seq (on_db (execute (CreateTable (table db ''customers_no_pk''))))
        (seq (batch_loop (insert_01 db) rows_01 0 num_rows)
           (on_db commit)) w)"

subsection \<open>Problem 2: missing foreign key constraints\<close>

definition product_02 :: "nat \<Rightarrow> gen \<Rightarrow> row \<times> gen" where
  "product_02 i g =
     (let (product_name, g1) = fake ''catch_phrase'' g;
          (price, g2) = uniform 10 500 g1
      in ([VStr product_name, VNum (py_round price 2)], g2))"

definition rows_02 :: "nat \<Rightarrow> gen \<Rightarrow> row list \<times> gen" where
  "rows_02 i g =
     (let (u1, g1) = random_random g;
          (customer_id, g2) =
             (if u1 < 3 / 10 then randint 900000 999999 g1 else randint 1 10000 g1);
          (u2, g3) = random_random g2;
          (product_id, g4) =
             (if u2 < 2 / 10 then randint 500 999 g3 else randint 1 100 g3);
          (quantity, g5) = randint 1 10 g4;
          (order_date, g6) = fake_date ''date_time_between(-1y, now)'' g5
      in ([[VInt customer_id, VInt product_id, VInt quantity, VDateTime order_date]], g6))"

definition insert_products :: "adapter \<Rightarrow> stmt" where
  "insert_products db = InsertInto (table db ''products'') [''product_name'', ''price'']"

definition insert_02 :: "adapter \<Rightarrow> stmt" where
  "insert_02 db = InsertInto (table db ''orders_no_fk'')
     [''customer_id'', ''product_id'', ''quantity'', ''order_date'']"

text \<open>The list comprehension that builds \<open>products\<close>, then its single bulk insert.\<close>

definition seed_products :: "world \<Rightarrow> world outcome" where
  "seed_products w =
     (let (products, g1) = collect product_02 [0 ..< 100] (snd w)
      in on_db (executemany (insert_products (fst w)) products) (fst w, g1))"

definition problem_02_missing_foreign_keys :: "nat \<Rightarrow> world \<Rightarrow> world outcome" where
  "problem_02_missing_foreign_keys num_rows w =
     (let db = fst w in
      seq (on_db (execute (CreateTable (table db ''products''))))
        (seq seed_products
           (seq (on_db (execute (CreateTable (table db ''orders_no_fk''))))
              (seq (batch_loop (insert_02 db) rows_02 0 num_rows)
                 (on_db commit)))) w)"

subsection \<open>Problem 3: wrong data types\<close>

definition rows_03 :: "nat \<Rightarrow> gen \<Rightarrow> row list \<times> gen" where
  "rows_03 i g =
     (let (a1, g1) = uniform 10 1000 g;
          (a2, g2) = uniform 10 1000 g1;
          (a3, g3) = uniform 10 1000 g2;
          (a4, g4) = uniform 10 1000 g3;
          amount_formats =
            [VFmt ''.2f'' (VNum a1), VFmt ''$.2f'' (VNum a2), VFmt ''.4f'' (VNum a3),
             VStr (str_int \<lfloor>a4\<rfloor>)];
          (date_val, g5) = fake_date ''date_between(-2y, today)'' g4;
          date_formats =
            map (\<lambda>fmt. VFmt fmt (VDate date_val))
              [''%Y-%m-%d'', ''%m/%d/%Y'', ''%d-%m-%Y'', ''%B %d, %Y'', ''%Y%m%d''];
          (amount, g6) = choice amount_formats g5;
          (transaction_date, g7) = choice date_formats g6;
          (quantity, g8) = randint 1 100 g7;
          (is_refund, g9) =
             choice [''true'', ''false'', ''True'', ''False'', ''1'', ''0'', ''yes'', ''no''] g8;
          (customer_age, g10) = randint 18 80 g9
      in ([[VStr (str_int (int i + 1)), amount, transaction_date, VStr (str_int quantity),
            VStr is_refund, VStr (str_int customer_age)]], g10))"

definition insert_03 :: "adapter \<Rightarrow> stmt" where
  "insert_03 db = InsertInto (table db ''transactions_bad_types'')
     [''transaction_id'', ''amount'', ''transaction_date'', ''quantity'', ''is_refund'',
      ''customer_age'']"

definition problem_03_wrong_data_types :: "nat \<Rightarrow> world \<Rightarrow> world outcome" where
  "problem_03_wrong_data_types num_rows w =
     (let db = fst w in
      seq (on_db (execute (CreateTable (table db ''transactions_bad_types''))))
        (seq (batch_loop (insert_03 db) rows_03 0 num_rows)
           (on_db commit)) w)"

subsection \<open>Problem 4: missing NOT NULL constraints\<close>

text \<open>\<open>value if random.random() > p else None\<close>: the test is evaluated first, the value
  only when the test holds.\<close>

definition unless_null :: "rat \<Rightarrow> (gen \<Rightarrow> val \<times> gen) \<Rightarrow> gen \<Rightarrow> val \<times> gen" where
  "unless_null p v g =
     (let (u, g1) = random_random g in if p < u then v g1 else (VNone, g1))"

definition rows_04 :: "nat \<Rightarrow> gen \<Rightarrow> row list \<times> gen" where
  "rows_04 i g =
     (let (first_name, g1) =
             unless_null (1 / 10) (\<lambda>g. let (s, g') = fake ''first_name'' g in (VStr s, g')) g;
          (last_name, g2) =
             unless_null (1 / 10) (\<lambda>g. let (s, g') = fake ''last_name'' g in (VStr s, g')) g1;
          (email, g3) =
             unless_null (15 / 100) (\<lambda>g. let (s, g') = fake ''email'' g in (VStr s, g')) g2;
          (department, g4) =
             unless_null (2 / 10)
               (\<lambda>g. let (s, g') = fake ''job'' g in (VStr (take 100 s), g')) g3;
          (salary, g5) =
             unless_null (25 / 100)
               (\<lambda>g. let (x, g') = uniform 30000 150000 g in (VNum (py_round x 2), g')) g4;
          (hire_date, g6) =
             unless_null (1 / 10)
               (\<lambda>g. let (d, g') = fake_date ''date_between(-10y, today)'' g in (VDate d, g')) g5;
          (manager_id, g7) =
             unless_null (3 / 10) (\<lambda>g. let (n, g') = randint 1 100 g in (VInt n, g')) g6;
          (is_active, g8) =
             unless_null (2 / 10)
               (\<lambda>g. let (b, g') = choice [True, False] g in (VBool b, g')) g7
      in ([[first_name, last_name, email, department, salary, hire_date, manager_id,
            is_active]], g8))"

definition insert_04 :: "adapter \<Rightarrow> stmt" where
  "insert_04 db = InsertInto (table db ''employees_nulls'')
     [''first_name'', ''last_name'', ''email'', ''department'', ''salary'', ''hire_date'',
      ''manager_id'', ''is_active'']"

definition problem_04_missing_not_null :: "nat \<Rightarrow> world \<Rightarrow> world outcome" where
  "problem_04_missing_not_null num_rows w =
     (let db = fst w in
      seq (on_db (execute (CreateTable (table db ''employees_nulls''))))
        (seq (batch_loop (insert_04 db) rows_04 0 num_rows)
           (on_db commit)) w)"

subsection \<open>Problem 5: duplicate records\<close>

text \<open>A base user, as the tuple its dictionary is turned into:
  \<open>(user_id, username, email, phone, created_at)\<close>.\<close>

definition base_user :: "nat \<Rightarrow> gen \<Rightarrow> row \<times> gen" where
  "base_user i g =
     (let (username, g1) = fake ''user_name'' g;
          (email, g2) = fake ''email'' g1;
          (phone, g3) = fake ''phone_number'' g2;
          (created_at, g4) = fake_date ''date_time_between(-2y, now)'' g3
      in ([VInt (int i + 1), VStr username, VStr email, VStr phone, VDateTime created_at],
          g4))"

text \<open>The original, then 1-3 duplicates when \<open>random.random() < 0.5\<close>.\<close>

definition rows_05 :: "row \<Rightarrow> gen \<Rightarrow> row list \<times> gen" where
  "rows_05 user_row g =
     (let (u, g1) = random_random g in
      if u < 1 / 2 then
        (let (k, g2) = randint 1 3 g1 in (user_row # replicate (nat k) user_row, g2))
      else ([user_row], g1))"

definition insert_05 :: "adapter \<Rightarrow> stmt" where
  "insert_05 db = InsertInto (table db ''users_duplicates'')
     [''user_id'', ''username'', ''email'', ''phone'', ''created_at'']"

text \<open>\<open>num_rows // 3\<close> base users are generated first; then the insert loop runs over
  them.\<close>

definition insert_users :: "nat \<Rightarrow> world \<Rightarrow> world outcome" where
  "insert_users num_rows w =
     (let (base_users, g1) = collect base_user [0 ..< num_rows div 3] (snd w)
      in flush_all (insert_05 (fst w)) rows_05 base_users (fst w, g1))"

definition problem_05_duplicate_records :: "nat \<Rightarrow> world \<Rightarrow> world outcome" where
  "problem_05_duplicate_records num_rows w =
     (let db = fst w in
      seq (on_db (execute (CreateTable (table db ''users_duplicates''))))
        (seq (insert_users num_rows)
           (on_db commit)) w)"
subsection \<open>Problem 6: inconsistent date formats\<close>

definition date_formats_06 :: "string list" where
  "date_formats_06 =
     [''%Y-%m-%d'', ''%m/%d/%Y'', ''%d/%m/%Y'', ''%Y/%m/%d'', ''%d-%m-%Y'', ''%m-%d-%Y'',
      ''%B %d, %Y'', ''%b %d, %Y'', ''%d %B %Y'', ''%Y%m%d'', ''%d.%m.%Y'']"

definition rows_06 :: "nat \<Rightarrow> gen \<Rightarrow> row list \<times> gen" where
  "rows_06 i g =
     (let (start, g1) = fake_date ''date_between(-1y, +1y)'' g;
          (d1, g2) = randint 1 30 g1;
          end_date = start + d1;
          (d2, g3) = randint 7 60 g2;
          deadline = start - d2;
          (event_name, g4) = fake ''catch_phrase'' g3;
          (f1, g5) = choice date_formats_06 g4;
          (f2, g6) = choice date_formats_06 g5;
          (f3, g7) = choice date_formats_06 g6
      in ([[VInt (int i + 1), VStr event_name, VFmt f1 (VDate start),
            VFmt f2 (VDate end_date), VFmt f3 (VDate deadline)]], g7))"

definition insert_06 :: "adapter \<Rightarrow> stmt" where
  "insert_06 db = InsertInto (table db ''events_bad_dates'')
     [''event_id'', ''event_name'', ''start_date'', ''end_date'', ''registration_deadline'']"

definition problem_06_inconsistent_dates :: "nat \<Rightarrow> world \<Rightarrow> world outcome" where
  "problem_06_inconsistent_dates num_rows w =
     (let db = fst w in
      seq (on_db (execute (CreateTable (table db ''events_bad_dates''))))
        (seq (batch_loop (insert_06 db) rows_06 0 num_rows)
           (on_db commit)) w)"

subsection \<open>Problem 7: inconsistent string casing\<close>

text \<open>Case mapping on the ASCII letters; other bytes are left as they are.\<close>

definition char_upper :: "char \<Rightarrow> char" where
  "char_upper c =
     (let n = (of_char c :: nat) in if 97 \<le> n \<and> n \<le> 122 then char_of (n - 32) else c)"

definition char_lower :: "char \<Rightarrow> char" where
  "char_lower c =
     (let n = (of_char c :: nat) in if 65 \<le> n \<and> n \<le> 90 then char_of (n + 32) else c)"

definition is_letter :: "char \<Rightarrow> bool" where
  "is_letter c =
     (let n = (of_char c :: nat) in (65 \<le> n \<and> n \<le> 90) \<or> (97 \<le> n \<and> n \<le> 122))"

text \<open>\<open>str.title()\<close>: a letter after a letter is lowered, any other letter is raised.\<close>

fun title_from :: "bool \<Rightarrow> string \<Rightarrow> string" where
  "title_from prev [] = []"
| "title_from prev (c # cs) =
     (if prev then char_lower c else char_upper c) # title_from (is_letter c) cs"

definition mixed_char :: "char \<Rightarrow> gen \<Rightarrow> char \<times> gen" where
  "mixed_char c g =
     (let (u, g1) = random_random g in (if 1 / 2 < u then char_upper c else char_lower c, g1))"

definition randomize_case :: "string \<Rightarrow> gen \<Rightarrow> string \<times> gen" where
  "randomize_case s g =
     (let (case_type, g1) = choice [''lower'', ''upper'', ''title'', ''mixed'', ''original''] g
      in if case_type = ''lower'' then (map char_lower s, g1)
         else if case_type = ''upper'' then (map char_upper s, g1)
         else if case_type = ''title'' then (title_from False s, g1)
         else if case_type = ''mixed'' then collect mixed_char s g1
         else (s, g1))"

definition rows_07 :: "nat \<Rightarrow> gen \<Rightarrow> row list \<times> gen" where
  "rows_07 i g =
     (let (s1, g1) = fake ''first_name'' g;
          (first_name, g2) = randomize_case s1 g1;
          (s2, g3) = fake ''last_name'' g2;
          (last_name, g4) = randomize_case s2 g3;
          (s3, g5) = fake ''email'' g4;
          (email, g6) = randomize_case s3 g5;
          (s4, g7) = fake ''company'' g6;
          (company, g8) = randomize_case s4 g7;
          (s5, g9) = fake ''country'' g8;
          (country, g10) = randomize_case s5 g9
      in ([[VInt (int i + 1), VStr first_name, VStr last_name, VStr email, VStr company,
            VStr country]], g10))"

definition insert_07 :: "adapter \<Rightarrow> stmt" where
  "insert_07 db = InsertInto (table db ''contacts_bad_casing'')
     [''contact_id'', ''first_name'', ''last_name'', ''email'', ''company'', ''country'']"

definition problem_07_inconsistent_casing :: "nat \<Rightarrow> world \<Rightarrow> world outcome" where
  "problem_07_inconsistent_casing num_rows w =
     (let db = fst w in
      seq (on_db (execute (CreateTable (table db ''contacts_bad_casing''))))
        (seq (batch_loop (insert_07 db) rows_07 0 num_rows)
           (on_db commit)) w)"

subsection \<open>Problem 8: leading and trailing whitespace\<close>

definition whitespace_chars :: "string list" where
  "whitespace_chars =
     ['' '', ''  '', ''   '', [CHR 0x09], '' '' @ [CHR 0x09], [CHR 0x0A],
      '' '' @ [CHR 0x0A] @ '' '']"

definition add_random_whitespace :: "string \<Rightarrow> gen \<Rightarrow> string \<times> gen" where
  "add_random_whitespace s g =
     (let (u1, g1) = random_random g;
          (result1, g2) =
             (if u1 < 4 / 10 then (let (ws, g') = choice whitespace_chars g1 in (ws @ s, g'))
              else (s, g1));
          (u2, g3) = random_random g2
      in if u2 < 4 / 10 then (let (ws, g') = choice whitespace_chars g3 in (result1 @ ws, g'))
         else (result1, g3))"

definition rows_08 :: "nat \<Rightarrow> gen \<Rightarrow> row list \<times> gen" where
  "rows_08 i g =
     (let (sku, g1) = add_random_whitespace (''SKU-'' @ zero_pad 6 (int i + 1)) g;
          (s2, g2) = fake ''catch_phrase'' g1;
          (product_name, g3) = add_random_whitespace (take 200 s2) g2;
          (s3, g4) = choice [''Electronics'', ''Clothing'', ''Food'', ''Furniture'', ''Tools''] g3;
          (category, g5) = add_random_whitespace s3 g4;
          (s4, g6) = fake ''company'' g5;
          (supplier, g7) = add_random_whitespace (take 200 s4) g6;
          (n1, g8) = randint 1 10 g7;
          (n2, g9) = randint 1 50 g8;
          (n3, g10) = randint 1 100 g9;
          (location, g11) =
             add_random_whitespace
               (''W'' @ str_int n1 @ ''-R'' @ str_int n2 @ ''-S'' @ str_int n3) g10
      in ([[VStr sku, VStr product_name, VStr category, VStr supplier, VStr location]], g11))"

definition insert_08 :: "adapter \<Rightarrow> stmt" where
  "insert_08 db = InsertInto (table db ''inventory_whitespace'')
     [''sku'', ''product_name'', ''category'', ''supplier'', ''warehouse_location'']"

definition problem_08_whitespace_issues :: "nat \<Rightarrow> world \<Rightarrow> world outcome" where
  "problem_08_whitespace_issues num_rows w =
     (let db = fst w in
      seq (on_db (execute (CreateTable (table db ''inventory_whitespace''))))
        (seq (batch_loop (insert_08 db) rows_08 0 num_rows)
           (on_db commit)) w)"

subsection \<open>Problem 9: invalid email formats\<close>

text \<open>The fourteen patterns; only the chosen one is called.\<close>

definition bad_patterns :: "(gen \<Rightarrow> string \<times> gen) list" where
  "bad_patterns =
     [fake ''user_name'',
      (\<lambda>g. let (u, g1) = fake ''user_name'' g in (u @ ''@'', g1)),
      (\<lambda>g. let (d, g1) = fake ''domain_name'' g in (''@'' @ d, g1)),
      (\<lambda>g. let (u, g1) = fake ''user_name'' g; (d, g2) = fake ''domain_name'' g1
            in (u @ ''@@'' @ d, g2)),
      (\<lambda>g. let (u, g1) = fake ''user_name'' g; (d, g2) = fake ''domain_name'' g1
            in (u @ '' @'' @ d, g2)),
      (\<lambda>g. let (u, g1) = fake ''user_name'' g; (d, g2) = fake ''word'' g1
            in (u @ ''@'' @ d, g2)),
      (\<lambda>g. let (u, g1) = fake ''user_name'' g; (d, g2) = fake ''domain_name'' g1
            in (u @ ''@.'' @ d, g2)),
      (\<lambda>g. let (u, g1) = fake ''user_name'' g; (d, g2) = fake ''domain_name'' g1
            in (''.'' @ u @ ''@'' @ d, g2)),
      (\<lambda>g. let (u, g1) = fake ''user_name'' g; (d, g2) = fake ''domain_name'' g1
            in (u @ ''@'' @ d @ ''.'', g2)),
      (\<lambda>g. (''N/A'', g)),
      (\<lambda>g. (''none'', g)),
      (\<lambda>g. (''-'', g)),
      (\<lambda>g. ('''', g)),
      fake ''phone_number'']"

definition generate_bad_email :: "gen \<Rightarrow> string \<times> gen" where
  "generate_bad_email g = (let (pattern, g1) = choice bad_patterns g in pattern g1)"

definition rows_09 :: "nat \<Rightarrow> gen \<Rightarrow> row list \<times> gen" where
  "rows_09 i g =
     (let (u, g1) = random_random g;
          (email, g2) = (if u < 3 / 10 then generate_bad_email g1 else fake ''email'' g1);
          (name, g3) = fake ''name'' g2;
          (subscribed_at, g4) = fake_date ''date_time_between(-2y, now)'' g3
      in ([[VInt (int i + 1), VStr name, VStr email, VDateTime subscribed_at]], g4))"

definition insert_09 :: "adapter \<Rightarrow> stmt" where
  "insert_09 db = InsertInto (table db ''subscribers_bad_emails'')
     [''subscriber_id'', ''name'', ''email'', ''subscribed_at'']"

definition problem_09_invalid_emails :: "nat \<Rightarrow> world \<Rightarrow> world outcome" where
  "problem_09_invalid_emails num_rows w =
     (let db = fst w in
      seq (on_db (execute (CreateTable (table db ''subscribers_bad_emails''))))
        (seq (batch_loop (insert_09 db) rows_09 0 num_rows)
           (on_db commit)) w)"

subsection \<open>Problem 10: out-of-range values\<close>

text \<open>
  The seven branches of the source draw the same six fields in the same order and differ
  in one field each; \<open>bad_type\<close> is \<open>None\<close> on the branch taken when
  \<open>random.random() < 0.2\<close> fails.  \<open>now\<close> is the current date read once, before the loop.
\<close>

definition sale_fields :: "int \<Rightarrow> string option \<Rightarrow> gen \<Rightarrow> row \<times> gen" where
  "sale_fields now bad_type g =
     (let (price, g1) =
             (if bad_type = Some ''negative_price''
              then (let (x, g') = uniform 1 100 g in (- py_round x 2, g'))
              else (let (x, g') = uniform 10 500 g in (py_round x 2, g')));
          (quantity, g2) =
             (if bad_type = Some ''negative_quantity''
              then (let (n, g') = randint 1 100 g1 in (- n, g'))
              else randint 1 10 g1);
          (discount, g3) =
             (if bad_type = Some ''huge_discount''
              then (let (x, g') = uniform 100 500 g2 in (py_round x 2, g'))
              else (let (x, g') = uniform 0 30 g2 in (py_round x 2, g')));
          (date, g4) =
             (if bad_type = Some ''future_date''
              then (let (n, g') = randint 1 365 g3 in (now + n, g'))
              else fake_date ''date_between(-1y, today)'' g3);
          (age, g5) =
             (if bad_type = Some ''impossible_age'' then choice [- 5, 0, 150, 999] g4
              else randint 18 80 g4);
          (rating, g6) =
             (if bad_type = Some ''bad_rating'' then choice [- 1, 0, 6, 10] g5
              else (let (x, g') = uniform 1 5 g5 in (py_round x 1, g')))
      in ([VNum price, VInt quantity, VNum discount, VDate date, VInt age, VNum rating], g6))"

definition rows_10 :: "int \<Rightarrow> nat \<Rightarrow> gen \<Rightarrow> row list \<times> gen" where
  "rows_10 now i g =
     (let (u, g1) = random_random g;
          (bad_type, g2) =
             (if u < 2 / 10 then
                (let (b, g') =
                   choice [''negative_price'', ''negative_quantity'', ''huge_discount'',
                           ''future_date'', ''impossible_age'', ''bad_rating''] g1
                 in (Some b, g'))
              else (None, g1));
          (fields, g3) = sale_fields now bad_type g2;
          (product_name, g4) = fake ''catch_phrase'' g3
      in ([VInt (int i + 1) # VStr (take 200 product_name) # fields], g4))"

definition insert_10 :: "adapter \<Rightarrow> stmt" where
  "insert_10 db = InsertInto (table db ''sales_bad_values'')
     [''sale_id'', ''product_name'', ''unit_price'', ''quantity'', ''discount_percent'',
      ''sale_date'', ''customer_age'', ''rating'']"

definition problem_10_out_of_range :: "nat \<Rightarrow> world \<Rightarrow> world outcome" where
  "problem_10_out_of_range num_rows w =
     (let db = fst w; now = today (snd w) in
      seq (on_db (execute (CreateTable (table db ''sales_bad_values''))))
        (seq (batch_loop (insert_10 db) (rows_10 now) 0 num_rows)
           (on_db commit)) w)"

subsection \<open>Problem 11: comma-separated values in columns\<close>

text \<open>\<open>sep.join(parts)\<close>.\<close>

fun join :: "string \<Rightarrow> string list \<Rightarrow> string" where
  "join sep [] = []"
| "join sep [x] = x"
| "join sep (x # y # ys) = x @ sep @ join sep (y # ys)"

definition all_tags :: "string list" where
  "all_tags =
     [''python'', ''javascript'', ''sql'', ''database'', ''web'', ''api'', ''security'',
      ''cloud'', ''devops'', ''testing'', ''frontend'', ''backend'', ''mobile'', ''ai'', ''ml'']"

definition all_categories :: "string list" where
  "all_categories = [''Tutorial'', ''News'', ''Opinion'', ''Review'', ''Guide'', ''Reference'']"

definition rows_11 :: "nat \<Rightarrow> nat \<Rightarrow> gen \<Rightarrow> row list \<times> gen" where
  "rows_11 num_rows i g =
     (let (k1, g1) = randint 1 7 g;
          (tags, g2) = sample all_tags (nat k1) g1;
          (k2, g3) = randint 1 3 g2;
          (cats, g4) = sample all_categories (nat k2) g3;
          (k3, g5) = randint 0 5 g4;
          (related, g6) = collect (\<lambda>_. randint 1 (int num_rows)) [0 ..< nat k3] g5;
          (title, g7) = fake ''sentence(nb_words=8)'' g6;
          (author, g8) = fake ''name'' g7
      in ([[VInt (int i + 1), VStr (take 300 title), VStr author, VStr (join '','' tags),
            VStr (join '','' cats), VStr (join '','' (map str_int related))]], g8))"

definition insert_11 :: "adapter \<Rightarrow> stmt" where
  "insert_11 db = InsertInto (table db ''articles_csv_tags'')
     [''article_id'', ''title'', ''author'', ''tags'', ''categories'', ''related_ids'']"

definition problem_11_csv_in_columns :: "nat \<Rightarrow> world \<Rightarrow> world outcome" where
  "problem_11_csv_in_columns num_rows w =
     (let db = fst w in
      seq (on_db (execute (CreateTable (table db ''articles_csv_tags''))))
        (seq (batch_loop (insert_11 db) (rows_11 num_rows) 0 num_rows)
           (on_db commit)) w)"
subsection \<open>Problem 12: mixed encodings and special characters\<close>

text \<open>Text is modelled as its UTF-8 bytes.\<close>

definition bytes :: "nat list \<Rightarrow> string" where
  "bytes ns = map char_of ns"

text \<open>\<open>s.replace(old, new)\<close> for a non-empty \<open>old\<close>: left to right, non-overlapping.\<close>

function py_replace :: "string \<Rightarrow> string \<Rightarrow> string \<Rightarrow> string" where
  "py_replace old new [] = []"
| "py_replace old new (c # cs) =
     (if old \<noteq> [] \<and> take (length old) (c # cs) = old
      then new @ py_replace old new (drop (length old - 1) cs)
      else c # py_replace old new cs)"
  by pat_completeness auto
termination
  by (relation "measure (\<lambda>(old, new, s). length s)") auto

definition special_chars :: "string list" where
  "special_chars =
     [''Caf'' @ bytes [0xE2, 0x88, 0x9A, 0xC2, 0xA9] @ '' r'' @ bytes [0xE2, 0x88, 0x9A, 0xC2
        , 0xA9] @ ''sum'' @ bytes [0xE2, 0x88, 0x9A, 0xC2, 0xA9] @ '' na'' @ bytes [0xE2
        , 0x88, 0x9A, 0xC3, 0x98] @ ''ve'',
      bytes [0xC3, 0x8A, 0xC3, 0xB3, 0xE2, 0x80, 0xA2, 0xC3, 0x8A, 0xC3, 0xBA, 0xC2, 0xA8,
        0xC3, 0x8B, 0xE2, 0x84, 0xA2, 0xC3, 0xBB, 0xE2, 0x80, 0x9E, 0xC3, 0x89, 0xC3,
        0x9C, 0xE2, 0x80, 0x9E, 0xC3, 0x87, 0xCF, 0x80, 0xE2, 0x80, 0x9E, 0xC3, 0x89,
        0xC3, 0xA0],
      bytes [0xE2, 0x80, 0x93, 0xC2, 0xA2, 0xE2, 0x80, 0x93, 0xC2, 0xB5, 0xE2, 0x80, 0x94,
        0xC3, 0x85, 0xE2, 0x80, 0x94, 0xC3, 0x87] @ '' '' @ bytes [0xE2, 0x80, 0x93,
        0xE2, 0x88, 0xAB, 0xE2, 0x80, 0x93, 0xE2, 0x88, 0x8F, 0xE2, 0x80, 0x94, 0xC3,
        0x84, 0xE2, 0x80, 0x93, 0xE2, 0x88, 0x8F, 0xE2, 0x80, 0x93, 0xC2, 0xAA, 0xE2,
        0x80, 0x93, 0xC2, 0xAA, 0xE2, 0x80, 0x93, 0xE2, 0x88, 0x8F, 0xE2, 0x80, 0x94,
        0xC3, 0x9C, 0xE2, 0x80, 0x94, 0xC3, 0xA3],
      bytes [0xC5, 0xB8, 0xC3, 0x96, 0xC3, 0xBF, 0xC2, 0xB1, 0xC3, 0xBF, 0xE2, 0x89, 0xA0,
        0xC3, 0xBF, 0xC2, 0xAE, 0xC3, 0xBF, 0xC3, 0x9F] @ '' '' @ bytes [0xC3, 0xBF,
        0xC2, 0xAE, 0xC3, 0xBF, 0xC3, 0x9F, 0xC5, 0xB8, 0xC3, 0x91, 0xC3, 0xBF, 0xCF,
        0x80, 0xC3, 0xBF, 0xC3, 0x9F, 0xC5, 0xB8, 0xC3, 0x91, 0xC5, 0xB8, 0xC3, 0x96],
      bytes [0xE2, 0x97, 0x8A, 0xC2, 0xA9, 0xE2, 0x97, 0x8A, 0xC3, 0xBA, 0xE2, 0x97, 0x8A,
        0xC3, 0xAF, 0xE2, 0x97, 0x8A, 0xC3, 0xB9] @ '' '' @ bytes [0xE2, 0x97, 0x8A,
        0xC2, 0xA2, 0xE2, 0x97, 0x8A, 0xC3, 0xAF, 0xE2, 0x97, 0x8A, 0xC3, 0xBA, 0xE2,
        0x97, 0x8A, 0xC3, 0xB9],
      bytes [0xEF, 0xA3, 0xBF, 0xC3, 0xBC, 0xC3, 0xA9, 0xC3, 0xA2] @ '' Party '' @ bytes [0xEF
        , 0xA3, 0xBF, 0xC3, 0xBC, 0xC3, 0xA9, 0xC3, 0xA4] @ '' Time '' @ bytes [0xEF,
        0xA3, 0xBF, 0xC3, 0xBC, 0xC3, 0xA9, 0xC3, 0xA0],
      ''Line1'' @ [CHR 0x0A] @ ''Line2'' @ [CHR 0x0A] @ ''Line3'',
      ''Quote '' @ [CHR 0x22] @ ''test'' @ [CHR 0x22] @ '' here'',
      ''Tab'' @ [CHR 0x09] @ ''here'' @ [CHR 0x09] @ ''too'',
      ''NULL'',
      ''null'',
      ''<script>alert('' @ [CHR 0x27] @ ''xss'' @ [CHR 0x27] @ '')</script>'',
      ''O'' @ [CHR 0x27] @ ''Brien'' @ [CHR 0x27] @ ''s caf'' @ bytes [0xE2, 0x88, 0x9A, 0xC2
        , 0xA9],
      ''50% off '' @ bytes [0xE2, 0x80, 0x9A, 0xC3, 0x84, 0xC3, 0xAE] @ '' limited time!'',
      ''Price: '' @ bytes [0xE2, 0x80, 0x9A, 0xC3, 0x87, 0xC2, 0xA8] @ ''100 or '' @
        bytes [0xC2, 0xAC, 0xC2, 0xA3] @ ''80'',
      bytes [0xE2, 0x88, 0x9A, 0xC3, 0xAB] @ ''o'' @ bytes [0xE2, 0x88, 0x9A, 0xC2, 0xB1] @
        ''o'',
      [CHR 0x00] @ '' null byte'',
      bytes [0xC3, 0x8A, 0xC3, 0xBA, 0xC2, 0xB4, 0xC3, 0x8A, 0xC3, 0xBA, 0xC2, 0xB4, 0xC3,
        0x8A, 0xC3, 0xBA, 0xC2, 0xB4],
      ''Beyonc'' @ bytes [0xE2, 0x88, 0x9A, 0xC2, 0xA9]]"

definition rows_12 :: "nat \<Rightarrow> gen \<Rightarrow> row list \<times> gen" where
  "rows_12 i g =
     (let (u, g1) = random_random g;
          (fields, g2) =
             (if u < 3 / 10 then
                (let (name, g') = choice special_chars g1;
                     (address, g'') = choice special_chars g';
                     (parts, g''') = sample special_chars 3 g''
                 in ((name, address, join '' | '' parts), g'''))
              else
                (let (name, g') = fake ''locales.name'' g1;
                     (address, g'') = fake ''locales.address'' g';
                     (notes, g''') = fake ''locales.text(max_nb_chars=200)'' g''
                 in ((name, py_replace [CHR 0x0A] '', '' address, notes), g''')))
      in case fields of (name, address, notes) \<Rightarrow>
           ([[VInt (int i + 1), VStr (take 300 name), VStr (take 500 address),
              VStr (take 1000 notes)]], g2))"

definition insert_12 :: "adapter \<Rightarrow> stmt" where
  "insert_12 db = InsertInto (table db ''international_data'')
     [''record_id'', ''customer_name'', ''address'', ''notes'']"

definition problem_12_encoding_issues :: "nat \<Rightarrow> world \<Rightarrow> world outcome" where
  "problem_12_encoding_issues num_rows w =
     (let db = fst w in
      seq (on_db (execute (CreateTable (table db ''international_data''))))
        (seq (batch_loop (insert_12 db) rows_12 0 num_rows)
           (on_db commit)) w)"

subsection \<open>Problem 13: god table\<close>

text \<open>A customer dictionary, as the twelve values the row copies from it, in row order.\<close>

definition customer_13 :: "nat \<Rightarrow> gen \<Rightarrow> row \<times> gen" where
  "customer_13 i g =
     (let (first_name, g1) = fake ''first_name'' g;
          (last_name, g2) = fake ''last_name'' g1;
          (email, g3) = fake ''email'' g2;
          (phone, g4) = fake ''phone_number'' g3;
          (addr1, g5) = fake ''street_address'' g4;
          (u, g6) = random_random g5;
          (addr2, g7) = (if 7 / 10 < u then fake ''secondary_address'' g6 else ('''', g6));
          (city, g8) = fake ''city'' g7;
          (state, g9) = fake ''state_abbr'' g8;
          (zip, g10) = fake ''zipcode'' g9;
          (created, g11) = fake_date ''date_time_between(-3y, -1y)'' g10
      in ([VInt (int i + 1), VStr first_name, VStr last_name, VStr email, VStr phone,
           VStr addr1, VStr addr2, VStr city, VStr state, VStr zip, VStr ''USA'',
           VDateTime created], g11))"

text \<open>A product dictionary: id, name, description, category, subcategory and brand as
  the row copies them, then price and cost.\<close>

definition product_13 :: "nat \<Rightarrow> gen \<Rightarrow> (row \<times> rat \<times> rat) \<times> gen" where
  "product_13 i g =
     (let (name, g1) = fake ''catch_phrase'' g;
          (desc, g2) = fake ''text(max_nb_chars=500)'' g1;
          (cat, g3) = choice [''Electronics'', ''Clothing'', ''Home'', ''Sports'', ''Books''] g2;
          (subcat, g4) = fake ''word'' g3;
          (brand, g5) = fake ''company'' g4;
          (price, g6) = uniform 10 500 g5;
          (cost, g7) = uniform 5 250 g6
      in (([VInt (int i + 1), VStr (take 200 name), VStr desc, VStr cat, VStr subcat,
            VStr (take 100 brand)], py_round price 2, py_round cost 2), g7))"

definition rows_13 ::
  "row list \<Rightarrow> (row \<times> rat \<times> rat) list \<Rightarrow> nat \<Rightarrow> gen \<Rightarrow> row list \<times> gen" where
  "rows_13 customers products i g =
     (let (cust, g1) = choice customers g;
          (prod, g2) = choice products g1;
          (qty, g3) = randint 1 5 g2;
          (order_date, g4) = fake_date ''date_time_between(-1y, now)'' g3;
          price = fst (snd prod);
          cost = snd (snd prod);
          (order_id, g5) = randint 10000 99999 g4;
          (order_status, g6) = choice [''pending'', ''shipped'', ''delivered'', ''returned''] g5;
          (shipping_cost, g7) = uniform 5 20 g6;
          (carrier, g8) = choice [''UPS'', ''FedEx'', ''USPS'', ''DHL''] g7;
          (tracking, g9) = fake ''uuid4'' g8;
          (method, g10) = choice [''standard'', ''express'', ''overnight''] g9;
          (d1, g11) = randint 3 14 g10;
          (u, g12) = random_random g11;
          (actual, g13) =
             (if 3 / 10 < u then
                (let (d2, g') = randint 3 20 g12
                 in (VDate ((order_date + 86400 * d2) div 86400), g'))
              else (VNone, g12))
      in ([[VInt (int i + 1)] @ cust @
           [VInt order_id, VDateTime order_date, VStr order_status,
            VNum (py_round (price * of_int qty * (11 / 10)) 2),
            VNum (py_round shipping_cost 2),
            VNum (py_round (price * of_int qty * (8 / 100)) 2)] @
           fst prod @
           [VNum price, VNum cost, VInt qty, VNum (py_round (price * of_int qty) 2),
            VStr carrier, VStr (take 20 tracking), VStr method,
            VDate ((order_date + 86400 * d1) div 86400), actual]], g13))"

definition insert_13 :: "adapter \<Rightarrow> stmt" where
  "insert_13 db = InsertInto (table db ''god_table'')
     [''id'', ''customer_id'', ''customer_first_name'', ''customer_last_name'',
      ''customer_email'', ''customer_phone'', ''customer_address_line1'',
      ''customer_address_line2'', ''customer_city'', ''customer_state'', ''customer_zip'',
      ''customer_country'', ''customer_created_at'', ''order_id'', ''order_date'',
      ''order_status'', ''order_total'', ''order_shipping_cost'', ''order_tax'',
      ''product_id'', ''product_name'', ''product_description'', ''product_category'',
      ''product_subcategory'', ''product_brand'', ''product_unit_price'', ''product_cost'',
      ''quantity'', ''line_total'', ''shipping_carrier'', ''shipping_tracking'',
      ''shipping_method'', ''estimated_delivery'', ''actual_delivery'']"

text \<open>100 customers and 50 products are generated once; then the insert loop.\<close>

definition insert_god_rows :: "nat \<Rightarrow> world \<Rightarrow> world outcome" where
  "insert_god_rows num_rows w =
     (let (customers, g1) = collect customer_13 [0 ..< 100] (snd w);
          (products, g2) = collect product_13 [0 ..< 50] g1
      in flush_all (insert_13 (fst w)) (rows_13 customers products) [0 ..< num_rows]
           (fst w, g2))"

definition problem_13_god_table :: "nat \<Rightarrow> world \<Rightarrow> world outcome" where
  "problem_13_god_table num_rows w =
     (let db = fst w in
      seq (on_db (execute (CreateTable (table db ''god_table''))))
        (seq (insert_god_rows num_rows)
           (on_db commit)) w)"

subsection \<open>Problem 14: missing indexes\<close>

definition rows_14 :: "nat \<Rightarrow> gen \<Rightarrow> row list \<times> gen" where
  "rows_14 i g =
     (let (user_id, g1) = randint 1 10000 g;
          (action_type, g2) =
             choice [''VIEW'', ''CREATE'', ''UPDATE'', ''DELETE'', ''LOGIN'', ''LOGOUT'',
                     ''EXPORT''] g1;
          (resource_type, g3) =
             choice [''user'', ''order'', ''product'', ''report'', ''setting'', ''document''] g2;
          (resource_id, g4) = randint 1 100000 g3;
          (ip_address, g5) = fake ''ipv4'' g4;
          (user_agent, g6) = fake ''user_agent'' g5;
          (created_at, g7) = fake_date ''date_time_between(-90d, now)'' g6;
          (session_id, g8) = fake ''uuid4'' g7;
          (status, g9) = choice [''success'', ''failure'', ''pending'', ''timeout''] g8
      in ([[VInt user_id, VStr action_type, VStr resource_type, VInt resource_id,
            VStr ip_address, VStr (take 500 user_agent), VDateTime created_at,
            VStr session_id, VStr status]], g9))"

definition insert_14 :: "adapter \<Rightarrow> stmt" where
  "insert_14 db = InsertInto (table db ''audit_log_no_index'')
     [''user_id'', ''action_type'', ''resource_type'', ''resource_id'', ''ip_address'',
      ''user_agent'', ''created_at'', ''session_id'', ''status'']"

definition problem_14_missing_indexes :: "nat \<Rightarrow> world \<Rightarrow> world outcome" where
  "problem_14_missing_indexes num_rows w =
     (let db = fst w in
      seq (on_db (execute (CreateTable (table db ''audit_log_no_index''))))
        (seq (batch_loop (insert_14 db) rows_14 0 num_rows)
           (on_db commit)) w)"

subsection \<open>Problem 15: implicit type coercion traps\<close>

definition account_15 :: "nat \<Rightarrow> gen \<Rightarrow> row \<times> gen" where
  "account_15 i g =
     (let (account_name, g1) = fake ''company'' g;
          (balance, g2) = uniform 100 100000 g1
      in ([VInt (int i + 1), VStr (take 200 account_name), VNum (py_round balance 2)], g2))"

definition rows_15 :: "nat \<Rightarrow> gen \<Rightarrow> row list \<times> gen" where
  "rows_15 i g =
     (let (acct_id, g1) = randint 1 1000 g;
          (u, g2) = random_random g1;
          acct_id_str = (if u < 4 / 10 then zero_pad 10 acct_id else str_int acct_id);
          (amount, g3) = uniform (- 1000) 1000 g2;
          (txn_date, g4) = fake_date ''date_between(-1y, today)'' g3
      in ([[VInt (int i + 1), VStr acct_id_str, VNum (py_round amount 2), VDate txn_date]],
          g4))"

definition insert_accounts :: "adapter \<Rightarrow> stmt" where
  "insert_accounts db = InsertInto (table db ''accounts_int_id'')
     [''account_id'', ''account_name'', ''balance'']"

definition insert_15 :: "adapter \<Rightarrow> stmt" where
  "insert_15 db = InsertInto (table db ''transactions_str_id'')
     [''txn_id'', ''account_id'', ''amount'', ''txn_date'']"

definition seed_accounts :: "world \<Rightarrow> world outcome" where
  "seed_accounts w =
     (let (accounts, g1) = collect account_15 [0 ..< 1000] (snd w)
      in on_db (executemany (insert_accounts (fst w)) accounts) (fst w, g1))"

definition problem_15_type_coercion :: "nat \<Rightarrow> world \<Rightarrow> world outcome" where
  "problem_15_type_coercion num_rows w =
     (let db = fst w in
      seq (on_db (execute (CreateTable (table db ''accounts_int_id''))))
        (seq (on_db (execute (CreateTable (table db ''transactions_str_id''))))
           (seq seed_accounts
              (seq (batch_loop (insert_15 db) rows_15 0 num_rows)
                 (on_db commit)))) w)"
section \<open>Diagnostic queries\<close>

text \<open>A triple-quoted query: every line, the empty first one included, ends in a newline.\<close>

definition text_of_lines :: "string list \<Rightarrow> string" where
  "text_of_lines ls = concat (map (\<lambda>l. l @ [CHR 0x0A]) ls)"

definition query_01 :: string where
  "query_01 = text_of_lines
     ['''',
      ''-- Find exact duplicate rows'',
      ''SELECT customer_id, first_name, last_name, email, COUNT(*) as count'',
      ''FROM {prefix}customers_no_pk'',
      ''GROUP BY customer_id, first_name, last_name, email'',
      ''HAVING COUNT(*) > 1'',
      ''ORDER BY count DESC'',
      ''LIMIT 20;'']"

definition query_02 :: string where
  "query_02 = text_of_lines
     ['''',
      ''-- Find orders with non-existent customers'',
      ''SELECT COUNT(*) as orphaned_customer_orders'',
      ''FROM {prefix}orders_no_fk o'',
      ''LEFT JOIN {prefix}customers_no_pk c ON o.customer_id = c.customer_id'',
      ''WHERE c.customer_id IS NULL;'',
      '''',
      ''-- Find orders with non-existent products'',
      ''SELECT COUNT(*) as orphaned_product_orders'',
      ''FROM {prefix}orders_no_fk o'',
      ''LEFT JOIN {prefix}products p ON o.product_id = p.product_id'',
      ''WHERE p.product_id IS NULL;'']"

definition query_03 :: string where
  "query_03 = text_of_lines
     ['''',
      ''-- Show the variety of date formats stored as strings'',
      ''SELECT transaction_date, COUNT(*) as count'',
      ''FROM {prefix}transactions_bad_types'',
      ''GROUP BY transaction_date'',
      ''ORDER BY count DESC'',
      ''LIMIT 20;'',
      '''',
      ''-- Show amount formats'',
      ''SELECT amount, COUNT(*) as count'',
      ''FROM {prefix}transactions_bad_types'',
      ''GROUP BY amount'',
      ''ORDER BY count DESC'',
      ''LIMIT 20;'']"

definition query_04 :: string where
  "query_04 = text_of_lines
     ['''',
      ''SELECT'',
      ''    COUNT(*) as total_rows,'',
      ''    SUM(CASE WHEN first_name IS NULL THEN 1 ELSE 0 END) as null_first_name,'',
      ''    SUM(CASE WHEN last_name IS NULL THEN 1 ELSE 0 END) as null_last_name,'',
      ''    SUM(CASE WHEN email IS NULL THEN 1 ELSE 0 END) as null_email,'',
      ''    SUM(CASE WHEN salary IS NULL THEN 1 ELSE 0 END) as null_salary,'',
      ''    SUM(CASE WHEN hire_date IS NULL THEN 1 ELSE 0 END) as null_hire_date'',
      ''FROM {prefix}employees_nulls;'']"

definition query_05 :: string where
  "query_05 = text_of_lines
     ['''',
      ''SELECT user_id, username, email, COUNT(*) as occurrences'',
      ''FROM {prefix}users_duplicates'',
      ''GROUP BY user_id, username, email'',
      ''HAVING COUNT(*) > 1'',
      ''ORDER BY occurrences DESC'',
      ''LIMIT 20;'']"

definition query_06 :: string where
  "query_06 = text_of_lines
     ['''',
      ''SELECT start_date, COUNT(*) as count'',
      ''FROM {prefix}events_bad_dates'',
      ''GROUP BY start_date'',
      ''ORDER BY count DESC'',
      ''LIMIT 30;'']"

definition query_07 :: string where
  "query_07 = text_of_lines
     ['''',
      ''SELECT LOWER(country) as normalized_country,'',
      ''       COUNT(DISTINCT country) as case_variations,'',
      ''       COUNT(*) as total_records'',
      ''FROM {prefix}contacts_bad_casing'',
      ''GROUP BY LOWER(country)'',
      ''HAVING COUNT(DISTINCT country) > 1'',
      ''ORDER BY case_variations DESC;'']"

definition query_08 :: string where
  "query_08 = text_of_lines
     ['''',
      ''SELECT sku,'',
      ''       LENGTH(sku) as length_with_whitespace,'',
      ''       LENGTH(TRIM(sku)) as length_trimmed,'',
      ''       LENGTH(sku) - LENGTH(TRIM(sku)) as whitespace_chars'',
      ''FROM {prefix}inventory_whitespace'',
      ''WHERE LENGTH(sku) != LENGTH(TRIM(sku))'',
      ''LIMIT 20;'']"

definition query_09 :: string where
  "query_09 = text_of_lines
     ['''',
      ''-- Emails without @ symbol'',
      ''SELECT email, COUNT(*) as count'',
      ''FROM {prefix}subscribers_bad_emails'',
      ''WHERE email NOT LIKE '' @ [CHR 0x27] @ ''%@%'' @ [CHR 0x27] @ '' OR email = '' @
        bytes [0x27, 0x27] @ '' OR email IS NULL'',
      ''GROUP BY email'',
      ''ORDER BY count DESC'',
      ''LIMIT 20;'']"

definition query_10 :: string where
  "query_10 = text_of_lines
     ['''',
      ''SELECT'',
      ''    SUM(CASE WHEN unit_price < 0 THEN 1 ELSE 0 END) as negative_prices,'',
      ''    SUM(CASE WHEN quantity < 0 THEN 1 ELSE 0 END) as negative_quantities,'',
      ''    SUM(CASE WHEN discount_percent > 100 THEN 1 ELSE 0 END) as impossible_discounts,'',
      ''    SUM(CASE WHEN sale_date > CURRENT_DATE THEN 1 ELSE 0 END) as future_dates,'',
      ''    SUM(CASE WHEN customer_age < 0 OR customer_age > 120 THEN 1 ELSE 0 END) as impossible_ages,'',
      ''    SUM(CASE WHEN rating < 1 OR rating > 5 THEN 1 ELSE 0 END) as invalid_ratings'',
      ''FROM {prefix}sales_bad_values;'']"

definition query_11 :: string where
  "query_11 = text_of_lines
     ['''',
      ''-- Count articles by number of tags'',
      ''SELECT'',
      ''    (LENGTH(tags) - LENGTH(REPLACE(tags, '' @ [CHR 0x27] @ '','' @ [CHR 0x27] @ '', ''
        @ bytes [0x27, 0x27] @ '')) + 1) as num_tags,'',
      ''    COUNT(*) as article_count'',
      ''FROM {prefix}articles_csv_tags'',
      ''WHERE tags IS NOT NULL AND tags != '' @ bytes [0x27, 0x27],
      ''GROUP BY (LENGTH(tags) - LENGTH(REPLACE(tags, '' @ [CHR 0x27] @ '','' @ [CHR 0x27] @
        '', '' @ bytes [0x27, 0x27] @ '')) + 1)'',
      ''ORDER BY num_tags;'']"

definition query_12 :: string where
  "query_12 = text_of_lines
     ['''',
      ''SELECT customer_name, LENGTH(customer_name) as length'',
      ''FROM {prefix}international_data'',
      ''WHERE customer_name LIKE '' @ [CHR 0x27] @ ''%'' @ bytes [0xC3, 0x94, 0xC3, 0xB8, 0xCE
        , 0xA9] @ ''%'' @ [CHR 0x27],
      ''   OR customer_name LIKE '' @ [CHR 0x27] @ ''%'' @ [CHR 0x5C] @ ''n%'' @ [CHR 0x27],
      ''   OR customer_name LIKE '' @ [CHR 0x27] @ ''%'' @ [CHR 0x5C] @ ''t%'' @ [CHR 0x27],
      ''LIMIT 20;'']"

definition query_13 :: string where
  "query_13 = text_of_lines
     ['''',
      ''-- Same customer info repeated many times'',
      ''SELECT customer_id, customer_email,'',
      ''       COUNT(*) as times_repeated,'',
      ''       COUNT(DISTINCT order_id) as unique_orders'',
      ''FROM {prefix}god_table'',
      ''GROUP BY customer_id, customer_email'',
      ''ORDER BY times_repeated DESC'',
      ''LIMIT 10;'']"

definition query_14 :: string where
  "query_14 = text_of_lines
     ['''',
      ''-- This query scans full table without indexes'',
      ''-- In a real workshop, compare EXPLAIN plans before/after adding index'',
      ''SELECT user_id, action_type, COUNT(*) as count'',
      ''FROM {prefix}audit_log_no_index'',
      ''WHERE created_at > CURRENT_DATE - INTERVAL '' @ [CHR 0x27] @ ''7 days'' @ [CHR 0x27],
      ''  AND action_type = '' @ [CHR 0x27] @ ''LOGIN'' @ [CHR 0x27],
      ''  AND status = '' @ [CHR 0x27] @ ''success'' @ [CHR 0x27],
      ''GROUP BY user_id, action_type'',
      ''ORDER BY count DESC'',
      ''LIMIT 10;'']"

definition query_15 :: string where
  "query_15 = text_of_lines
     ['''',
      ''-- This join may fail or produce wrong results due to type mismatch'',
      ''SELECT'',
      ''    a.account_id as int_id,'',
      ''    t.account_id as str_id,'',
      ''    a.account_name,'',
      ''    t.amount'',
      ''FROM {prefix}accounts_int_id a'',
      ''JOIN {prefix}transactions_str_id t'',
      ''    ON a.account_id = CAST(t.account_id AS INTEGER)'',
      ''WHERE t.account_id LIKE '' @ [CHR 0x27] @ ''0%'' @ [CHR 0x27],
      ''LIMIT 10;'',
      '''',
      ''-- Count of transactions that won'' @ [CHR 0x27] @
        ''t join properly with direct comparison'',
      ''SELECT COUNT(*) as problematic_transactions'',
      ''FROM {prefix}transactions_str_id'',
      ''WHERE account_id LIKE '' @ [CHR 0x27] @ ''0%'' @ [CHR 0x27] @ '';'']"

definition DIAGNOSTIC_QUERIES :: "(string \<times> string \<times> string \<times> string) list" where
  "DIAGNOSTIC_QUERIES =
     [(''problem_01'', ''Tables without Primary Keys'',
       ''Find duplicate rows that can'' @ [CHR 0x27] @ ''t be uniquely identified'', query_01),
      (''problem_02'', ''Orphaned Foreign Key Records'',
       ''Find orders referencing non-existent customers/products'', query_02),
      (''problem_03'', ''Wrong Data Types'',
       ''Identify strings that should be dates/numbers'', query_03),
      (''problem_04'', ''NULL Values in Critical Fields'',
       ''Count NULLs in fields that shouldn'' @ [CHR 0x27] @ ''t be NULL'', query_04),
      (''problem_05'', ''Duplicate Records'',
       ''Find users that appear multiple times'', query_05),
      (''problem_06'', ''Inconsistent Date Formats'',
       ''Show the chaos of date format variations'', query_06),
      (''problem_07'', ''Inconsistent String Casing'',
       ''Find same value with different casing'', query_07),
      (''problem_08'', ''Whitespace Issues'',
       ''Find values with leading/trailing whitespace'', query_08),
      (''problem_09'', ''Invalid Email Formats'',
       ''Find emails that don'' @ [CHR 0x27] @ ''t match basic patterns'', query_09),
      (''problem_10'', ''Out of Range Values'',
       ''Find business-logic violations'', query_10),
      (''problem_11'', ''CSV Values in Columns (1NF Violation)'',
       ''Show multi-valued fields that should be separate tables'', query_11),
      (''problem_12'', ''Encoding and Special Characters'',
       ''Find records with special characters'', query_12),
      (''problem_13'', ''God Table Redundancy'',
       ''Show data redundancy in denormalized table'', query_13),
      (''problem_14'', ''Missing Indexes Impact'',
       ''Show query that would benefit from indexes'', query_14),
      (''problem_15'', ''Type Coercion Join Failures'',
       ''Show how string/int ID mismatch breaks joins'', query_15)]"

text \<open>\<open>str.strip()\<close> on the ASCII whitespace.\<close>

definition is_space :: "char \<Rightarrow> bool" where
  "is_space c = ((of_char c :: nat) \<in> {9, 10, 11, 12, 13, 28, 29, 30, 31, 32})"

definition strip :: "string \<Rightarrow> string" where
  "strip s = rev (dropWhile is_space (rev (dropWhile is_space s)))"

text \<open>
  \<open>show_diagnostics\<close> prints, per catalog entry and in catalog order, the name, the
  description and the stripped query with the placeholder replaced.  The value modelled
  is the list of these triples.
\<close>

definition diagnostic_prefix :: "DBType \<Rightarrow> string" where
  "diagnostic_prefix t = (if t = MySQL then ''bdw_'' else SCHEMA_NAME @ ''.'')"

definition show_diagnostics :: "DBType \<Rightarrow> (string \<times> string \<times> string) list" where
  "show_diagnostics t =
     map (\<lambda>(problem_id, name, description, query).
            (name, description, strip (py_replace ''{prefix}'' (diagnostic_prefix t) query)))
       DIAGNOSTIC_QUERIES"

section \<open>Setup and teardown\<close>

text \<open>Row counts are naturals: every count the scale table yields is positive.\<close>

definition scales :: "string \<rightharpoonup> nat" where
  "scales =
     map_of [(''tiny'', 100), (''small'', 10000), (''medium'', 100000), (''large'', 500000),
             (''xlarge'', 1000000)]"

text \<open>\<open>scales.get(scale, 10_000)\<close>.\<close>

definition base_rows_of :: "string \<Rightarrow> nat" where
  "base_rows_of scale = (case scales scale of Some n \<Rightarrow> n | None \<Rightarrow> 10000)"

definition problems :: "nat \<Rightarrow> (string \<times> (nat \<Rightarrow> world \<Rightarrow> world outcome) \<times> nat) list" where
  "problems base_rows =
     [(''Problem 1: No Primary Keys'', problem_01_no_primary_key, base_rows),
      (''Problem 2: Missing Foreign Keys'', problem_02_missing_foreign_keys, base_rows),
      (''Problem 3: Wrong Data Types'', problem_03_wrong_data_types, base_rows),
      (''Problem 4: Missing NOT NULL'', problem_04_missing_not_null, base_rows),
      (''Problem 5: Duplicate Records'', problem_05_duplicate_records, base_rows),
      (''Problem 6: Inconsistent Dates'', problem_06_inconsistent_dates, base_rows),
      (''Problem 7: Inconsistent Casing'', problem_07_inconsistent_casing, base_rows),
      (''Problem 8: Whitespace Issues'', problem_08_whitespace_issues, base_rows),
      (''Problem 9: Invalid Emails'', problem_09_invalid_emails, base_rows),
      (''Problem 10: Out of Range Values'', problem_10_out_of_range, base_rows),
      (''Problem 11: CSV in Columns'', problem_11_csv_in_columns, base_rows),
      (''Problem 12: Encoding Issues'', problem_12_encoding_issues, base_rows),
      (''Problem 13: God Table'', problem_13_god_table, base_rows * 2),
      (''Problem 14: Missing Indexes'', problem_14_missing_indexes, base_rows * 5),
      (''Problem 15: Type Coercion'', problem_15_type_coercion, base_rows)]"

text \<open>\<open>for name, func, rows in problems: func(db, rows)\<close>.\<close>

fun run_problems ::
  "(string \<times> (nat \<Rightarrow> world \<Rightarrow> world outcome) \<times> nat) list \<Rightarrow> world \<Rightarrow> world outcome" where
  "run_problems [] w = (None, w)"
| "run_problems ((name, func, rows) # ps) w = seq (func rows) (run_problems ps) w"

text \<open>
  \<open>try: body  except Exception: raise  finally: db.close()\<close>.  The body's outcome
  stands unless \<open>close()\<close> raises itself, in which case that exception leaves the
  function.
\<close>

definition finally_close :: "(world \<Rightarrow> world outcome) \<Rightarrow> world \<Rightarrow> world outcome" where
  "finally_close body w =
     (case body w of
        (r, (db1, g1)) \<Rightarrow>
          (case close db1 of
             (Some e, db2) \<Rightarrow> (Some e, (db2, g1))
           | (None, db2) \<Rightarrow> (r, (db2, g1))))"

definition setup_body :: "nat \<Rightarrow> world \<Rightarrow> world outcome" where
  "setup_body base_rows =
     seq (on_db connect) (seq (on_db create_schema) (run_problems (problems base_rows)))"

definition setup_workshop ::
  "DBConfig \<Rightarrow> string \<Rightarrow> (event list \<Rightarrow> event \<Rightarrow> bool) \<Rightarrow> string list \<Rightarrow> gen \<Rightarrow> world outcome" where
  "setup_workshop cfg scale flt cat g =
     (let base_rows = base_rows_of scale;
          db = get_adapter cfg flt cat
      in finally_close (setup_body base_rows) (db, g))"

definition teardown_workshop ::
  "DBConfig \<Rightarrow> (event list \<Rightarrow> event \<Rightarrow> bool) \<Rightarrow> string list \<Rightarrow> gen \<Rightarrow> world outcome" where
  "teardown_workshop cfg flt cat g =
     (let db = get_adapter cfg flt cat
      in finally_close (seq (on_db connect) (on_db drop_schema)) (db, g))"

section \<open>Observations\<close>

text \<open>\<open>pat in s\<close>: the text \<open>pat\<close> occurs in \<open>s\<close>.\<close>

fun occurs :: "string \<Rightarrow> string \<Rightarrow> bool" where
  "occurs pat [] = (pat = [])"
| "occurs pat (c # cs) = (take (length pat) (c # cs) = pat \<or> occurs pat cs)"

text \<open>The adapter \<open>db\<close> after the driver has completed the further calls \<open>evs\<close>.\<close>

definition extended :: "adapter \<Rightarrow> event list \<Rightarrow> adapter" where
  "extended db evs = db\<lparr>trace := trace db @ evs\<rparr>"

text \<open>Both handles are set and the driver never raises.\<close>

definition ready :: "adapter \<Rightarrow> bool" where
  "ready db \<longleftrightarrow> cursor db \<and> connection db \<and> (\<forall>h e. \<not> fault db h e)"

text \<open>The outcome \<open>r\<close> of a run started in \<open>w\<close> only adds driver calls, each of them
  satisfying \<open>p\<close>, whether the run returned or raised.\<close>

definition only_at :: "(event \<Rightarrow> bool) \<Rightarrow> world \<Rightarrow> world outcome \<Rightarrow> bool" where
  "only_at p w r \<longleftrightarrow> (\<exists>evs. fst (snd r) = extended (fst w) evs \<and> list_all p evs)"

text \<open>
  The outcome \<open>r\<close> of a run started in \<open>w\<close> only adds driver calls; when the run
  returned, exactly one of them is a commit and it is the last; when it raised, none of
  them is a commit.
\<close>

definition atomic_at :: "world \<Rightarrow> world outcome \<Rightarrow> bool" where
  "atomic_at w r \<longleftrightarrow>
     (\<exists>evs. fst (snd r) = extended (fst w) evs \<and>
        (case fst r of
           None \<Rightarrow> evs \<noteq> [] \<and> last evs = Committed \<and> Committed \<notin> set (butlast evs)
         | Some e \<Rightarrow> Committed \<notin> set evs))"

text \<open>The number of rows a driver call carries.\<close>

fun bulk_size :: "event \<Rightarrow> nat" where
  "bulk_size (ExecutedMany sql rows) = length rows"
| "bulk_size e = 0"

text \<open>The rows bulk-inserted into table \<open>t\<close>, in order.\<close>

fun rows_into :: "string \<Rightarrow> event list \<Rightarrow> row list" where
  "rows_into t [] = []"
| "rows_into t (ExecutedMany (InsertInto t' cols) rows # evs) =
     (if t' = t then rows @ rows_into t evs else rows_into t evs)"
| "rows_into t (e # evs) = rows_into t evs"

text \<open>The tables created, in order.\<close>

fun created :: "event list \<Rightarrow> string list" where
  "created [] = []"
| "created (Executed (CreateTable t) # evs) = t # created evs"
| "created (e # evs) = created evs"

text \<open>
  The bulk inserts that a commit has made durable: those before the last commit.
\<close>

fun is_insert :: "event \<Rightarrow> bool" where
  "is_insert (ExecutedMany sql rows) = True"
| "is_insert e = False"

definition committed :: "event list \<Rightarrow> event list" where
  "committed evs =
     filter is_insert (rev (dropWhile (\<lambda>e. e \<noteq> Committed) (rev evs)))"

text \<open>
  After a run that returned, every bulk insert in the trace is durable; after a run that
  raised, exactly the bulk inserts that were durable before the run are.
\<close>

definition all_or_nothing :: "world \<Rightarrow> world outcome \<Rightarrow> bool" where
  "all_or_nothing w r \<longleftrightarrow>
     (case fst r of
        None \<Rightarrow> committed (trace (fst (snd r))) = filter is_insert (trace (fst (snd r)))
      | Some e \<Rightarrow> committed (trace (fst (snd r))) = committed (trace (fst w)))"

text \<open>The driver calls that a run started in \<open>w\<close> with outcome \<open>r\<close> has added.\<close>

definition new_events :: "world \<Rightarrow> world outcome \<Rightarrow> event list" where
  "new_events w r = drop (length (trace (fst w))) (trace (fst (snd r)))"

text \<open>
  Two concrete states of the seeded sources: in \<open>heads\<close> every raw outcome of \<open>random\<close>
  is 0 (so \<open>random.random()\<close> returns 0.0), in \<open>tails\<close> it is \<open>2^52\<close> (so
  \<open>random.random()\<close> returns 0.5).  The provider returns the method name as text and the
  call number as date.
\<close>

definition heads :: gen where
  "heads = \<lparr>rtape = (\<lambda>k. 0), rpos = 0, ftape = (\<lambda>k m. m), dtape = (\<lambda>k m. int k), fpos = 0,
            today = 20000\<rparr>"

definition tails :: gen where
  "tails = \<lparr>rtape = (\<lambda>k. 2 ^ 52), rpos = 0, ftape = (\<lambda>k m. m), dtape = (\<lambda>k m. int k),
            fpos = 0, today = 20000\<rparr>"

text \<open>The MySQL configuration of the integration test, a server that never raises, and
  the adapter after \<open>connect()\<close>.\<close>

definition demo_config :: DBConfig where
  "demo_config = \<lparr>db_type = MySQL, host = ''localhost'', port = 3306, database = ''workshop'',
                   user = ''workshop'', password = ''workshop123''\<rparr>"

definition demo_db :: adapter where
  "demo_db = snd (connect (get_adapter demo_config (\<lambda>h e. False) []))"

text \<open>
  \<open>draw g k\<close> is the raw outcome of the \<open>k\<close>-th next call into \<open>random\<close>, counted from
  the state \<open>g\<close>; \<open>unit_of r\<close> is the float in \<open>[0, 1)\<close> that \<open>random.random()\<close> makes of
  the raw outcome \<open>r\<close>.
\<close>

definition draw :: "gen \<Rightarrow> nat \<Rightarrow> nat" where
  "draw g k = rtape g (rpos g + k)"

definition unit_of :: "nat \<Rightarrow> rat" where
  "unit_of r = of_nat (r mod 2 ^ 53) / 2 ^ 53"

text \<open>Reading a text of decimal digits back as an integer, as a cast of the stored id
  does; \<open>None\<close> when the text is empty or has another character.\<close>

definition is_digit :: "char \<Rightarrow> bool" where
  "is_digit c \<longleftrightarrow> 48 \<le> (of_char c :: nat) \<and> (of_char c :: nat) \<le> 57"

definition parse_decimal :: "string \<Rightarrow> int option" where
  "parse_decimal s =
     (if s \<noteq> [] \<and> list_all is_digit s
      then Some (foldl (\<lambda>acc c. 10 * acc + (int (of_char c) - 48)) 0 s)
      else None)"

text \<open>
  The batch loop walks the ids \<open>0, \<dots>, n - 1\<close> in ranges of \<open>batch_size\<close> ids, the last
  range holding the remainder: \<open>id_batches n\<close> lists the number of ids per range.
\<close>

definition id_batches :: "nat \<Rightarrow> nat list" where
  "id_batches n =
     replicate (n div batch_size) batch_size @
     (if n mod batch_size = 0 then [] else [n mod batch_size])"

text \<open>The sizes of the bulk inserts into table \<open>t\<close>, in order.\<close>

fun bulks_into :: "string \<Rightarrow> event list \<Rightarrow> nat list" where
  "bulks_into t [] = []"
| "bulks_into t (ExecutedMany (InsertInto t' cols) rows # evs) =
     (if t' = t then length rows # bulks_into t evs else bulks_into t evs)"
| "bulks_into t (e # evs) = bulks_into t evs"

text \<open>
  The run with outcome \<open>r\<close>, started in \<open>w\<close>, returned, and of the driver calls it added
  exactly one is a commit: the last one.
\<close>

definition commits_once :: "world \<Rightarrow> world outcome \<Rightarrow> bool" where
  "commits_once w r \<longleftrightarrow>
     fst r = None \<and> (\<exists>evs. new_events w r = evs @ [Committed] \<and> Committed \<notin> set evs)"

section \<open>Proofs\<close>

subsection \<open>Text replacement and stripping\<close>

lemma occurs_iff: "occurs pat s \<longleftrightarrow> (\<exists>xs ys. s = xs @ pat @ ys)"
proof (induction s)
  case Nil
  then show ?case by auto
next
  case (Cons c cs)
  show ?case
  proof
    assume "occurs pat (c # cs)"
    then consider "take (length pat) (c # cs) = pat" | "occurs pat cs" by auto
    then show "\<exists>xs ys. c # cs = xs @ pat @ ys"
    proof cases
      case 1
      then have "c # cs = [] @ pat @ drop (length pat) (c # cs)"
        by (metis append_Nil append_take_drop_id)
      then show ?thesis by blast
    next
      case 2
      then obtain xs ys where "cs = xs @ pat @ ys" using Cons.IH by blast
      then have "c # cs = (c # xs) @ pat @ ys" by simp
      then show ?thesis by blast
    qed
  next
    assume "\<exists>xs ys. c # cs = xs @ pat @ ys"
    then obtain xs ys where e: "c # cs = xs @ pat @ ys" by blast
    show "occurs pat (c # cs)"
    proof (cases xs)
      case Nil
      then have "take (length pat) (c # cs) = pat" using e by simp
      then show ?thesis by simp
    next
      case (Cons x xs')
      then have "cs = xs' @ pat @ ys" using e by simp
      then have "occurs pat cs" using Cons.IH by blast
      then show ?thesis by simp
    qed
  qed
qed

lemma replace_take:
  "new \<noteq> [] \<Longrightarrow> hd new \<notin> set (take k (py_replace old new s))
     \<Longrightarrow> take k (py_replace old new s) = take k s"
proof (induction old new s arbitrary: k rule: py_replace.induct)
  case (1 old new)
  then show ?case by simp
next
  case (2 old new c cs)
  show ?case
  proof (cases k)
    case 0
    then show ?thesis by simp
  next
    case (Suc k')
    show ?thesis
    proof (cases "old \<noteq> [] \<and> take (length old) (c # cs) = old")
      case True
      then have "py_replace old new (c # cs) = new @ py_replace old new (drop (length old - 1) cs)"
        by simp
      then have "hd new \<in> set (take k (py_replace old new (c # cs)))"
        using "2.prems"(1) Suc by (cases new) auto
      then show ?thesis using "2.prems"(2) by simp
    next
      case False
      then have e: "py_replace old new (c # cs) = c # py_replace old new cs" by auto
      then have "hd new \<notin> set (take k' (py_replace old new cs))"
        using "2.prems"(2) Suc by simp
      then have "take k' (py_replace old new cs) = take k' cs"
        using "2.IH"(2) False "2.prems"(1) by blast
      then show ?thesis using e Suc by simp
    qed
  qed
qed

lemma occurs_append_left:
  "old \<noteq> [] \<Longrightarrow> hd old \<notin> set new \<Longrightarrow> occurs old (new @ r) \<Longrightarrow> occurs old r"
proof (induction new)
  case Nil
  then show ?case by simp
next
  case (Cons x xs)
  have "take (length old) (x # xs @ r) \<noteq> old"
  proof
    assume "take (length old) (x # xs @ r) = old"
    then have "hd old = x" using Cons.prems(1) by (cases old) auto
    then show False using Cons.prems(2) by simp
  qed
  then have "occurs old (xs @ r)" using Cons.prems(3) by simp
  then show ?case using Cons by simp
qed

lemma replace_no_occurrence:
  assumes "old \<noteq> []" "new \<noteq> []" "hd new \<notin> set old" "hd old \<notin> set new"
  shows "\<not> occurs old (py_replace old new s)"
  using assms
proof (induction old new s rule: py_replace.induct)
  case (1 old new)
  then show ?case by simp
next
  case (2 old new c cs)
  show ?case
  proof (cases "old \<noteq> [] \<and> take (length old) (c # cs) = old")
    case True
    then have e: "py_replace old new (c # cs) = new @ py_replace old new (drop (length old - 1) cs)"
      by simp
    have "\<not> occurs old (py_replace old new (drop (length old - 1) cs))"
      using "2.IH"(1) True "2.prems" by blast
    then show ?thesis
      using e occurs_append_left [OF "2.prems"(1) "2.prems"(4)] by auto
  next
    case False
    then have e: "py_replace old new (c # cs) = c # py_replace old new cs" by auto
    have ih: "\<not> occurs old (py_replace old new cs)"
      using "2.IH"(2) False "2.prems" by blast
    have "take (length old) (c # py_replace old new cs) \<noteq> old"
    proof
      assume t: "take (length old) (c # py_replace old new cs) = old"
      obtain m where m: "length old = Suc m" using "2.prems"(1) by (cases old) auto
      from t m have o: "old = c # take m (py_replace old new cs)" by simp
      then have "set (take m (py_replace old new cs)) \<subseteq> set old"
        by (metis set_subset_Cons)
      then have "hd new \<notin> set (take m (py_replace old new cs))"
        using "2.prems"(3) by blast
      then have "take m (py_replace old new cs) = take m cs"
        using replace_take "2.prems"(2) by blast
      then have "take (length old) (c # cs) = old" using o m by simp
      then show False using False "2.prems"(1) by simp
    qed
    then show ?thesis using e ih by simp
  qed
qed

lemma replace_keeps:
  "c \<in> set s \<Longrightarrow> c \<notin> set old \<Longrightarrow> c \<in> set (py_replace old new s)"
proof (induction old new s rule: py_replace.induct)
  case (1 old new)
  then show ?case by simp
next
  case (2 old new x xs)
  show ?case
  proof (cases "old \<noteq> [] \<and> take (length old) (x # xs) = old")
    case True
    then have e: "py_replace old new (x # xs) = new @ py_replace old new (drop (length old - 1) xs)"
      by simp
    obtain m where m: "length old = Suc m" using True by (cases old) auto
    have o: "old = x # take m xs" using True m by auto
    have "x # xs = old @ drop m xs" unfolding o by simp
    then have "set (x # xs) = set old \<union> set (drop m xs)" by (metis set_append)
    then have "c \<in> set (drop (length old - 1) xs)" using "2.prems" m by auto
    then show ?thesis using "2.IH"(1) True "2.prems"(2) e by simp
  next
    case False
    then have e: "py_replace old new (x # xs) = x # py_replace old new xs" by auto
    show ?thesis using "2.IH"(2) False "2.prems" e by auto
  qed
qed

lemma strip_sublist: "\<exists>a b. s = a @ strip s @ b"
proof -
  let ?t = "dropWhile is_space s"
  have 1: "s = takeWhile is_space s @ ?t" by simp
  have "rev ?t = takeWhile is_space (rev ?t) @ dropWhile is_space (rev ?t)" by simp
  then have "?t = rev (dropWhile is_space (rev ?t)) @ rev (takeWhile is_space (rev ?t))"
    by (metis rev_append rev_rev_ident)
  then have "?t = strip s @ rev (takeWhile is_space (rev ?t))" by (simp add: strip_def)
  then show ?thesis using 1 by metis
qed

lemma occurs_strip: "occurs pat (strip s) \<Longrightarrow> occurs pat s"
proof -
  assume "occurs pat (strip s)"
  then obtain xs ys where e: "strip s = xs @ pat @ ys" using occurs_iff by blast
  obtain a b where "s = a @ strip s @ b" using strip_sublist by blast
  then have "s = (a @ xs) @ pat @ (ys @ b)" using e by simp
  then show ?thesis using occurs_iff by blast
qed

lemma strip_nonempty: "c \<in> set s \<Longrightarrow> \<not> is_space c \<Longrightarrow> strip s \<noteq> []"
proof -
  assume c: "c \<in> set s" and n: "\<not> is_space c"
  then have 1: "dropWhile is_space s \<noteq> []" by auto
  have "c \<in> set (dropWhile is_space s)"
    using c n by (metis (full_types) UnE set_append set_takeWhileD takeWhile_dropWhile_id)
  then have "c \<in> set (rev (dropWhile is_space s))" by simp
  then have "dropWhile is_space (rev (dropWhile is_space s)) \<noteq> []"
    using n by auto
  then show ?thesis by (simp add: strip_def)
qed

subsection \<open>The diagnostic catalog\<close>

lemma queries_have_S: "list_all (\<lambda>(p, n, d, q). CHR ''S'' \<in> set q) DIAGNOSTIC_QUERIES"
  by (simp add: DIAGNOSTIC_QUERIES_def text_of_lines_def bytes_def
      query_01_def query_02_def query_03_def query_04_def query_05_def query_06_def
      query_07_def query_08_def query_09_def query_10_def query_11_def query_12_def
      query_13_def query_14_def query_15_def)

lemma diagnostic_prefix_shape:
  "diagnostic_prefix t \<noteq> [] \<and> hd (diagnostic_prefix t) \<notin> set ''{prefix}''
     \<and> CHR ''{'' \<notin> set (diagnostic_prefix t)"
  by (cases t) (simp_all add: diagnostic_prefix_def SCHEMA_NAME_def)

lemma rendered_query:
  assumes "CHR ''S'' \<in> set q"
  shows "strip (py_replace ''{prefix}'' (diagnostic_prefix t) q) \<noteq> [] \<and>
         \<not> occurs ''{prefix}'' (strip (py_replace ''{prefix}'' (diagnostic_prefix t) q))"
proof
  have "CHR ''S'' \<in> set (py_replace ''{prefix}'' (diagnostic_prefix t) q)"
    using assms by (intro replace_keeps) simp_all
  moreover have "\<not> is_space CHR ''S''" by (simp add: is_space_def)
  ultimately show "strip (py_replace ''{prefix}'' (diagnostic_prefix t) q) \<noteq> []"
    by (rule strip_nonempty)
next
  have "\<not> occurs ''{prefix}'' (py_replace ''{prefix}'' (diagnostic_prefix t) q)"
    using diagnostic_prefix_shape [of t] by (intro replace_no_occurrence) simp_all
  then show "\<not> occurs ''{prefix}'' (strip (py_replace ''{prefix}'' (diagnostic_prefix t) q))"
    using occurs_strip by blast
qed

lemma replace_segments:
  "old \<noteq> [] \<Longrightarrow>
     \<exists>a rest. s = a @ concat (map ((@) old) rest) \<and>
              py_replace old new s = a @ concat (map ((@) new) rest) \<and>
              list_all (\<lambda>seg. \<not> occurs old seg) (a # rest)"
proof (induction old new s rule: py_replace.induct)
  case (1 old new)
  then show ?case by (intro exI [where x = "[]"]) simp
next
  case (2 old new c cs)
  show ?case
  proof (cases "take (length old) (c # cs) = old")
    case True
    define t where "t = drop (length old - 1) cs"
    have "drop (length old) (c # cs) = t"
      using 2(3) by (cases old) (simp_all add: t_def)
    then have s: "c # cs = old @ t"
      using True by (metis append_take_drop_id)
    from 2(1) [OF conjI [OF 2(3) True] 2(3)] obtain a rest where
      ar: "t = a @ concat (map ((@) old) rest)"
          "py_replace old new t = a @ concat (map ((@) new) rest)"
          "list_all (\<lambda>seg. \<not> occurs old seg) (a # rest)"
      unfolding t_def by blast
    have r: "py_replace old new (c # cs) = new @ py_replace old new t"
      using True 2(3) by (simp add: t_def)
    have "\<not> occurs old []" using 2(3) by simp
    then show ?thesis
      using s r ar
      by (intro exI [where x = "[]"] exI [where x = "a # rest"]) simp
  next
    case False
    then have n: "\<not> (old \<noteq> [] \<and> take (length old) (c # cs) = old)" by simp
    from 2(2) [OF n 2(3)] obtain a rest where
      ar: "cs = a @ concat (map ((@) old) rest)"
          "py_replace old new cs = a @ concat (map ((@) new) rest)"
          "list_all (\<lambda>seg. \<not> occurs old seg) (a # rest)"
      by blast
    have r: "py_replace old new (c # cs) = c # py_replace old new cs"
      using False by simp
    have "take (length old) (c # a) \<noteq> old"
    proof
      assume e: "take (length old) (c # a) = old"
      then have "length (take (length old) (c # a)) = length old" by simp
      then have "length old \<le> length (c # a)" by simp
      then have z: "length old - length (c # a) = 0" by simp
      have "take (length old) ((c # a) @ concat (map ((@) old) rest)) = take (length old) (c # a)"
        unfolding take_append z by simp
      then show False using e False ar(1) by simp
    qed
    then have "\<not> occurs old (c # a)" using ar(3) by simp
    then show ?thesis
      using r ar
      by (intro exI [where x = "c # a"] exI [where x = rest]) simp
  qed
qed


lemma queries_have_placeholder:
  "list_all (\<lambda>(p, n, d, q). occurs ''{prefix}'' q) DIAGNOSTIC_QUERIES"
  by (simp add: DIAGNOSTIC_QUERIES_def text_of_lines_def bytes_def
      query_01_def query_02_def query_03_def query_04_def query_05_def query_06_def
      query_07_def query_08_def query_09_def query_10_def query_11_def query_12_def
      query_13_def query_14_def query_15_def)

lemma diagnostic_prefix_kinds:
  "diagnostic_prefix t = (if t = MySQL then ''bdw_'' else ''bad_data_workshop.'')"
  "get_table_prefix (get_adapter (cfg\<lparr>db_type := t\<rparr>) flt cat) = diagnostic_prefix t"
  by (cases t; simp add: diagnostic_prefix_def SCHEMA_NAME_def get_table_prefix_def
      get_adapter_def)+

lemma rendered_segments:
  assumes "occurs ''{prefix}'' q"
  shows "\<exists>a rest. rest \<noteq> [] \<and> q = a @ concat (map ((@) ''{prefix}'') rest) \<and>
           list_all (\<lambda>seg. \<not> occurs ''{prefix}'' seg) (a # rest) \<and>
           strip (py_replace ''{prefix}'' new q) = strip (a @ concat (map ((@) new) rest))"
proof -
  from replace_segments [of "''{prefix}''" q new] obtain a rest where
    ar: "q = a @ concat (map ((@) ''{prefix}'') rest)"
        "py_replace ''{prefix}'' new q = a @ concat (map ((@) new) rest)"
        "list_all (\<lambda>seg. \<not> occurs ''{prefix}'' seg) (a # rest)"
    by auto
  have "rest \<noteq> []"
  proof
    assume "rest = []"
    then have "q = a" using ar(1) by simp
    then show False using assms ar(3) by simp
  qed
  then show ?thesis using ar by metis
qed

text \<open>
  C9.  For each of the three backend kinds, \<open>diagnose\<close> emits exactly 15 entries, one per
  catalog entry and in catalog order, with the catalog's name and description.  The query
  of every entry is non-empty and no longer contains the text \<open>{prefix}\<close>.  It is the
  catalog query with every placeholder replaced: the catalog query is a sequence of two or
  more pieces, none containing \<open>{prefix}\<close>, joined by \<open>{prefix}\<close>, and the emitted query
  is the same pieces joined by the prefix, then stripped of surrounding whitespace.  The
  prefix is \<open>bdw_\<close> for mysql and \<open>bad_data_workshop.\<close> for postgres and redshift, the
  one the backend's adapter uses for its tables.
\<close>

theorem diagnose_entries:
  "length (show_diagnostics t) = 15 \<and>
   list_all (\<lambda>(name, description, query). query \<noteq> [] \<and> \<not> occurs ''{prefix}'' query)
     (show_diagnostics t) \<and>
   list_all2
     (\<lambda>(problem_id, name, description, query) (name', description', out).
        name' = name \<and> description' = description \<and>
        (\<exists>a rest. rest \<noteq> [] \<and> query = a @ concat (map ((@) ''{prefix}'') rest) \<and>
           list_all (\<lambda>seg. \<not> occurs ''{prefix}'' seg) (a # rest) \<and>
           out = strip (a @ concat
                   (map ((@) (if t = MySQL then ''bdw_'' else ''bad_data_workshop.'')) rest))))
     DIAGNOSTIC_QUERIES (show_diagnostics t) \<and>
   get_table_prefix (get_adapter (cfg\<lparr>db_type := t\<rparr>) flt cat) =
     (if t = MySQL then ''bdw_'' else ''bad_data_workshop.'')"
proof (intro conjI)
  show "length (show_diagnostics t) = 15"
    by (simp add: show_diagnostics_def DIAGNOSTIC_QUERIES_def)
next
  have "list_all (\<lambda>(p, n, d, q).
          strip (py_replace ''{prefix}'' (diagnostic_prefix t) q) \<noteq> [] \<and>
          \<not> occurs ''{prefix}'' (strip (py_replace ''{prefix}'' (diagnostic_prefix t) q)))
        DIAGNOSTIC_QUERIES"
    using queries_have_S rendered_query [of _ t]
    by (auto simp: list_all_iff)
  then show "list_all (\<lambda>(name, description, query). query \<noteq> [] \<and> \<not> occurs ''{prefix}'' query)
     (show_diagnostics t)"
    by (simp add: show_diagnostics_def list_all_iff split_def)
next
  have "\<exists>a rest. rest \<noteq> [] \<and> q = a @ concat (map ((@) ''{prefix}'') rest) \<and>
           list_all (\<lambda>seg. \<not> occurs ''{prefix}'' seg) (a # rest) \<and>
           strip (py_replace ''{prefix}'' (diagnostic_prefix t) q) =
             strip (a @ concat (map ((@) (diagnostic_prefix t)) rest))"
    if "(p, n, d, q) \<in> set DIAGNOSTIC_QUERIES" for p n d q
    using that queries_have_placeholder
    by (intro rendered_segments) (auto simp: list_all_iff)
  then show "list_all2
     (\<lambda>(problem_id, name, description, query) (name', description', out).
        name' = name \<and> description' = description \<and>
        (\<exists>a rest. rest \<noteq> [] \<and> query = a @ concat (map ((@) ''{prefix}'') rest) \<and>
           list_all (\<lambda>seg. \<not> occurs ''{prefix}'' seg) (a # rest) \<and>
           out = strip (a @ concat
                   (map ((@) (if t = MySQL then ''bdw_'' else ''bad_data_workshop.'')) rest))))
     DIAGNOSTIC_QUERIES (show_diagnostics t)"
    unfolding show_diagnostics_def diagnostic_prefix_kinds(1) [symmetric]
    by (auto simp: list_all2_map2 list_all2_same split_def)
next
  show "get_table_prefix (get_adapter (cfg\<lparr>db_type := t\<rparr>) flt cat) =
     (if t = MySQL then ''bdw_'' else ''bad_data_workshop.'')"
    by (simp add: diagnostic_prefix_kinds)
qed

subsection \<open>Adapter operations\<close>

lemma extend_Nil [simp]: "extended db [] = db"
  by (simp add: extended_def)

lemma extend_extend [simp]: "extended (extended db xs) ys = extended db (xs @ ys)"
  by (simp add: extended_def)

lemma extend_fields [simp]:
  "cursor (extended db evs) = cursor db"
  "connection (extended db evs) = connection db"
  "fault (extended db evs) = fault db"
  "config (extended db evs) = config db"
  "catalog (extended db evs) = catalog db"
  "trace (extended db evs) = trace db @ evs"
  by (simp_all add: extended_def)

lemma ready_extend [simp]: "ready (extended db evs) = ready db"
  by (simp add: ready_def)

lemma table_extend [simp]: "table (extended db evs) name = table db name"
  by (simp add: table_def get_table_prefix_def)

lemma driver_call_cases:
  "driver_call e db = (None, extended db [e]) \<or> driver_call e db = (Some DriverError, db)"
  by (simp add: driver_call_def extended_def)

lemma driver_call_ready: "ready db \<Longrightarrow> driver_call e db = (None, extended db [e])"
  by (simp add: driver_call_def extended_def ready_def)

lemma execute_cases:
  "execute sql db = (None, extended db [Executed sql]) \<or> (\<exists>e. execute sql db = (Some e, db))"
  using driver_call_cases [of "Executed sql" db] by (auto simp: execute_def)

lemma executemany_cases:
  "executemany sql rows db = (None, extended db [ExecutedMany sql rows])
     \<or> (\<exists>e. executemany sql rows db = (Some e, db))"
  using driver_call_cases [of "ExecutedMany sql rows" db] by (auto simp: executemany_def)

lemma commit_cases:
  "commit db = (None, extended db [Committed]) \<or> (\<exists>e. commit db = (Some e, db))"
  using driver_call_cases [of Committed db] by (auto simp: commit_def)

lemma execute_ready: "ready db \<Longrightarrow> execute sql db = (None, extended db [Executed sql])"
  by (simp add: execute_def driver_call_ready) (simp add: ready_def)

lemma executemany_ready:
  "ready db \<Longrightarrow> executemany sql rows db = (None, extended db [ExecutedMany sql rows])"
  by (simp add: executemany_def driver_call_ready) (simp add: ready_def)

lemma commit_ready: "ready db \<Longrightarrow> commit db = (None, extended db [Committed])"
  by (simp add: commit_def driver_call_ready) (simp add: ready_def)

subsection \<open>Calls that only add events of one kind\<close>

lemma only_atI:
  "fst (snd r) = extended (fst w) evs \<Longrightarrow> list_all p evs \<Longrightarrow> only_at p w r"
  by (auto simp: only_at_def)

lemma only_execute: "p (Executed sql) \<Longrightarrow> only_at p w (on_db (execute sql) w)"
  using execute_cases [of sql "fst w"]
  by (auto simp: on_db_def intro: only_atI [where evs = "[Executed sql]"] only_atI [where evs = "[]"])

lemma only_executemany:
  "p (ExecutedMany sql rows) \<Longrightarrow> only_at p w (on_db (executemany sql rows) w)"
  using executemany_cases [of sql rows "fst w"]
  by (auto simp: on_db_def intro: only_atI [where evs = "[ExecutedMany sql rows]"]
      only_atI [where evs = "[]"])

lemma only_commit: "p Committed \<Longrightarrow> only_at p w (on_db commit w)"
  using commit_cases [of "fst w"]
  by (auto simp: on_db_def intro: only_atI [where evs = "[Committed]"] only_atI [where evs = "[]"])

lemma only_seq:
  assumes "only_at p w (a w)" and "\<And>w1. only_at p w1 (b w1)"
  shows "only_at p w (seq a b w)"
proof -
  obtain e1 where 1: "fst (snd (a w)) = extended (fst w) e1" "list_all p e1"
    using assms(1) by (auto simp: only_at_def)
  show ?thesis
  proof (cases "fst (a w)")
    case None
    obtain e2 where 2: "fst (snd (b (snd (a w)))) = extended (fst (snd (a w))) e2" "list_all p e2"
      using assms(2) [of "snd (a w)"] unfolding only_at_def by blast
    have "seq a b w = b (snd (a w))" using None by (cases "a w") (simp add: seq_def)
    then have "fst (snd (seq a b w)) = extended (fst w) (e1 @ e2)" using 1 2 by simp
    then show ?thesis using 1 2 by (intro only_atI [where evs = "e1 @ e2"]) simp_all
  next
    case (Some e)
    then have "seq a b w = a w" by (cases "a w") (simp add: seq_def)
    then show ?thesis using 1 by (intro only_atI [where evs = e1]) simp_all
  qed
qed

lemma only_batch_loop:
  assumes "\<And>lo hi g. hi - lo \<le> batch_size \<Longrightarrow>
             p (ExecutedMany sql (fst (build_rows f [lo ..< hi] g)))"
  shows "only_at p w (batch_loop sql f s n w)"
proof (induction "n - s" arbitrary: s w rule: less_induct)
  case (less s w)
  show ?case
  proof (cases "s < n")
    case False
    then have "batch_loop sql f s n w = (None, w)" by (simp add: batch_loop.simps)
    then show ?thesis by (intro only_atI [where evs = "[]"]) simp_all
  next
    case True
    define hi where "hi = min (s + batch_size) n"
    define rows where "rows = fst (build_rows f [s ..< hi] (snd w))"
    define g1 where "g1 = snd (build_rows f [s ..< hi] (snd w))"
    have br: "build_rows f [s ..< hi] (snd w) = (rows, g1)" by (simp add: rows_def g1_def)
    have p: "p (ExecutedMany sql rows)"
      unfolding rows_def by (rule assms) (simp add: hi_def)
    from executemany_cases [of sql rows "fst w"] show ?thesis
    proof
      assume ok: "executemany sql rows (fst w) = (None, extended (fst w) [ExecutedMany sql rows])"
      have e: "batch_loop sql f s n w =
               batch_loop sql f (s + batch_size) n (extended (fst w) [ExecutedMany sql rows], g1)"
        using True br ok by (subst batch_loop.simps) (simp add: hi_def [symmetric])
      have "n - (s + batch_size) < n - s" using True by (simp add: batch_size_def)
      then have "only_at p (extended (fst w) [ExecutedMany sql rows], g1)
              (batch_loop sql f (s + batch_size) n
                 (extended (fst w) [ExecutedMany sql rows], g1))"
        by (rule less)
      then obtain evs where
        "fst (snd (batch_loop sql f s n w)) = extended (fst w) (ExecutedMany sql rows # evs)"
        "list_all p evs"
        using e by (auto simp: only_at_def)
      then show ?thesis using p
        by (intro only_atI [where evs = "ExecutedMany sql rows # evs"]) simp_all
    next
      assume "\<exists>e. executemany sql rows (fst w) = (Some e, fst w)"
      then obtain e where "executemany sql rows (fst w) = (Some e, fst w)" by blast
      then have "batch_loop sql f s n w = (Some e, (fst w, g1))"
        using True br by (subst batch_loop.simps) (simp add: hi_def [symmetric])
      then show ?thesis by (intro only_atI [where evs = "[]"]) simp_all
    qed
  qed
qed

subsection \<open>Row building\<close>

lemma collect_length [simp]: "length (fst (collect f xs g)) = length xs"
  by (induction xs arbitrary: g) (simp_all add: split_def Let_def)

lemma collect_append:
  "collect f (xs @ ys) g =
     (fst (collect f xs g) @ fst (collect f ys (snd (collect f xs g))),
      snd (collect f ys (snd (collect f xs g))))"
  by (induction xs arbitrary: g) (simp_all add: split_def Let_def)

lemma collect_nth:
  "list_all q (fst (collect f xs g))" if "\<And>i g. i \<in> set xs \<Longrightarrow> q (fst (f i g))"
  using that by (induction xs arbitrary: g) (simp_all add: split_def Let_def)

lemma build_rows_Nil [simp]: "build_rows f [] g = ([], g)"
  by (simp add: build_rows_def)

lemma build_rows_Cons:
  "build_rows f (x # xs) g =
     (fst (f x g) @ fst (build_rows f xs (snd (f x g))), snd (build_rows f xs (snd (f x g))))"
  by (simp add: build_rows_def split_def Let_def)

lemma build_rows_append:
  "build_rows f (xs @ ys) g =
     (fst (build_rows f xs g) @ fst (build_rows f ys (snd (build_rows f xs g))),
      snd (build_rows f ys (snd (build_rows f xs g))))"
  by (simp add: build_rows_def split_def Let_def collect_append)

lemma build_rows_length_le:
  assumes "\<And>i g. length (fst (f i g)) \<le> m"
  shows "length (fst (build_rows f xs g)) \<le> m * length xs"
proof (induction xs arbitrary: g)
  case Nil
  then show ?case by simp
next
  case (Cons x xs)
  have "length (fst (f x g)) \<le> m" by (rule assms)
  moreover have "length (fst (build_rows f xs (snd (f x g)))) \<le> m * length xs" by (rule Cons)
  ultimately show ?case by (simp add: build_rows_Cons)
qed

lemma build_rows_length_ge:
  assumes "\<And>i g. m \<le> length (fst (f i g))"
  shows "m * length xs \<le> length (fst (build_rows f xs g))"
proof (induction xs arbitrary: g)
  case Nil
  then show ?case by simp
next
  case (Cons x xs)
  have "m \<le> length (fst (f x g))" by (rule assms)
  moreover have "m * length xs \<le> length (fst (build_rows f xs (snd (f x g))))" by (rule Cons)
  ultimately show ?case by (simp add: build_rows_Cons)
qed

lemma build_rows_length_eq:
  assumes "\<And>i g. length (fst (f i g)) = 1"
  shows "length (fst (build_rows f xs g)) = length xs"
  using build_rows_length_le [of f 1 xs g] build_rows_length_ge [of 1 f xs g] assms
  by simp

lemma build_rows_all:
  assumes "\<And>i g. i \<in> set xs \<Longrightarrow> list_all q (fst (f i g))"
  shows "list_all q (fst (build_rows f xs g))"
  using assms by (induction xs arbitrary: g) (simp_all add: build_rows_Cons)

subsection \<open>The flushing loop\<close>

lemma flush_loop_only:
  assumes start: "I buf" "length buf < batch_size"
    and step: "\<And>rows x g. length rows < batch_size \<Longrightarrow> I rows \<Longrightarrow> I (rows @ fst (f x g))"
    and empty: "I []"
    and p: "\<And>rows. I rows \<Longrightarrow> p (ExecutedMany sql rows)"
  shows "\<exists>evs. fst (snd (snd (flush_loop sql f xs buf w))) = extended (fst w) evs \<and>
               list_all p evs \<and>
               (fst (flush_loop sql f xs buf w) = None \<longrightarrow>
                  I (fst (snd (flush_loop sql f xs buf w))) \<and>
                  length (fst (snd (flush_loop sql f xs buf w))) < batch_size)"
  using start
proof (induction xs arbitrary: buf w)
  case Nil
  then show ?case by (intro exI [where x = "[]"]) simp
next
  case (Cons x xs)
  define new where "new = fst (f x (snd w))"
  define g1 where "g1 = snd (f x (snd w))"
  define rows1 where "rows1 = buf @ new"
  have fx: "f x (snd w) = (new, g1)" by (simp add: new_def g1_def)
  have I1: "I rows1" unfolding rows1_def new_def using Cons.prems by (intro step)
  show ?case
  proof (cases "batch_size \<le> length rows1")
    case False
    then have e: "flush_loop sql f (x # xs) buf w = flush_loop sql f xs rows1 (fst w, g1)"
      using fx by (simp add: rows1_def Let_def)
    have "length rows1 < batch_size" using False by simp
    from Cons.IH [OF I1 this, of "(fst w, g1)"] show ?thesis
      unfolding e by simp
  next
    case True
    from executemany_cases [of sql rows1 "fst w"] show ?thesis
    proof
      assume ok: "executemany sql rows1 (fst w) = (None, extended (fst w) [ExecutedMany sql rows1])"
      define w1 where "w1 = (extended (fst w) [ExecutedMany sql rows1], g1)"
      have e: "flush_loop sql f (x # xs) buf w = flush_loop sql f xs [] w1"
        using fx True ok by (simp add: rows1_def Let_def w1_def)
      have "length ([] :: row list) < batch_size" by (simp add: batch_size_def)
      from Cons.IH [OF empty this, of w1]
      obtain evs where
        evs: "fst (snd (snd (flush_loop sql f xs [] w1))) =
              extended (fst w) (ExecutedMany sql rows1 # evs)"
          "list_all p evs"
          "fst (flush_loop sql f xs [] w1) = None \<longrightarrow>
             I (fst (snd (flush_loop sql f xs [] w1))) \<and>
             length (fst (snd (flush_loop sql f xs [] w1))) < batch_size"
        by (auto simp: w1_def)
      show ?thesis
        unfolding e using evs p [OF I1]
        by (intro exI [where x = "ExecutedMany sql rows1 # evs"]) simp
    next
      assume "\<exists>e. executemany sql rows1 (fst w) = (Some e, fst w)"
      then obtain e where "executemany sql rows1 (fst w) = (Some e, fst w)" by blast
      then have "flush_loop sql f (x # xs) buf w = (Some e, (rows1, (fst w, g1)))"
        using fx True by (simp add: rows1_def Let_def)
      then show ?thesis by (intro exI [where x = "[]"]) simp
    qed
  qed
qed

lemma only_flush_all:
  assumes step: "\<And>rows x g. length rows < batch_size \<Longrightarrow> I rows \<Longrightarrow> I (rows @ fst (f x g))"
    and empty: "I []"
    and p: "\<And>rows. I rows \<Longrightarrow> p (ExecutedMany sql rows)"
  shows "only_at p w (flush_all sql f xs w)"
proof -
  have "\<exists>evs. fst (snd (snd (flush_loop sql f xs [] w))) = extended (fst w) evs \<and>
               list_all p evs \<and>
               (fst (flush_loop sql f xs [] w) = None \<longrightarrow>
                  I (fst (snd (flush_loop sql f xs [] w))) \<and>
                  length (fst (snd (flush_loop sql f xs [] w))) < batch_size)"
  proof (rule flush_loop_only [where I = I])
    show "I []" by (rule empty)
    show "I []" by (rule empty)
    show "length ([] :: row list) < batch_size" by (simp add: batch_size_def)
    show "\<And>rows x g. length rows < batch_size \<Longrightarrow> I rows \<Longrightarrow> I (rows @ fst (f x g))"
      by (rule step)
    show "\<And>rows. I rows \<Longrightarrow> p (ExecutedMany sql rows)" by (rule p)
  qed
  then obtain evs where
    evs: "fst (snd (snd (flush_loop sql f xs [] w))) = extended (fst w) evs"
      "list_all p evs"
      "fst (flush_loop sql f xs [] w) = None \<longrightarrow> I (fst (snd (flush_loop sql f xs [] w)))"
    by auto
  obtain r rest db1 g1 where fl: "flush_loop sql f xs [] w = (r, (rest, (db1, g1)))"
    by (metis prod.collapse)
  show ?thesis
  proof (cases r)
    case (Some e)
    then have "flush_all sql f xs w = (Some e, (db1, g1))" using fl by (simp add: flush_all_def)
    then show ?thesis using evs fl by (intro only_atI [where evs = evs]) simp_all
  next
    case None
    show ?thesis
    proof (cases "rest = []")
      case True
      then have "flush_all sql f xs w = (None, (db1, g1))"
        using fl None by (simp add: flush_all_def)
      then show ?thesis using evs fl by (intro only_atI [where evs = evs]) simp_all
    next
      case False
      then have fa: "flush_all sql f xs w = on_db (executemany sql rest) (db1, g1)"
        using fl None by (simp add: flush_all_def)
      have "p (ExecutedMany sql rest)" using evs(3) fl None by (intro p) simp
      then have "only_at p (db1, g1) (on_db (executemany sql rest) (db1, g1))" by (rule only_executemany)
      then obtain e2 where "fst (snd (flush_all sql f xs w)) = extended db1 e2" "list_all p e2"
        using fa by (auto simp: only_at_def)
      then show ?thesis using evs fl by (intro only_atI [where evs = "evs @ e2"]) simp_all
    qed
  qed
qed

subsection \<open>One commit, at the end\<close>

lemma atomic_commit: "atomic_at w (on_db commit w)"
  using commit_cases [of "fst w"] unfolding atomic_at_def
proof
  assume "commit (fst w) = (None, extended (fst w) [Committed])"
  then show "\<exists>evs. fst (snd (on_db commit w)) = extended (fst w) evs \<and>
        (case fst (on_db commit w) of
           None \<Rightarrow> evs \<noteq> [] \<and> last evs = Committed \<and> Committed \<notin> set (butlast evs)
         | Some e \<Rightarrow> Committed \<notin> set evs)"
    by (intro exI [where x = "[Committed]"]) (simp add: on_db_def)
next
  assume "\<exists>e. commit (fst w) = (Some e, fst w)"
  then obtain e where "commit (fst w) = (Some e, fst w)" by blast
  then show "\<exists>evs. fst (snd (on_db commit w)) = extended (fst w) evs \<and>
        (case fst (on_db commit w) of
           None \<Rightarrow> evs \<noteq> [] \<and> last evs = Committed \<and> Committed \<notin> set (butlast evs)
         | Some e \<Rightarrow> Committed \<notin> set evs)"
    by (intro exI [where x = "[]"]) (simp add: on_db_def)
qed

lemma atomic_seq:
  assumes "only_at (\<lambda>e. e \<noteq> Committed) w (a w)" and "\<And>w1. atomic_at w1 (b w1)"
  shows "atomic_at w (seq a b w)"
proof -
  obtain e1 where 1: "fst (snd (a w)) = extended (fst w) e1" "list_all (\<lambda>e. e \<noteq> Committed) e1"
    using assms(1) by (auto simp: only_at_def)
  then have n1: "Committed \<notin> set e1" by (auto simp: list_all_iff)
  show ?thesis
  proof (cases "fst (a w)")
    case (Some e)
    then have "seq a b w = a w" by (cases "a w") (simp add: seq_def)
    then show ?thesis using 1 n1 Some unfolding atomic_at_def
      by (intro exI [where x = e1]) simp
  next
    case None
    then have s: "seq a b w = b (snd (a w))" by (cases "a w") (simp add: seq_def)
    obtain e2 where 2: "fst (snd (b (snd (a w)))) = extended (fst (snd (a w))) e2"
      "case fst (b (snd (a w))) of
         None \<Rightarrow> e2 \<noteq> [] \<and> last e2 = Committed \<and> Committed \<notin> set (butlast e2)
       | Some e \<Rightarrow> Committed \<notin> set e2"
      using assms(2) [of "snd (a w)"] unfolding atomic_at_def by blast
    show ?thesis unfolding atomic_at_def s
      using 1 2 n1
      by (intro exI [where x = "e1 @ e2"]) (auto split: option.splits simp: butlast_append)
  qed
qed

subsection \<open>Rows per iteration\<close>

lemma rows_01_length: "1 \<le> length (fst (rows_01 i g)) \<and> length (fst (rows_01 i g)) \<le> 2"
  by (simp add: rows_01_def Let_def split: prod.split)

lemma rows_02_length: "length (fst (rows_02 i g)) = 1"
  by (simp add: rows_02_def Let_def split: prod.split)

lemma rows_03_length: "length (fst (rows_03 i g)) = 1"
  by (simp add: rows_03_def Let_def split: prod.split)

lemma rows_04_length: "length (fst (rows_04 i g)) = 1"
  by (simp add: rows_04_def Let_def split: prod.split)

lemma rows_06_length: "length (fst (rows_06 i g)) = 1"
  by (simp add: rows_06_def Let_def split: prod.split)

lemma rows_07_length: "length (fst (rows_07 i g)) = 1"
  by (simp add: rows_07_def Let_def split: prod.split)

lemma rows_08_length: "length (fst (rows_08 i g)) = 1"
  by (simp add: rows_08_def Let_def split: prod.split)

lemma rows_09_length: "length (fst (rows_09 i g)) = 1"
  by (simp add: rows_09_def Let_def split: prod.split)

lemma rows_12_length: "length (fst (rows_12 i g)) = 1"
  by (simp add: rows_12_def Let_def split: prod.split)

lemma rows_14_length: "length (fst (rows_14 i g)) = 1"
  by (simp add: rows_14_def Let_def split: prod.split)

lemma rows_15_length: "length (fst (rows_15 i g)) = 1"
  by (simp add: rows_15_def Let_def split: prod.split)

lemma rows_10_length: "length (fst (rows_10 now i g)) = 1"
  by (simp add: rows_10_def Let_def split: prod.split)

lemma rows_11_length: "length (fst (rows_11 n i g)) = 1"
  by (simp add: rows_11_def Let_def split: prod.split)

lemma rows_13_length: "length (fst (rows_13 cs ps i g)) = 1"
  by (simp add: rows_13_def Let_def split: prod.split)

lemma randint_range:
  assumes "a \<le> b"
  shows "a \<le> fst (randint a b g) \<and> fst (randint a b g) \<le> b"
proof -
  define n where "n = nat (b - a + 1)"
  have "0 < n" using assms by (simp add: n_def)
  then have "rtape g (rpos g) mod n < n" by simp
  then have "int (rtape g (rpos g) mod n) < int n" by simp
  moreover have "int n = b - a + 1" using assms by (simp add: n_def)
  ultimately have "int (rtape g (rpos g) mod n) \<le> b - a" by linarith
  moreover have "fst (randint a b g) = a + int (rtape g (rpos g) mod n)"
    by (simp add: randint_def randbelow_def next_raw_def n_def)
  ultimately show ?thesis by simp
qed

lemma rows_05_length: "1 \<le> length (fst (rows_05 u g)) \<and> length (fst (rows_05 u g)) \<le> 4"
proof -
  define g1 where "g1 = snd (random_random g)"
  have "fst (randint 1 3 g1) \<le> 3" using randint_range [of 1 3 g1] by simp
  then have "nat (fst (randint 1 3 g1)) \<le> 3" by simp
  then show ?thesis
    by (simp add: rows_05_def Let_def split_def g1_def)
qed

subsection \<open>Bulk sizes and commits, generator by generator\<close>

lemma batch_bound:
  assumes "\<And>i g. length (fst (f i g)) \<le> m" and "hi - lo \<le> batch_size"
  shows "length (fst (build_rows f [lo ..< hi] g)) \<le> m * batch_size"
proof -
  have "length (fst (build_rows f [lo ..< hi] g)) \<le> m * length [lo ..< hi]"
    using assms(1) by (rule build_rows_length_le)
  also have "\<dots> \<le> m * batch_size" using assms(2) by simp
  finally show ?thesis .
qed

lemma batch_bound_1:
  assumes "\<And>i g. length (fst (f i g)) = 1" and "hi - lo \<le> batch_size"
  shows "length (fst (build_rows f [lo ..< hi] g)) \<le> batch_size"
  using batch_bound [of f 1 hi lo g] assms by simp

lemma seed_sizes: "100 \<le> batch_size" "1000 \<le> batch_size"
  by (simp_all add: batch_size_def)

lemma only_at_fst: "only_at p (fst w, g) r \<Longrightarrow> only_at p w r"
  by (simp add: only_at_def)

lemma atomic_at_fst: "atomic_at (fst w, g) r \<Longrightarrow> atomic_at w r"
  by (simp add: atomic_at_def)

lemma simple_only:
  assumes "p (Executed c)" and "p Committed"
    and "\<And>lo hi g. hi - lo \<le> batch_size \<Longrightarrow>
           p (ExecutedMany sql (fst (build_rows f [lo ..< hi] g)))"
  shows "only_at p w (seq (on_db (execute c)) (seq (batch_loop sql f 0 n) (on_db commit)) w)"
  by (intro only_seq only_execute only_batch_loop only_commit assms)

lemma simple_atomic:
  "atomic_at w (seq (on_db (execute c)) (seq (batch_loop sql f 0 n) (on_db commit)) w)"
  by (intro atomic_seq only_execute only_batch_loop atomic_commit) simp_all

lemma only_seed_products:
  assumes "\<And>rows. length rows = 100 \<Longrightarrow> p (ExecutedMany (insert_products (fst w)) rows)"
  shows "only_at p w (seed_products w)"
  unfolding seed_products_def split_def Let_def
  by (rule only_at_fst, rule only_executemany, rule assms) simp

lemma only_seed_accounts:
  assumes "\<And>rows. length rows = 1000 \<Longrightarrow> p (ExecutedMany (insert_accounts (fst w)) rows)"
  shows "only_at p w (seed_accounts w)"
  unfolding seed_accounts_def split_def Let_def
  by (rule only_at_fst, rule only_executemany, rule assms) simp

lemma only_insert_users:
  assumes "\<And>rows. length rows \<le> batch_size + 3 \<Longrightarrow> p (ExecutedMany (insert_05 (fst w)) rows)"
  shows "only_at p w (insert_users n w)"
  unfolding insert_users_def split_def Let_def
proof (rule only_at_fst, rule only_flush_all [where I = "\<lambda>rows. length rows \<le> batch_size + 3"])
  fix rows :: "row list" and x g
  assume "length rows < batch_size"
  then show "length (rows @ fst (rows_05 x g)) \<le> batch_size + 3"
    using rows_05_length [of x g] by simp
qed (simp_all add: assms)

lemma only_insert_god_rows:
  assumes "\<And>rows. length rows \<le> batch_size \<Longrightarrow> p (ExecutedMany (insert_13 (fst w)) rows)"
  shows "only_at p w (insert_god_rows n w)"
  unfolding insert_god_rows_def split_def Let_def
proof (rule only_at_fst, rule only_flush_all [where I = "\<lambda>rows. length rows \<le> batch_size"])
  fix rows :: "row list" and cs ps x g
  assume "length rows < batch_size"
  then show "length (rows @ fst (rows_13 cs ps x g)) \<le> batch_size"
    by (simp add: rows_13_length)
qed (simp_all add: assms)

lemma problem_01_bulk: "only_at (\<lambda>e. bulk_size e \<le> 2 * batch_size) w (problem_01_no_primary_key n w)"
  unfolding problem_01_no_primary_key_def Let_def
  by (rule simple_only) (simp_all add: batch_bound [where m = 2] rows_01_length)

lemma problem_01_atomic: "atomic_at w (problem_01_no_primary_key n w)"
  unfolding problem_01_no_primary_key_def Let_def by (rule simple_atomic)

lemma problem_03_bulk: "only_at (\<lambda>e. bulk_size e \<le> batch_size) w (problem_03_wrong_data_types n w)"
  unfolding problem_03_wrong_data_types_def Let_def
  by (rule simple_only) (auto intro!: batch_bound_1 simp: rows_03_length)

lemma problem_03_atomic: "atomic_at w (problem_03_wrong_data_types n w)"
  unfolding problem_03_wrong_data_types_def Let_def by (rule simple_atomic)

lemma problem_04_bulk: "only_at (\<lambda>e. bulk_size e \<le> batch_size) w (problem_04_missing_not_null n w)"
  unfolding problem_04_missing_not_null_def Let_def
  by (rule simple_only) (auto intro!: batch_bound_1 simp: rows_04_length)

lemma problem_04_atomic: "atomic_at w (problem_04_missing_not_null n w)"
  unfolding problem_04_missing_not_null_def Let_def by (rule simple_atomic)

lemma problem_06_bulk: "only_at (\<lambda>e. bulk_size e \<le> batch_size) w (problem_06_inconsistent_dates n w)"
  unfolding problem_06_inconsistent_dates_def Let_def
  by (rule simple_only) (auto intro!: batch_bound_1 simp: rows_06_length)

lemma problem_06_atomic: "atomic_at w (problem_06_inconsistent_dates n w)"
  unfolding problem_06_inconsistent_dates_def Let_def by (rule simple_atomic)

lemma problem_07_bulk: "only_at (\<lambda>e. bulk_size e \<le> batch_size) w (problem_07_inconsistent_casing n w)"
  unfolding problem_07_inconsistent_casing_def Let_def
  by (rule simple_only) (auto intro!: batch_bound_1 simp: rows_07_length)

lemma problem_07_atomic: "atomic_at w (problem_07_inconsistent_casing n w)"
  unfolding problem_07_inconsistent_casing_def Let_def by (rule simple_atomic)

lemma problem_08_bulk: "only_at (\<lambda>e. bulk_size e \<le> batch_size) w (problem_08_whitespace_issues n w)"
  unfolding problem_08_whitespace_issues_def Let_def
  by (rule simple_only) (auto intro!: batch_bound_1 simp: rows_08_length)

lemma problem_08_atomic: "atomic_at w (problem_08_whitespace_issues n w)"
  unfolding problem_08_whitespace_issues_def Let_def by (rule simple_atomic)

lemma problem_09_bulk: "only_at (\<lambda>e. bulk_size e \<le> batch_size) w (problem_09_invalid_emails n w)"
  unfolding problem_09_invalid_emails_def Let_def
  by (rule simple_only) (auto intro!: batch_bound_1 simp: rows_09_length)

lemma problem_09_atomic: "atomic_at w (problem_09_invalid_emails n w)"
  unfolding problem_09_invalid_emails_def Let_def by (rule simple_atomic)

lemma problem_10_bulk: "only_at (\<lambda>e. bulk_size e \<le> batch_size) w (problem_10_out_of_range n w)"
  unfolding problem_10_out_of_range_def Let_def
  by (rule simple_only) (auto intro!: batch_bound_1 simp: rows_10_length)

lemma problem_10_atomic: "atomic_at w (problem_10_out_of_range n w)"
  unfolding problem_10_out_of_range_def Let_def by (rule simple_atomic)

lemma problem_11_bulk: "only_at (\<lambda>e. bulk_size e \<le> batch_size) w (problem_11_csv_in_columns n w)"
  unfolding problem_11_csv_in_columns_def Let_def
  by (rule simple_only) (auto intro!: batch_bound_1 simp: rows_11_length)

lemma problem_11_atomic: "atomic_at w (problem_11_csv_in_columns n w)"
  unfolding problem_11_csv_in_columns_def Let_def by (rule simple_atomic)

lemma problem_12_bulk: "only_at (\<lambda>e. bulk_size e \<le> batch_size) w (problem_12_encoding_issues n w)"
  unfolding problem_12_encoding_issues_def Let_def
  by (rule simple_only) (auto intro!: batch_bound_1 simp: rows_12_length)

lemma problem_12_atomic: "atomic_at w (problem_12_encoding_issues n w)"
  unfolding problem_12_encoding_issues_def Let_def by (rule simple_atomic)

lemma problem_14_bulk: "only_at (\<lambda>e. bulk_size e \<le> batch_size) w (problem_14_missing_indexes n w)"
  unfolding problem_14_missing_indexes_def Let_def
  by (rule simple_only) (auto intro!: batch_bound_1 simp: rows_14_length)

lemma problem_14_atomic: "atomic_at w (problem_14_missing_indexes n w)"
  unfolding problem_14_missing_indexes_def Let_def by (rule simple_atomic)

lemma problem_02_bulk:
  "only_at (\<lambda>e. bulk_size e \<le> batch_size) w (problem_02_missing_foreign_keys n w)"
  unfolding problem_02_missing_foreign_keys_def Let_def
  by (intro only_seq only_execute only_seed_products only_batch_loop only_commit)
     (auto intro!: batch_bound_1 simp: rows_02_length seed_sizes)

lemma problem_02_atomic: "atomic_at w (problem_02_missing_foreign_keys n w)"
  unfolding problem_02_missing_foreign_keys_def Let_def
  by (intro atomic_seq only_execute only_seed_products only_batch_loop atomic_commit) simp_all

lemma problem_05_bulk:
  "only_at (\<lambda>e. bulk_size e \<le> batch_size + 3) w (problem_05_duplicate_records n w)"
  unfolding problem_05_duplicate_records_def Let_def
  by (intro only_seq only_execute only_insert_users only_commit) simp_all

lemma problem_05_atomic: "atomic_at w (problem_05_duplicate_records n w)"
  unfolding problem_05_duplicate_records_def Let_def
  by (intro atomic_seq only_execute only_insert_users atomic_commit) simp_all

lemma problem_13_bulk:
  "only_at (\<lambda>e. bulk_size e \<le> batch_size) w (problem_13_god_table n w)"
  unfolding problem_13_god_table_def Let_def
  by (intro only_seq only_execute only_insert_god_rows only_commit) simp_all

lemma problem_13_atomic: "atomic_at w (problem_13_god_table n w)"
  unfolding problem_13_god_table_def Let_def
  by (intro atomic_seq only_execute only_insert_god_rows atomic_commit) simp_all

lemma problem_15_bulk:
  "only_at (\<lambda>e. bulk_size e \<le> batch_size) w (problem_15_type_coercion n w)"
  unfolding problem_15_type_coercion_def Let_def
  by (intro only_seq only_execute only_seed_accounts only_batch_loop only_commit)
     (auto intro!: batch_bound_1 simp: rows_15_length seed_sizes)

lemma problem_15_atomic: "atomic_at w (problem_15_type_coercion n w)"
  unfolding problem_15_type_coercion_def Let_def
  by (intro atomic_seq only_execute only_seed_accounts only_batch_loop atomic_commit) simp_all

subsection \<open>Atomicity of a generator\<close>

lemma committed_no_commit:
  "Committed \<notin> set evs \<Longrightarrow> committed (t @ evs) = committed t"
  by (simp add: committed_def dropWhile_append)

lemma committed_last_commit:
  "committed (t @ [Committed]) = filter is_insert t"
  by (simp add: committed_def)

lemma atomic_all_or_nothing:
  assumes "atomic_at w r"
  shows "all_or_nothing w r"
proof -
  obtain evs where evs: "fst (snd r) = extended (fst w) evs"
    and c: "case fst r of
              None \<Rightarrow> evs \<noteq> [] \<and> last evs = Committed \<and> Committed \<notin> set (butlast evs)
            | Some e \<Rightarrow> Committed \<notin> set evs"
    using assms unfolding atomic_at_def by blast
  show ?thesis
  proof (cases "fst r")
    case (Some e)
    then have "Committed \<notin> set evs" using c by simp
    then show ?thesis using Some evs by (simp add: all_or_nothing_def committed_no_commit)
  next
    case None
    then have "evs = butlast evs @ [Committed]" using c by (metis append_butlast_last_id option.simps(4))
    then have "trace (fst (snd r)) = (trace (fst w) @ butlast evs) @ [Committed]"
      using evs by (metis append.assoc extend_fields(6))
    then have "committed (trace (fst (snd r))) = filter is_insert (trace (fst w) @ butlast evs)"
      using committed_last_commit by metis
    moreover have "filter is_insert (trace (fst (snd r))) = filter is_insert (trace (fst w) @ butlast evs)"
      using \<open>trace (fst (snd r)) = (trace (fst w) @ butlast evs) @ [Committed]\<close> by simp
    ultimately show ?thesis using None by (simp add: all_or_nothing_def)
  qed
qed

subsection \<open>Runs on a ready adapter\<close>

lemma seq_None: "a w = (None, w1) \<Longrightarrow> seq a b w = b w1"
  by (simp add: seq_def)

lemma on_db_execute_ready:
  "ready (fst w) \<Longrightarrow> on_db (execute sql) w = (None, (extended (fst w) [Executed sql], snd w))"
  by (simp add: on_db_def execute_ready)

lemma on_db_executemany_ready:
  "ready (fst w) \<Longrightarrow>
     on_db (executemany sql rows) w = (None, (extended (fst w) [ExecutedMany sql rows], snd w))"
  by (simp add: on_db_def executemany_ready)

lemma on_db_commit_ready:
  "ready (fst w) \<Longrightarrow> on_db commit w = (None, (extended (fst w) [Committed], snd w))"
  by (simp add: on_db_def commit_ready)

lemma upt_split: "s \<le> m \<Longrightarrow> m \<le> n \<Longrightarrow> [s ..< n] = [s ..< m] @ [m ..< n]"
  by (metis le_Suc_ex upt_add_eq_append)

lemma id_batches_0 [simp]: "id_batches 0 = []"
  by (simp add: id_batches_def)

lemma id_batches_step:
  assumes "0 < k"
  shows "id_batches k = min batch_size k # id_batches (k - batch_size)"
proof (cases "k < batch_size")
  case True
  then show ?thesis using assms by (simp add: id_batches_def)
next
  case False
  then have "k div batch_size = Suc ((k - batch_size) div batch_size)"
    by (simp add: le_div_geq batch_size_def)
  moreover have "k mod batch_size = (k - batch_size) mod batch_size"
    using False by (simp add: le_mod_geq)
  ultimately show ?thesis using False by (simp add: id_batches_def min_def)
qed

text \<open>On a ready adapter the batch loop returns; batch by batch it sends the rows built
  for the next range of ids.\<close>

lemma batch_loop_ready:
  assumes "ready (fst w)"
  shows "\<exists>bs. batch_loop sql f s n w =
                (None, (extended (fst w) (map (ExecutedMany sql) bs),
                        snd (build_rows f [s ..< n] (snd w)))) \<and>
              concat bs = fst (build_rows f [s ..< n] (snd w)) \<and>
              list_all2 (\<lambda>b k. \<exists>i g. b = fst (build_rows f [i ..< i + k] g)) bs
                (id_batches (n - s))"
  using assms
proof (induction "n - s" arbitrary: s w rule: less_induct)
  case (less s w)
  show ?case
  proof (cases "s < n")
    case False
    then have "batch_loop sql f s n w = (None, w)" by (simp add: batch_loop.simps)
    then show ?thesis using False by (intro exI [where x = "[]"]) simp
  next
    case True
    define hi where "hi = min (s + batch_size) n"
    define rows where "rows = fst (build_rows f [s ..< hi] (snd w))"
    define g1 where "g1 = snd (build_rows f [s ..< hi] (snd w))"
    define w1 where "w1 = (extended (fst w) [ExecutedMany sql rows], g1)"
    have br: "build_rows f [s ..< hi] (snd w) = (rows, g1)" by (simp add: rows_def g1_def)
    have ok: "executemany sql rows (fst w) = (None, extended (fst w) [ExecutedMany sql rows])"
      using less.prems by (rule executemany_ready)
    have e: "batch_loop sql f s n w = batch_loop sql f (s + batch_size) n w1"
      using True br ok by (subst batch_loop.simps) (simp add: hi_def [symmetric] w1_def)
    have "n - (s + batch_size) < n - s" using True by (simp add: batch_size_def)
    moreover have "ready (fst w1)" using less.prems by (simp add: w1_def)
    ultimately obtain bs where
      bs: "batch_loop sql f (s + batch_size) n w1 =
             (None, (extended (fst w1) (map (ExecutedMany sql) bs),
                     snd (build_rows f [s + batch_size ..< n] (snd w1))))"
          "concat bs = fst (build_rows f [s + batch_size ..< n] (snd w1))"
          "list_all2 (\<lambda>b k. \<exists>i g. b = fst (build_rows f [i ..< i + k] g)) bs
             (id_batches (n - (s + batch_size)))"
      using less.hyps by blast
    have tl: "[s + batch_size ..< n] = [hi ..< n]" by (simp add: hi_def min_def)
    have "[s ..< n] = [s ..< hi] @ [hi ..< n]"
      using True by (intro upt_split) (simp_all add: hi_def)
    then have sp: "build_rows f [s ..< n] (snd w) =
                   (rows @ fst (build_rows f [hi ..< n] g1), snd (build_rows f [hi ..< n] g1))"
      by (simp add: build_rows_append rows_def g1_def)
    have hi: "hi = s + min batch_size (n - s)" using True by (simp add: hi_def)
    have "\<exists>i g. rows = fst (build_rows f [i ..< i + min batch_size (n - s)] g)"
      unfolding rows_def hi by blast
    moreover have "id_batches (n - s) =
                   min batch_size (n - s) # id_batches (n - (s + batch_size))"
      using True id_batches_step [of "n - s"] by simp
    ultimately have l: "list_all2 (\<lambda>b k. \<exists>i g. b = fst (build_rows f [i ..< i + k] g))
                          (rows # bs) (id_batches (n - s))"
      using bs(3) by simp
    show ?thesis
      unfolding e using bs(1,2) tl sp l
      by (intro exI [where x = "rows # bs"]) (simp add: w1_def)
  qed
qed

text \<open>
  On a ready adapter the flushing loop returns.  A buffer it flushes holds
  \<open>batch_size\<close> rows or more, and fewer than \<open>batch_size\<close> plus the rows of one
  iteration; the buffer it leaves holds fewer than \<open>batch_size\<close> rows.
\<close>

lemma flush_loop_ready:
  assumes "ready (fst w)"
  shows "\<exists>bs rest. flush_loop sql f xs buf w =
                (None, (rest, (extended (fst w) (map (ExecutedMany sql) bs),
                        snd (build_rows f xs (snd w))))) \<and>
              concat bs @ rest = buf @ fst (build_rows f xs (snd w)) \<and>
              (length buf < batch_size \<longrightarrow>
                 length rest < batch_size \<and>
                 list_all (\<lambda>b. batch_size \<le> length b \<and>
                             (\<exists>x g. length b < batch_size + length (fst (f x g)))) bs)"
  using assms
proof (induction xs arbitrary: buf w)
  case Nil
  then show ?case by (intro exI [where x = "[]"] exI [where x = buf]) simp
next
  case (Cons x xs)
  define new where "new = fst (f x (snd w))"
  define g1 where "g1 = snd (f x (snd w))"
  define rows1 where "rows1 = buf @ new"
  have fx: "f x (snd w) = (new, g1)" by (simp add: new_def g1_def)
  have sp: "build_rows f (x # xs) (snd w) =
            (new @ fst (build_rows f xs g1), snd (build_rows f xs g1))"
    by (simp add: build_rows_Cons new_def g1_def)
  show ?case
  proof (cases "batch_size \<le> length rows1")
    case False
    then have e: "flush_loop sql f (x # xs) buf w = flush_loop sql f xs rows1 (fst w, g1)"
      using fx by (simp add: rows1_def Let_def)
    have "ready (fst (fst w, g1))" using Cons.prems by simp
    from Cons.IH [OF this, of rows1] obtain bs rest where
      bs: "flush_loop sql f xs rows1 (fst w, g1) =
             (None, (rest, (extended (fst w) (map (ExecutedMany sql) bs),
                     snd (build_rows f xs g1))))"
          "concat bs @ rest = rows1 @ fst (build_rows f xs g1)"
          "length rest < batch_size \<and>
           list_all (\<lambda>b. batch_size \<le> length b \<and>
                       (\<exists>x g. length b < batch_size + length (fst (f x g)))) bs"
      using False by auto
    show ?thesis
      unfolding e sp using bs
      by (intro exI [where x = bs] exI [where x = rest]) (simp add: rows1_def)
  next
    case True
    define w1 where "w1 = (extended (fst w) [ExecutedMany sql rows1], g1)"
    have ok: "executemany sql rows1 (fst w) = (None, extended (fst w) [ExecutedMany sql rows1])"
      using Cons.prems by (rule executemany_ready)
    have e: "flush_loop sql f (x # xs) buf w = flush_loop sql f xs [] w1"
      using fx True ok by (simp add: rows1_def Let_def w1_def)
    have "ready (fst w1)" using Cons.prems by (simp add: w1_def)
    from Cons.IH [OF this, of "[]"] obtain bs rest where
      bs: "flush_loop sql f xs [] w1 =
             (None, (rest, (extended (fst w1) (map (ExecutedMany sql) bs),
                     snd (build_rows f xs (snd w1)))))"
          "concat bs @ rest = fst (build_rows f xs (snd w1))"
          "length rest < batch_size \<and>
           list_all (\<lambda>b. batch_size \<le> length b \<and>
                       (\<exists>x g. length b < batch_size + length (fst (f x g)))) bs"
      by (auto simp: batch_size_def)
    have "length buf < batch_size \<longrightarrow>
            (\<exists>x g. length rows1 < batch_size + length (fst (f x g)))"
    proof
      assume "length buf < batch_size"
      then have "length rows1 < batch_size + length (fst (f x (snd w)))"
        by (simp add: rows1_def new_def)
      then show "\<exists>x g. length rows1 < batch_size + length (fst (f x g))" by blast
    qed
    then show ?thesis
      unfolding e sp using bs True
      by (intro exI [where x = "rows1 # bs"] exI [where x = rest]) (simp add: w1_def rows1_def)
  qed
qed

text \<open>With the final flush: every bulk insert but the last holds \<open>batch_size\<close> rows or
  more, and none is empty.\<close>

lemma flush_all_ready:
  assumes "ready (fst w)"
  shows "\<exists>bs. flush_all sql f xs w =
                (None, (extended (fst w) (map (ExecutedMany sql) bs),
                        snd (build_rows f xs (snd w)))) \<and>
              concat bs = fst (build_rows f xs (snd w)) \<and>
              list_all (\<lambda>b. batch_size \<le> length b) (butlast bs) \<and>
              list_all (\<lambda>b. b \<noteq> [] \<and>
                          (\<exists>x g. length b < batch_size + length (fst (f x g)))) bs"
proof -
  from flush_loop_ready [OF assms, of sql f xs "[]"] obtain bs rest where
    bs: "flush_loop sql f xs [] w =
           (None, (rest, (extended (fst w) (map (ExecutedMany sql) bs),
                   snd (build_rows f xs (snd w)))))"
        "concat bs @ rest = fst (build_rows f xs (snd w))"
        "length rest < batch_size"
        "list_all (\<lambda>b. batch_size \<le> length b \<and>
                     (\<exists>x g. length b < batch_size + length (fst (f x g)))) bs"
    by (auto simp: batch_size_def)
  have full: "list_all (\<lambda>b. batch_size \<le> length b) bs"
    using bs(4) by (simp add: list_all_iff)
  have ne: "list_all (\<lambda>b. b \<noteq> [] \<and>
                        (\<exists>x g. length b < batch_size + length (fst (f x g)))) bs"
    using bs(4) by (auto simp: list_all_iff batch_size_def)
  show ?thesis
  proof (cases "rest = []")
    case True
    have "list_all (\<lambda>b. batch_size \<le> length b) (butlast bs)"
      using full by (auto simp: list_all_iff dest: in_set_butlastD)
    then show ?thesis
      using bs(1,2) ne True by (intro exI [where x = bs]) (simp add: flush_all_def)
  next
    case False
    have "ready (extended (fst w) (map (ExecutedMany sql) bs))" using assms by simp
    moreover have "\<exists>x g. length rest < batch_size + length (fst (f x g))"
      using bs(3) by (intro exI [where x = undefined]) simp
    ultimately show ?thesis using bs(1,2) full ne False
      by (intro exI [where x = "bs @ [rest]"])
         (simp add: flush_all_def on_db_executemany_ready)
  qed
qed

lemma simple_ready:
  assumes "ready (fst w)"
  shows "\<exists>bs. seq (on_db (execute c)) (seq (batch_loop sql f 0 n) (on_db commit)) w =
                (None, (extended (fst w) (Executed c # map (ExecutedMany sql) bs @ [Committed]),
                        snd (build_rows f [0 ..< n] (snd w)))) \<and>
              concat bs = fst (build_rows f [0 ..< n] (snd w)) \<and>
              list_all2 (\<lambda>b k. \<exists>i g. b = fst (build_rows f [i ..< i + k] g)) bs (id_batches n)"
proof -
  define w1 where "w1 = (extended (fst w) [Executed c], snd w)"
  have 1: "on_db (execute c) w = (None, w1)"
    using assms by (simp add: on_db_execute_ready w1_def)
  have r1: "ready (fst w1)" using assms by (simp add: w1_def)
  from batch_loop_ready [OF r1, of sql f 0 n] obtain bs where
    bs: "batch_loop sql f 0 n w1 =
           (None, (extended (fst w1) (map (ExecutedMany sql) bs),
                   snd (build_rows f [0 ..< n] (snd w1))))"
        "concat bs = fst (build_rows f [0 ..< n] (snd w1))"
        "list_all2 (\<lambda>b k. \<exists>i g. b = fst (build_rows f [i ..< i + k] g)) bs (id_batches n)"
    by auto
  define w2 where "w2 = (extended (fst w1) (map (ExecutedMany sql) bs),
                        snd (build_rows f [0 ..< n] (snd w1)))"
  have r2: "ready (fst w2)" using r1 by (simp add: w2_def)
  have "seq (on_db (execute c)) (seq (batch_loop sql f 0 n) (on_db commit)) w =
        seq (batch_loop sql f 0 n) (on_db commit) w1"
    using 1 by (simp add: seq_def)
  also have "\<dots> = on_db commit w2" using bs(1) by (simp add: seq_def w2_def)
  also have "\<dots> = (None, (extended (fst w2) [Committed], snd w2))"
    using r2 by (rule on_db_commit_ready)
  finally show ?thesis
    using bs(2,3) by (intro exI [where x = bs]) (simp add: w1_def w2_def)
qed

subsection \<open>What a generator inserts on a ready adapter\<close>

lemma new_events_extended:
  "fst (snd r) = extended (fst w) evs \<Longrightarrow> new_events w r = evs"
  by (simp add: new_events_def)

lemma rows_into_inserts:
  "rows_into t (map (ExecutedMany (InsertInto t cols)) bs @ evs) = concat bs @ rows_into t evs"
  by (induction bs) simp_all

lemma rows_into_other:
  "t' \<noteq> t \<Longrightarrow> rows_into t (map (ExecutedMany (InsertInto t' cols)) bs @ evs) = rows_into t evs"
  by (induction bs) simp_all

lemma created_inserts:
  "created (map (ExecutedMany sql) bs @ evs) = created evs"
  by (induction bs) simp_all

lemma simple_rows:
  assumes "ready (fst w)"
    and "r = seq (on_db (execute (CreateTable t)))
               (seq (batch_loop (InsertInto t cols) f 0 n) (on_db commit)) w"
  shows "fst r = None \<and>
         rows_into t (new_events w r) = fst (build_rows f [0 ..< n] (snd w)) \<and>
         created (new_events w r) = [t]"
proof -
  from simple_ready [OF assms(1), of "CreateTable t" "InsertInto t cols" f n] obtain bs where
    bs: "r = (None, (extended (fst w)
                 (Executed (CreateTable t) # map (ExecutedMany (InsertInto t cols)) bs @ [Committed]),
               snd (build_rows f [0 ..< n] (snd w))))"
        "concat bs = fst (build_rows f [0 ..< n] (snd w))"
    unfolding assms(2) by blast
  have "new_events w r =
        Executed (CreateTable t) # map (ExecutedMany (InsertInto t cols)) bs @ [Committed]"
    by (rule new_events_extended) (simp add: bs(1))
  then show ?thesis using bs by (simp add: rows_into_inserts created_inserts)
qed

lemma problem_01_rows:
  assumes "ready (fst w)"
  shows "fst (problem_01_no_primary_key n w) = None \<and>
         rows_into (table (fst w) ''customers_no_pk'') (new_events w (problem_01_no_primary_key n w)) =
           fst (build_rows rows_01 [0 ..< n] (snd w)) \<and>
         created (new_events w (problem_01_no_primary_key n w)) = [table (fst w) ''customers_no_pk'']"
  using assms by (rule simple_rows) (simp add: problem_01_no_primary_key_def insert_01_def Let_def)

lemma problem_03_rows:
  assumes "ready (fst w)"
  shows "fst (problem_03_wrong_data_types n w) = None \<and>
         rows_into (table (fst w) ''transactions_bad_types'') (new_events w (problem_03_wrong_data_types n w)) =
           fst (build_rows rows_03 [0 ..< n] (snd w)) \<and>
         created (new_events w (problem_03_wrong_data_types n w)) = [table (fst w) ''transactions_bad_types'']"
  using assms by (rule simple_rows) (simp add: problem_03_wrong_data_types_def insert_03_def Let_def)

lemma problem_04_rows:
  assumes "ready (fst w)"
  shows "fst (problem_04_missing_not_null n w) = None \<and>
         rows_into (table (fst w) ''employees_nulls'') (new_events w (problem_04_missing_not_null n w)) =
           fst (build_rows rows_04 [0 ..< n] (snd w)) \<and>
         created (new_events w (problem_04_missing_not_null n w)) = [table (fst w) ''employees_nulls'']"
  using assms by (rule simple_rows) (simp add: problem_04_missing_not_null_def insert_04_def Let_def)

lemma problem_06_rows:
  assumes "ready (fst w)"
  shows "fst (problem_06_inconsistent_dates n w) = None \<and>
         rows_into (table (fst w) ''events_bad_dates'') (new_events w (problem_06_inconsistent_dates n w)) =
           fst (build_rows rows_06 [0 ..< n] (snd w)) \<and>
         created (new_events w (problem_06_inconsistent_dates n w)) = [table (fst w) ''events_bad_dates'']"
  using assms by (rule simple_rows) (simp add: problem_06_inconsistent_dates_def insert_06_def Let_def)

lemma problem_07_rows:
  assumes "ready (fst w)"
  shows "fst (problem_07_inconsistent_casing n w) = None \<and>
         rows_into (table (fst w) ''contacts_bad_casing'') (new_events w (problem_07_inconsistent_casing n w)) =
           fst (build_rows rows_07 [0 ..< n] (snd w)) \<and>
         created (new_events w (problem_07_inconsistent_casing n w)) = [table (fst w) ''contacts_bad_casing'']"
  using assms by (rule simple_rows) (simp add: problem_07_inconsistent_casing_def insert_07_def Let_def)

lemma problem_08_rows:
  assumes "ready (fst w)"
  shows "fst (problem_08_whitespace_issues n w) = None \<and>
         rows_into (table (fst w) ''inventory_whitespace'') (new_events w (problem_08_whitespace_issues n w)) =
           fst (build_rows rows_08 [0 ..< n] (snd w)) \<and>
         created (new_events w (problem_08_whitespace_issues n w)) = [table (fst w) ''inventory_whitespace'']"
  using assms by (rule simple_rows) (simp add: problem_08_whitespace_issues_def insert_08_def Let_def)

lemma problem_09_rows:
  assumes "ready (fst w)"
  shows "fst (problem_09_invalid_emails n w) = None \<and>
         rows_into (table (fst w) ''subscribers_bad_emails'') (new_events w (problem_09_invalid_emails n w)) =
           fst (build_rows rows_09 [0 ..< n] (snd w)) \<and>
         created (new_events w (problem_09_invalid_emails n w)) = [table (fst w) ''subscribers_bad_emails'']"
  using assms by (rule simple_rows) (simp add: problem_09_invalid_emails_def insert_09_def Let_def)

lemma problem_10_rows:
  assumes "ready (fst w)"
  shows "fst (problem_10_out_of_range n w) = None \<and>
         rows_into (table (fst w) ''sales_bad_values'') (new_events w (problem_10_out_of_range n w)) =
           fst (build_rows (rows_10 (today (snd w))) [0 ..< n] (snd w)) \<and>
         created (new_events w (problem_10_out_of_range n w)) = [table (fst w) ''sales_bad_values'']"
  using assms by (rule simple_rows) (simp add: problem_10_out_of_range_def insert_10_def Let_def)

lemma problem_11_rows:
  assumes "ready (fst w)"
  shows "fst (problem_11_csv_in_columns n w) = None \<and>
         rows_into (table (fst w) ''articles_csv_tags'') (new_events w (problem_11_csv_in_columns n w)) =
           fst (build_rows (rows_11 n) [0 ..< n] (snd w)) \<and>
         created (new_events w (problem_11_csv_in_columns n w)) = [table (fst w) ''articles_csv_tags'']"
  using assms by (rule simple_rows) (simp add: problem_11_csv_in_columns_def insert_11_def Let_def)

lemma problem_12_rows:
  assumes "ready (fst w)"
  shows "fst (problem_12_encoding_issues n w) = None \<and>
         rows_into (table (fst w) ''international_data'') (new_events w (problem_12_encoding_issues n w)) =
           fst (build_rows rows_12 [0 ..< n] (snd w)) \<and>
         created (new_events w (problem_12_encoding_issues n w)) = [table (fst w) ''international_data'']"
  using assms by (rule simple_rows) (simp add: problem_12_encoding_issues_def insert_12_def Let_def)

lemma problem_14_rows:
  assumes "ready (fst w)"
  shows "fst (problem_14_missing_indexes n w) = None \<and>
         rows_into (table (fst w) ''audit_log_no_index'') (new_events w (problem_14_missing_indexes n w)) =
           fst (build_rows rows_14 [0 ..< n] (snd w)) \<and>
         created (new_events w (problem_14_missing_indexes n w)) = [table (fst w) ''audit_log_no_index'']"
  using assms by (rule simple_rows) (simp add: problem_14_missing_indexes_def insert_14_def Let_def)

lemma problem_02_run:
  assumes "ready (fst w)"
  defines "products \<equiv> collect product_02 [0 ..< 100] (snd w)"
  shows "\<exists>bs. problem_02_missing_foreign_keys n w =
           (None, (extended (fst w)
              ([Executed (CreateTable (table (fst w) ''products'')),
                ExecutedMany (insert_products (fst w)) (fst products),
                Executed (CreateTable (table (fst w) ''orders_no_fk''))] @
               map (ExecutedMany (insert_02 (fst w))) bs @ [Committed]),
              snd (build_rows rows_02 [0 ..< n] (snd products)))) \<and>
         concat bs = fst (build_rows rows_02 [0 ..< n] (snd products)) \<and>
         list_all2 (\<lambda>b k. \<exists>i g. b = fst (build_rows rows_02 [i ..< i + k] g)) bs (id_batches n)"
proof -
  define db where "db = fst w"
  define w1 where "w1 = (extended db [Executed (CreateTable (table db ''products''))], snd w)"
  define w2 where "w2 = (extended (fst w1) [ExecutedMany (insert_products db) (fst products)],
                         snd products)"
  define w3 where "w3 = (extended (fst w2) [Executed (CreateTable (table db ''orders_no_fk''))],
                         snd w2)"
  have r: "ready db" "ready (fst w1)" "ready (fst w2)" "ready (fst w3)"
    using assms(1) by (simp_all add: db_def w1_def w2_def w3_def)
  have 1: "on_db (execute (CreateTable (table db ''products''))) w = (None, w1)"
    using assms(1) by (simp add: on_db_execute_ready w1_def db_def)
  have 2: "seed_products w1 = (None, w2)"
    using r(2) by (simp add: seed_products_def split_def Let_def on_db_executemany_ready
        w1_def w2_def products_def insert_products_def db_def)
  have 3: "on_db (execute (CreateTable (table db ''orders_no_fk''))) w2 = (None, w3)"
    using r(3) by (simp add: on_db_execute_ready w3_def)
  from batch_loop_ready [OF r(4), of "insert_02 db" rows_02 0 n] obtain bs where
    bs: "batch_loop (insert_02 db) rows_02 0 n w3 =
           (None, (extended (fst w3) (map (ExecutedMany (insert_02 db)) bs),
                   snd (build_rows rows_02 [0 ..< n] (snd w3))))"
        "concat bs = fst (build_rows rows_02 [0 ..< n] (snd w3))"
        "list_all2 (\<lambda>b k. \<exists>i g. b = fst (build_rows rows_02 [i ..< i + k] g)) bs (id_batches n)"
    by auto
  define w4 where "w4 = (extended (fst w3) (map (ExecutedMany (insert_02 db)) bs),
                         snd (build_rows rows_02 [0 ..< n] (snd w3)))"
  have r4: "ready (fst w4)" using r(4) by (simp add: w4_def)
  have "problem_02_missing_foreign_keys n w = on_db commit w4"
    using 1 2 3 bs(1)
    by (simp add: problem_02_missing_foreign_keys_def Let_def seq_def db_def [symmetric] w4_def)
  also have "\<dots> = (None, (extended (fst w4) [Committed], snd w4))"
    using r4 by (rule on_db_commit_ready)
  finally show ?thesis
    using bs(2,3)
    by (intro exI [where x = bs]) (simp add: w1_def w2_def w3_def w4_def db_def)
qed

lemma problem_15_run:
  assumes "ready (fst w)"
  defines "accounts \<equiv> collect account_15 [0 ..< 1000] (snd w)"
  shows "\<exists>bs. problem_15_type_coercion n w =
           (None, (extended (fst w)
              ([Executed (CreateTable (table (fst w) ''accounts_int_id'')),
                Executed (CreateTable (table (fst w) ''transactions_str_id'')),
                ExecutedMany (insert_accounts (fst w)) (fst accounts)] @
               map (ExecutedMany (insert_15 (fst w))) bs @ [Committed]),
              snd (build_rows rows_15 [0 ..< n] (snd accounts)))) \<and>
         concat bs = fst (build_rows rows_15 [0 ..< n] (snd accounts)) \<and>
         list_all2 (\<lambda>b k. \<exists>i g. b = fst (build_rows rows_15 [i ..< i + k] g)) bs (id_batches n)"
proof -
  define db where "db = fst w"
  define w1 where "w1 = (extended db [Executed (CreateTable (table db ''accounts_int_id''))], snd w)"
  define w2 where "w2 = (extended (fst w1) [Executed (CreateTable (table db ''transactions_str_id''))],
                         snd w1)"
  define w3 where "w3 = (extended (fst w2) [ExecutedMany (insert_accounts db) (fst accounts)],
                         snd accounts)"
  have r: "ready db" "ready (fst w1)" "ready (fst w2)" "ready (fst w3)"
    using assms(1) by (simp_all add: db_def w1_def w2_def w3_def)
  have 1: "on_db (execute (CreateTable (table db ''accounts_int_id''))) w = (None, w1)"
    using assms(1) by (simp add: on_db_execute_ready w1_def db_def)
  have 2: "on_db (execute (CreateTable (table db ''transactions_str_id''))) w1 = (None, w2)"
    using r(2) by (simp add: on_db_execute_ready w2_def)
  have 3: "seed_accounts w2 = (None, w3)"
    using r(3) by (simp add: seed_accounts_def split_def Let_def on_db_executemany_ready
        w1_def w2_def w3_def accounts_def insert_accounts_def db_def)
  from batch_loop_ready [OF r(4), of "insert_15 db" rows_15 0 n] obtain bs where
    bs: "batch_loop (insert_15 db) rows_15 0 n w3 =
           (None, (extended (fst w3) (map (ExecutedMany (insert_15 db)) bs),
                   snd (build_rows rows_15 [0 ..< n] (snd w3))))"
        "concat bs = fst (build_rows rows_15 [0 ..< n] (snd w3))"
        "list_all2 (\<lambda>b k. \<exists>i g. b = fst (build_rows rows_15 [i ..< i + k] g)) bs (id_batches n)"
    by auto
  define w4 where "w4 = (extended (fst w3) (map (ExecutedMany (insert_15 db)) bs),
                         snd (build_rows rows_15 [0 ..< n] (snd w3)))"
  have r4: "ready (fst w4)" using r(4) by (simp add: w4_def)
  have "problem_15_type_coercion n w = on_db commit w4"
    using 1 2 3 bs(1)
    by (simp add: problem_15_type_coercion_def Let_def seq_def db_def [symmetric] w4_def)
  also have "\<dots> = (None, (extended (fst w4) [Committed], snd w4))"
    using r4 by (rule on_db_commit_ready)
  finally show ?thesis
    using bs(2,3)
    by (intro exI [where x = bs]) (simp add: w1_def w2_def w3_def w4_def db_def)
qed

lemma flushing_run:
  assumes "ready (fst w)"
    and "job (extended (fst w) [Executed c], snd w) =
           flush_all sql f xs (extended (fst w) [Executed c], gs)"
  shows "\<exists>bs. seq (on_db (execute c)) (seq job (on_db commit)) w =
           (None, (extended (fst w) (Executed c # map (ExecutedMany sql) bs @ [Committed]),
                   snd (build_rows f xs gs))) \<and>
         concat bs = fst (build_rows f xs gs) \<and>
         list_all (\<lambda>b. batch_size \<le> length b) (butlast bs) \<and>
         list_all (\<lambda>b. b \<noteq> [] \<and>
                     (\<exists>x g. length b < batch_size + length (fst (f x g)))) bs"
proof -
  define w1 where "w1 = (extended (fst w) [Executed c], snd w)"
  have 1: "on_db (execute c) w = (None, w1)"
    using assms(1) by (simp add: on_db_execute_ready w1_def)
  have r1: "ready (fst (fst w1, gs))" using assms(1) by (simp add: w1_def)
  from flush_all_ready [OF r1, of sql f xs] obtain bs where
    bs: "flush_all sql f xs (fst w1, gs) =
           (None, (extended (fst w1) (map (ExecutedMany sql) bs), snd (build_rows f xs gs)))"
        "concat bs = fst (build_rows f xs gs)"
        "list_all (\<lambda>b. batch_size \<le> length b) (butlast bs)"
        "list_all (\<lambda>b. b \<noteq> [] \<and>
                    (\<exists>x g. length b < batch_size + length (fst (f x g)))) bs"
    by auto
  define w2 where "w2 = (extended (fst w1) (map (ExecutedMany sql) bs), snd (build_rows f xs gs))"
  have r2: "ready (fst w2)" using assms(1) by (simp add: w2_def w1_def)
  have "job w1 = flush_all sql f xs (fst w1, gs)" using assms(2) by (simp add: w1_def)
  then have "seq (on_db (execute c)) (seq job (on_db commit)) w = on_db commit w2"
    using 1 bs(1) by (simp add: seq_def w2_def)
  also have "\<dots> = (None, (extended (fst w2) [Committed], snd w2))"
    using r2 by (rule on_db_commit_ready)
  finally show ?thesis
    using bs(2,3,4) by (intro exI [where x = bs]) (simp add: w1_def w2_def)
qed

lemma flushing_rows:
  assumes "ready (fst w)"
    and "r = seq (on_db (execute (CreateTable t))) (seq job (on_db commit)) w"
    and "job (extended (fst w) [Executed (CreateTable t)], snd w) =
           flush_all (InsertInto t cols) f xs (extended (fst w) [Executed (CreateTable t)], gs)"
  shows "fst r = None \<and>
         rows_into t (new_events w r) = fst (build_rows f xs gs) \<and>
         created (new_events w r) = [t]"
proof -
  from flushing_run [where job = job, OF assms(1) assms(3)] obtain bs where
    bs: "r = (None, (extended (fst w)
                 (Executed (CreateTable t) # map (ExecutedMany (InsertInto t cols)) bs @ [Committed]),
               snd (build_rows f xs gs)))"
        "concat bs = fst (build_rows f xs gs)"
    unfolding assms(2) by blast
  have "new_events w r =
        Executed (CreateTable t) # map (ExecutedMany (InsertInto t cols)) bs @ [Committed]"
    by (rule new_events_extended) (simp add: bs(1))
  then show ?thesis using bs by (simp add: rows_into_inserts created_inserts)
qed

lemma problem_05_rows:
  fixes n :: nat
  assumes "ready (fst w)"
  defines "users \<equiv> collect base_user [0 ..< n div 3] (snd w)"
  shows "fst (problem_05_duplicate_records n w) = None \<and>
         rows_into (table (fst w) ''users_duplicates'')
             (new_events w (problem_05_duplicate_records n w)) =
           fst (build_rows rows_05 (fst users) (snd users)) \<and>
         created (new_events w (problem_05_duplicate_records n w)) =
           [table (fst w) ''users_duplicates'']"
  using flushing_rows [where job = "insert_users n" and w = w and f = rows_05
      and t = "table (fst w) ''users_duplicates''"
      and cols = "[''user_id'', ''username'', ''email'', ''phone'', ''created_at'']"
      and xs = "fst users" and gs = "snd users"
      and r = "problem_05_duplicate_records n w", OF assms(1)]
  by (simp add: problem_05_duplicate_records_def insert_users_def insert_05_def Let_def
      split_def users_def)

lemma problem_13_rows:
  assumes "ready (fst w)"
  defines "customers \<equiv> collect customer_13 [0 ..< 100] (snd w)"
  defines "products \<equiv> collect product_13 [0 ..< 50] (snd customers)"
  shows "fst (problem_13_god_table n w) = None \<and>
         rows_into (table (fst w) ''god_table'') (new_events w (problem_13_god_table n w)) =
           fst (build_rows (rows_13 (fst customers) (fst products)) [0 ..< n] (snd products)) \<and>
         created (new_events w (problem_13_god_table n w)) = [table (fst w) ''god_table'']"
  using flushing_rows [where job = "insert_god_rows n" and w = w
      and f = "rows_13 (fst customers) (fst products)"
      and t = "table (fst w) ''god_table''"
      and cols = "[''id'', ''customer_id'', ''customer_first_name'', ''customer_last_name'',
      ''customer_email'', ''customer_phone'', ''customer_address_line1'',
      ''customer_address_line2'', ''customer_city'', ''customer_state'', ''customer_zip'',
      ''customer_country'', ''customer_created_at'', ''order_id'', ''order_date'',
      ''order_status'', ''order_total'', ''order_shipping_cost'', ''order_tax'',
      ''product_id'', ''product_name'', ''product_description'', ''product_category'',
      ''product_subcategory'', ''product_brand'', ''product_unit_price'', ''product_cost'',
      ''quantity'', ''line_total'', ''shipping_carrier'', ''shipping_tracking'',
      ''shipping_method'', ''estimated_delivery'', ''actual_delivery'']"
      and xs = "[0 ..< n]" and gs = "snd products"
      and r = "problem_13_god_table n w", OF assms(1)]
  by (simp add: problem_13_god_table_def insert_god_rows_def insert_13_def Let_def
      split_def customers_def products_def)

lemma problem_02_rows:
  assumes "ready (fst w)"
  defines "products \<equiv> collect product_02 [0 ..< 100] (snd w)"
  shows "fst (problem_02_missing_foreign_keys n w) = None \<and>
         rows_into (table (fst w) ''orders_no_fk'')
             (new_events w (problem_02_missing_foreign_keys n w)) =
           fst (build_rows rows_02 [0 ..< n] (snd products)) \<and>
         rows_into (table (fst w) ''products'')
             (new_events w (problem_02_missing_foreign_keys n w)) = fst products \<and>
         created (new_events w (problem_02_missing_foreign_keys n w)) =
           [table (fst w) ''products'', table (fst w) ''orders_no_fk'']"
proof -
  from problem_02_run [OF assms(1), of n] obtain bs where
    bs: "problem_02_missing_foreign_keys n w =
           (None, (extended (fst w)
              ([Executed (CreateTable (table (fst w) ''products'')),
                ExecutedMany (insert_products (fst w)) (fst products),
                Executed (CreateTable (table (fst w) ''orders_no_fk''))] @
               map (ExecutedMany (insert_02 (fst w))) bs @ [Committed]),
              snd (build_rows rows_02 [0 ..< n] (snd products))))"
        "concat bs = fst (build_rows rows_02 [0 ..< n] (snd products))"
    unfolding products_def by blast
  have "new_events w (problem_02_missing_foreign_keys n w) =
        [Executed (CreateTable (table (fst w) ''products'')),
         ExecutedMany (insert_products (fst w)) (fst products),
         Executed (CreateTable (table (fst w) ''orders_no_fk''))] @
        map (ExecutedMany (insert_02 (fst w))) bs @ [Committed]"
    by (rule new_events_extended) (simp add: bs(1))
  then show ?thesis
    using bs
    by (simp add: insert_products_def insert_02_def table_def rows_into_inserts
        rows_into_other created_inserts)
qed

lemma problem_15_rows:
  assumes "ready (fst w)"
  defines "accounts \<equiv> collect account_15 [0 ..< 1000] (snd w)"
  shows "fst (problem_15_type_coercion n w) = None \<and>
         rows_into (table (fst w) ''transactions_str_id'')
             (new_events w (problem_15_type_coercion n w)) =
           fst (build_rows rows_15 [0 ..< n] (snd accounts)) \<and>
         rows_into (table (fst w) ''accounts_int_id'')
             (new_events w (problem_15_type_coercion n w)) = fst accounts \<and>
         created (new_events w (problem_15_type_coercion n w)) =
           [table (fst w) ''accounts_int_id'', table (fst w) ''transactions_str_id'']"
proof -
  from problem_15_run [OF assms(1), of n] obtain bs where
    bs: "problem_15_type_coercion n w =
           (None, (extended (fst w)
              ([Executed (CreateTable (table (fst w) ''accounts_int_id'')),
                Executed (CreateTable (table (fst w) ''transactions_str_id'')),
                ExecutedMany (insert_accounts (fst w)) (fst accounts)] @
               map (ExecutedMany (insert_15 (fst w))) bs @ [Committed]),
              snd (build_rows rows_15 [0 ..< n] (snd accounts))))"
        "concat bs = fst (build_rows rows_15 [0 ..< n] (snd accounts))"
    unfolding accounts_def by blast
  have "new_events w (problem_15_type_coercion n w) =
        [Executed (CreateTable (table (fst w) ''accounts_int_id'')),
         Executed (CreateTable (table (fst w) ''transactions_str_id'')),
         ExecutedMany (insert_accounts (fst w)) (fst accounts)] @
        map (ExecutedMany (insert_15 (fst w))) bs @ [Committed]"
    by (rule new_events_extended) (simp add: bs(1))
  then show ?thesis
    using bs
    by (simp add: insert_accounts_def insert_15_def table_def rows_into_inserts
        rows_into_other created_inserts)
qed

subsection \<open>The concrete states\<close>

lemma demo_db_ready: "ready demo_db"
  by (simp add: demo_db_def connect_def driver_call_def get_adapter_def ready_def)

lemma demo_db_table: "table demo_db name = ''bdw_'' @ name"
  by (simp add: demo_db_def connect_def driver_call_def get_adapter_def table_def
      get_table_prefix_def demo_config_def)

subsection \<open>Every generator commits once\<close>

lemma returned_commits_once:
  assumes "atomic_at w r" and "fst r = None"
  shows "commits_once w r"
proof -
  obtain evs where evs: "fst (snd r) = extended (fst w) evs"
    and c: "evs \<noteq> []" "last evs = Committed" "Committed \<notin> set (butlast evs)"
    using assms unfolding atomic_at_def by auto
  have "new_events w r = evs" using evs by (rule new_events_extended)
  moreover have "evs = butlast evs @ [Committed]"
    using c(1,2) by (metis append_butlast_last_id)
  ultimately have "new_events w r = butlast evs @ [Committed]" by simp
  then show ?thesis unfolding commits_once_def using assms(2) c(3) by blast
qed

lemma problem_01_commits:
  "ready (fst w) \<Longrightarrow> commits_once w (problem_01_no_primary_key n w)"
  using problem_01_atomic [of w n] problem_01_rows [of w n]
  by (intro returned_commits_once) simp_all

lemma problem_02_commits:
  "ready (fst w) \<Longrightarrow> commits_once w (problem_02_missing_foreign_keys n w)"
  using problem_02_atomic [of w n] problem_02_rows [of w n]
  by (intro returned_commits_once) simp_all

lemma problem_03_commits:
  "ready (fst w) \<Longrightarrow> commits_once w (problem_03_wrong_data_types n w)"
  using problem_03_atomic [of w n] problem_03_rows [of w n]
  by (intro returned_commits_once) simp_all

lemma problem_04_commits:
  "ready (fst w) \<Longrightarrow> commits_once w (problem_04_missing_not_null n w)"
  using problem_04_atomic [of w n] problem_04_rows [of w n]
  by (intro returned_commits_once) simp_all

lemma problem_05_commits:
  "ready (fst w) \<Longrightarrow> commits_once w (problem_05_duplicate_records n w)"
  using problem_05_atomic [of w n] problem_05_rows [of w n]
  by (intro returned_commits_once) simp_all

lemma problem_06_commits:
  "ready (fst w) \<Longrightarrow> commits_once w (problem_06_inconsistent_dates n w)"
  using problem_06_atomic [of w n] problem_06_rows [of w n]
  by (intro returned_commits_once) simp_all

lemma problem_07_commits:
  "ready (fst w) \<Longrightarrow> commits_once w (problem_07_inconsistent_casing n w)"
  using problem_07_atomic [of w n] problem_07_rows [of w n]
  by (intro returned_commits_once) simp_all

lemma problem_08_commits:
  "ready (fst w) \<Longrightarrow> commits_once w (problem_08_whitespace_issues n w)"
  using problem_08_atomic [of w n] problem_08_rows [of w n]
  by (intro returned_commits_once) simp_all

lemma problem_09_commits:
  "ready (fst w) \<Longrightarrow> commits_once w (problem_09_invalid_emails n w)"
  using problem_09_atomic [of w n] problem_09_rows [of w n]
  by (intro returned_commits_once) simp_all

lemma problem_10_commits:
  "ready (fst w) \<Longrightarrow> commits_once w (problem_10_out_of_range n w)"
  using problem_10_atomic [of w n] problem_10_rows [of w n]
  by (intro returned_commits_once) simp_all

lemma problem_11_commits:
  "ready (fst w) \<Longrightarrow> commits_once w (problem_11_csv_in_columns n w)"
  using problem_11_atomic [of w n] problem_11_rows [of w n]
  by (intro returned_commits_once) simp_all

lemma problem_12_commits:
  "ready (fst w) \<Longrightarrow> commits_once w (problem_12_encoding_issues n w)"
  using problem_12_atomic [of w n] problem_12_rows [of w n]
  by (intro returned_commits_once) simp_all

lemma problem_13_commits:
  "ready (fst w) \<Longrightarrow> commits_once w (problem_13_god_table n w)"
  using problem_13_atomic [of w n] problem_13_rows [of w n]
  by (intro returned_commits_once) simp_all

lemma problem_14_commits:
  "ready (fst w) \<Longrightarrow> commits_once w (problem_14_missing_indexes n w)"
  using problem_14_atomic [of w n] problem_14_rows [of w n]
  by (intro returned_commits_once) simp_all

lemma problem_15_commits:
  "ready (fst w) \<Longrightarrow> commits_once w (problem_15_type_coercion n w)"
  using problem_15_atomic [of w n] problem_15_rows [of w n]
  by (intro returned_commits_once) simp_all

text \<open>
  C10.  Each of the fifteen generators, started in any state of the adapter and of the
  seeded sources and whatever the driver does, only adds driver calls to the trace.  On a
  ready adapter it returns, and exactly one of the calls it added is a commit: the last
  one, after every bulk insert.  In general, when it returns, exactly one of the added
  calls is a commit and it is the last one; when it raises (any SQL execution or the
  commit itself failing), none of the added calls is a commit, so the durable bulk
  inserts are the ones that were durable before the generator ran.  (Commits are the
  explicit ones only: a backend that commits on DDL is outside the model.)
\<close>

theorem generators_commit_once:
  "list_all (\<lambda>(name, func, rows).
       atomic_at w (func rows w) \<and> all_or_nothing w (func rows w) \<and>
       (ready (fst w) \<longrightarrow> commits_once w (func rows w)))
     (problems b)"
  by (simp add: problems_def atomic_all_or_nothing
      problem_01_atomic problem_02_atomic problem_03_atomic problem_04_atomic problem_05_atomic
      problem_06_atomic problem_07_atomic problem_08_atomic problem_09_atomic problem_10_atomic
      problem_11_atomic problem_12_atomic problem_13_atomic problem_14_atomic problem_15_atomic
      problem_01_commits problem_02_commits problem_03_commits problem_04_commits
      problem_05_commits problem_06_commits problem_07_commits problem_08_commits
      problem_09_commits problem_10_commits problem_11_commits problem_12_commits
      problem_13_commits problem_14_commits problem_15_commits)

theorem generators_commit_once_witness:
  "ready (fst (demo_db, heads)) \<and>
   commits_once (demo_db, heads) (problem_01_no_primary_key 100 (demo_db, heads)) \<and>
   commits_once (demo_db, heads) (problem_13_god_table (100 * 2) (demo_db, heads))"
  using generators_commit_once [of "(demo_db, heads)" 100] demo_db_ready
  by (simp add: problems_def)

subsection \<open>Row counts\<close>

lemma rows_01_heads:
  assumes "rtape g = (\<lambda>k. 0)"
  shows "length (fst (rows_01 i g)) = 2 \<and> rtape (snd (rows_01 i g)) = (\<lambda>k. 0)"
  using assms
  by (simp add: rows_01_def fake_def fake_date_def random_random_def next_raw_def Let_def
      split_def)

lemma build_rows_01_heads:
  "rtape g = (\<lambda>k. 0) \<Longrightarrow> length (fst (build_rows rows_01 xs g)) = 2 * length xs"
proof (induction xs arbitrary: g)
  case Nil
  then show ?case by simp
next
  case (Cons x xs)
  then show ?case using rows_01_heads [of g x] by (simp add: build_rows_Cons)
qed

lemma rows_count_01:
  "n \<le> length (fst (build_rows rows_01 [0 ..< n] g)) \<and>
   length (fst (build_rows rows_01 [0 ..< n] g)) \<le> 2 * n"
  using build_rows_length_le [of rows_01 2 "[0 ..< n]" g]
    build_rows_length_ge [of 1 rows_01 "[0 ..< n]" g] rows_01_length
  by simp

lemma rows_count_05:
  "length xs \<le> length (fst (build_rows rows_05 xs g)) \<and>
   length (fst (build_rows rows_05 xs g)) \<le> 4 * length xs"
  using build_rows_length_le [of rows_05 4 xs g]
    build_rows_length_ge [of 1 rows_05 xs g] rows_05_length
  by simp

lemma problem_03_count:
  assumes "ready (fst w)"
  shows "fst (problem_03_wrong_data_types n w) = None \<and>
         length (rows_into (table (fst w) ''transactions_bad_types'') (new_events w (problem_03_wrong_data_types n w))) = n"
  using problem_03_rows [OF assms, of n]
  by (simp add: build_rows_length_eq rows_03_length)

lemma problem_04_count:
  assumes "ready (fst w)"
  shows "fst (problem_04_missing_not_null n w) = None \<and>
         length (rows_into (table (fst w) ''employees_nulls'') (new_events w (problem_04_missing_not_null n w))) = n"
  using problem_04_rows [OF assms, of n]
  by (simp add: build_rows_length_eq rows_04_length)

lemma problem_06_count:
  assumes "ready (fst w)"
  shows "fst (problem_06_inconsistent_dates n w) = None \<and>
         length (rows_into (table (fst w) ''events_bad_dates'') (new_events w (problem_06_inconsistent_dates n w))) = n"
  using problem_06_rows [OF assms, of n]
  by (simp add: build_rows_length_eq rows_06_length)

lemma problem_07_count:
  assumes "ready (fst w)"
  shows "fst (problem_07_inconsistent_casing n w) = None \<and>
         length (rows_into (table (fst w) ''contacts_bad_casing'') (new_events w (problem_07_inconsistent_casing n w))) = n"
  using problem_07_rows [OF assms, of n]
  by (simp add: build_rows_length_eq rows_07_length)

lemma problem_08_count:
  assumes "ready (fst w)"
  shows "fst (problem_08_whitespace_issues n w) = None \<and>
         length (rows_into (table (fst w) ''inventory_whitespace'') (new_events w (problem_08_whitespace_issues n w))) = n"
  using problem_08_rows [OF assms, of n]
  by (simp add: build_rows_length_eq rows_08_length)

lemma problem_09_count:
  assumes "ready (fst w)"
  shows "fst (problem_09_invalid_emails n w) = None \<and>
         length (rows_into (table (fst w) ''subscribers_bad_emails'') (new_events w (problem_09_invalid_emails n w))) = n"
  using problem_09_rows [OF assms, of n]
  by (simp add: build_rows_length_eq rows_09_length)

lemma problem_10_count:
  assumes "ready (fst w)"
  shows "fst (problem_10_out_of_range n w) = None \<and>
         length (rows_into (table (fst w) ''sales_bad_values'') (new_events w (problem_10_out_of_range n w))) = n"
  using problem_10_rows [OF assms, of n]
  by (simp add: build_rows_length_eq rows_10_length)

lemma problem_11_count:
  assumes "ready (fst w)"
  shows "fst (problem_11_csv_in_columns n w) = None \<and>
         length (rows_into (table (fst w) ''articles_csv_tags'') (new_events w (problem_11_csv_in_columns n w))) = n"
  using problem_11_rows [OF assms, of n]
  by (simp add: build_rows_length_eq rows_11_length)

lemma problem_12_count:
  assumes "ready (fst w)"
  shows "fst (problem_12_encoding_issues n w) = None \<and>
         length (rows_into (table (fst w) ''international_data'') (new_events w (problem_12_encoding_issues n w))) = n"
  using problem_12_rows [OF assms, of n]
  by (simp add: build_rows_length_eq rows_12_length)

lemma problem_14_count:
  assumes "ready (fst w)"
  shows "fst (problem_14_missing_indexes n w) = None \<and>
         length (rows_into (table (fst w) ''audit_log_no_index'') (new_events w (problem_14_missing_indexes n w))) = n"
  using problem_14_rows [OF assms, of n]
  by (simp add: build_rows_length_eq rows_14_length)

lemma problem_01_count:
  assumes "ready (fst w)"
  shows "fst (problem_01_no_primary_key n w) = None \<and>
         n \<le> length (rows_into (table (fst w) ''customers_no_pk'')
                 (new_events w (problem_01_no_primary_key n w))) \<and>
         length (rows_into (table (fst w) ''customers_no_pk'')
                 (new_events w (problem_01_no_primary_key n w))) \<le> 2 * n"
  using problem_01_rows [OF assms, of n] rows_count_01 [of n "snd w"] by simp

lemma problem_02_count:
  assumes "ready (fst w)"
  shows "fst (problem_02_missing_foreign_keys n w) = None \<and>
         length (rows_into (table (fst w) ''orders_no_fk'')
                 (new_events w (problem_02_missing_foreign_keys n w))) = n \<and>
         length (rows_into (table (fst w) ''products'')
                 (new_events w (problem_02_missing_foreign_keys n w))) = 100"
  using problem_02_rows [OF assms, of n]
  by (simp add: build_rows_length_eq rows_02_length)

lemma problem_05_count:
  assumes "ready (fst w)"
  shows "fst (problem_05_duplicate_records n w) = None \<and>
         n div 3 \<le> length (rows_into (table (fst w) ''users_duplicates'')
                 (new_events w (problem_05_duplicate_records n w))) \<and>
         length (rows_into (table (fst w) ''users_duplicates'')
                 (new_events w (problem_05_duplicate_records n w))) \<le> 4 * (n div 3)"
  using problem_05_rows [OF assms, of n]
    rows_count_05 [of "fst (collect base_user [0 ..< n div 3] (snd w))"
      "snd (collect base_user [0 ..< n div 3] (snd w))"]
  by simp

lemma problem_13_count:
  assumes "ready (fst w)"
  shows "fst (problem_13_god_table n w) = None \<and>
         length (rows_into (table (fst w) ''god_table'')
                 (new_events w (problem_13_god_table n w))) = n"
  using problem_13_rows [OF assms, of n]
  by (simp add: build_rows_length_eq rows_13_length)

lemma problem_15_count:
  assumes "ready (fst w)"
  shows "fst (problem_15_type_coercion n w) = None \<and>
         length (rows_into (table (fst w) ''transactions_str_id'')
                 (new_events w (problem_15_type_coercion n w))) = n \<and>
         length (rows_into (table (fst w) ''accounts_int_id'')
                 (new_events w (problem_15_type_coercion n w))) = 1000"
  using problem_15_rows [OF assms, of n]
  by (simp add: build_rows_length_eq rows_15_length)

text \<open>
  C1, as amended.  On an adapter with both handles set and a driver that never raises,
  for every scale token with base count \<open>b\<close>, every generator returns, and the number of
  rows it inserts into its table is: exactly \<open>b\<close> for generators 2-4, 6-12 and 15,
  exactly \<open>2b\<close> for generator 13 and \<open>5b\<close> for generator 14; between \<open>b\<close> and \<open>2b\<close> for
  generator 1 (each row may be appended twice); between \<open>b div 3\<close> and \<open>4 (b div 3)\<close>
  for generator 5 (one original per base user and up to three duplicates).  Generator 2
  also inserts 100 rows into \<open>products\<close>, generator 15 1000 rows into
  \<open>accounts_int_id\<close>.
\<close>

theorem row_counts:
  assumes "ready (fst w)"
  shows "list_all2
           (\<lambda>(name, func, rows) (t, lo, hi).
              fst (func rows w) = None \<and>
              lo \<le> length (rows_into (table (fst w) t) (new_events w (func rows w))) \<and>
              length (rows_into (table (fst w) t) (new_events w (func rows w))) \<le> hi)
           (problems (base_rows_of scale))
           [(''customers_no_pk'', base_rows_of scale, 2 * base_rows_of scale),
            (''orders_no_fk'', base_rows_of scale, base_rows_of scale),
            (''transactions_bad_types'', base_rows_of scale, base_rows_of scale),
            (''employees_nulls'', base_rows_of scale, base_rows_of scale),
            (''users_duplicates'', base_rows_of scale div 3, 4 * (base_rows_of scale div 3)),
            (''events_bad_dates'', base_rows_of scale, base_rows_of scale),
            (''contacts_bad_casing'', base_rows_of scale, base_rows_of scale),
            (''inventory_whitespace'', base_rows_of scale, base_rows_of scale),
            (''subscribers_bad_emails'', base_rows_of scale, base_rows_of scale),
            (''sales_bad_values'', base_rows_of scale, base_rows_of scale),
            (''articles_csv_tags'', base_rows_of scale, base_rows_of scale),
            (''international_data'', base_rows_of scale, base_rows_of scale),
            (''god_table'', 2 * base_rows_of scale, 2 * base_rows_of scale),
            (''audit_log_no_index'', 5 * base_rows_of scale, 5 * base_rows_of scale),
            (''transactions_str_id'', base_rows_of scale, base_rows_of scale)] \<and>
         length (rows_into (table (fst w) ''products'')
            (new_events w (problem_02_missing_foreign_keys (base_rows_of scale) w))) = 100 \<and>
         length (rows_into (table (fst w) ''accounts_int_id'')
            (new_events w (problem_15_type_coercion (base_rows_of scale) w))) = 1000"
proof -
  define b where "b = base_rows_of scale"
  note r = assms
  show ?thesis
    unfolding b_def [symmetric] problems_def
    using problem_01_count [OF r, of b] problem_02_count [OF r, of b]
      problem_03_count [OF r, of b] problem_04_count [OF r, of b]
      problem_05_count [OF r, of b] problem_06_count [OF r, of b]
      problem_07_count [OF r, of b] problem_08_count [OF r, of b]
      problem_09_count [OF r, of b] problem_10_count [OF r, of b]
      problem_11_count [OF r, of b] problem_12_count [OF r, of b]
      problem_13_count [OF r, of "b * 2"] problem_14_count [OF r, of "b * 5"]
      problem_15_count [OF r, of b]
    by simp
qed

theorem row_counts_witness:
  "fst (problem_14_missing_indexes (5 * base_rows_of ''tiny'') (demo_db, tails)) = None \<and>
   length (rows_into ''bdw_audit_log_no_index''
      (new_events (demo_db, tails)
         (problem_14_missing_indexes (5 * base_rows_of ''tiny'') (demo_db, tails)))) = 500"
  using row_counts [of "(demo_db, tails)" "''tiny''"] demo_db_ready
  by (simp add: problems_def demo_db_table base_rows_of_def scales_def mult.commute)

text \<open>
  Counterexample to C1 as stated: at scale \<open>tiny\<close> (base count 100), with a source whose
  every \<open>random.random()\<close> is below 0.1, generator 1 inserts 200 rows.
\<close>

theorem row_counts_counterexample:
  "base_rows_of ''tiny'' = 100 \<and>
   length (rows_into ''bdw_customers_no_pk''
      (new_events (demo_db, heads)
         (problem_01_no_primary_key (base_rows_of ''tiny'') (demo_db, heads)))) = 200"
proof -
  have b: "base_rows_of ''tiny'' = 100" by (simp add: base_rows_of_def scales_def)
  have "ready (fst (demo_db, heads))" by (simp add: demo_db_ready)
  from problem_01_rows [OF this, of 100]
  have "rows_into ''bdw_customers_no_pk''
          (new_events (demo_db, heads) (problem_01_no_primary_key 100 (demo_db, heads))) =
        fst (build_rows rows_01 [0 ..< 100] heads)"
    by (simp add: demo_db_table)
  moreover have "length (fst (build_rows rows_01 [0 ..< 100] heads)) = 2 * length [0 ..< (100::nat)]"
    by (rule build_rows_01_heads) (simp add: heads_def)
  ultimately show ?thesis using b by simp
qed

subsection \<open>Sizes of the bulk inserts\<close>

lemma bulks_into_inserts:
  "bulks_into t (map (ExecutedMany (InsertInto t cols)) bs @ evs) =
     map length bs @ bulks_into t evs"
  by (induction bs) simp_all

lemma bulks_into_other:
  "t' \<noteq> t \<Longrightarrow> bulks_into t (map (ExecutedMany (InsertInto t' cols)) bs @ evs) = bulks_into t evs"
  by (induction bs) simp_all

lemma range_sizes:
  assumes "list_all2 (\<lambda>b k. \<exists>i g. b = fst (build_rows f [i ..< i + k] g)) bs ks"
    and "\<And>i g. 1 \<le> length (fst (f i g)) \<and> length (fst (f i g)) \<le> m"
  shows "list_all2 (\<lambda>size ids. ids \<le> size \<and> size \<le> m * ids) (map length bs) ks"
proof -
  have "ids \<le> length b \<and> length b \<le> m * ids"
    if "\<exists>i g. b = fst (build_rows f [i ..< i + ids] g)" for b ids
  proof -
    from that obtain i g where b: "b = fst (build_rows f [i ..< i + ids] g)" by blast
    have "1 * length [i ..< i + ids] \<le> length b"
      unfolding b using assms(2) by (intro build_rows_length_ge) simp
    moreover have "length b \<le> m * length [i ..< i + ids]"
      unfolding b using assms(2) by (intro build_rows_length_le) simp
    ultimately show ?thesis by simp
  qed
  then show ?thesis
    using assms(1) by (simp add: list_all2_map1 list_all2_mono)
qed

lemma simple_batches:
  assumes "ready (fst w)"
    and "r = seq (on_db (execute (CreateTable t)))
               (seq (batch_loop (InsertInto t cols) f 0 n) (on_db commit)) w"
    and "\<And>i g. 1 \<le> length (fst (f i g)) \<and> length (fst (f i g)) \<le> m"
  shows "fst r = None \<and>
         list_all2 (\<lambda>size ids. ids \<le> size \<and> size \<le> m * ids)
           (bulks_into t (new_events w r)) (id_batches n)"
proof -
  from simple_ready [OF assms(1), of "CreateTable t" "InsertInto t cols" f n] obtain bs where
    bs: "r = (None, (extended (fst w)
                 (Executed (CreateTable t) # map (ExecutedMany (InsertInto t cols)) bs @ [Committed]),
               snd (build_rows f [0 ..< n] (snd w))))"
        "list_all2 (\<lambda>b k. \<exists>i g. b = fst (build_rows f [i ..< i + k] g)) bs (id_batches n)"
    unfolding assms(2) by blast
  have "new_events w r =
        Executed (CreateTable t) # map (ExecutedMany (InsertInto t cols)) bs @ [Committed]"
    by (rule new_events_extended) (simp add: bs(1))
  then have "bulks_into t (new_events w r) = map length bs"
    by (simp add: bulks_into_inserts)
  then show ?thesis using bs(1) range_sizes [OF bs(2) assms(3)] by simp
qed

lemma problem_01_batches:
  assumes "ready (fst w)"
  shows "fst (problem_01_no_primary_key n w) = None \<and>
         list_all2 (\<lambda>size ids. ids \<le> size \<and> size \<le> 2 * ids)
           (bulks_into (table (fst w) ''customers_no_pk'') (new_events w (problem_01_no_primary_key n w)))
           (id_batches n)"
  using assms
  by (rule simple_batches [where f = "rows_01"])
     (simp_all add: problem_01_no_primary_key_def insert_01_def Let_def rows_01_length [unfolded One_nat_def])

lemma problem_03_batches:
  assumes "ready (fst w)"
  shows "fst (problem_03_wrong_data_types n w) = None \<and>
         list_all2 (\<lambda>size ids. ids \<le> size \<and> size \<le> 1 * ids)
           (bulks_into (table (fst w) ''transactions_bad_types'') (new_events w (problem_03_wrong_data_types n w)))
           (id_batches n)"
  using assms
  by (rule simple_batches [where f = "rows_03"])
     (simp_all add: problem_03_wrong_data_types_def insert_03_def Let_def rows_03_length)

lemma problem_04_batches:
  assumes "ready (fst w)"
  shows "fst (problem_04_missing_not_null n w) = None \<and>
         list_all2 (\<lambda>size ids. ids \<le> size \<and> size \<le> 1 * ids)
           (bulks_into (table (fst w) ''employees_nulls'') (new_events w (problem_04_missing_not_null n w)))
           (id_batches n)"
  using assms
  by (rule simple_batches [where f = "rows_04"])
     (simp_all add: problem_04_missing_not_null_def insert_04_def Let_def rows_04_length)

lemma problem_06_batches:
  assumes "ready (fst w)"
  shows "fst (problem_06_inconsistent_dates n w) = None \<and>
         list_all2 (\<lambda>size ids. ids \<le> size \<and> size \<le> 1 * ids)
           (bulks_into (table (fst w) ''events_bad_dates'') (new_events w (problem_06_inconsistent_dates n w)))
           (id_batches n)"
  using assms
  by (rule simple_batches [where f = "rows_06"])
     (simp_all add: problem_06_inconsistent_dates_def insert_06_def Let_def rows_06_length)

lemma problem_07_batches:
  assumes "ready (fst w)"
  shows "fst (problem_07_inconsistent_casing n w) = None \<and>
         list_all2 (\<lambda>size ids. ids \<le> size \<and> size \<le> 1 * ids)
           (bulks_into (table (fst w) ''contacts_bad_casing'') (new_events w (problem_07_inconsistent_casing n w)))
           (id_batches n)"
  using assms
  by (rule simple_batches [where f = "rows_07"])
     (simp_all add: problem_07_inconsistent_casing_def insert_07_def Let_def rows_07_length)

lemma problem_08_batches:
  assumes "ready (fst w)"
  shows "fst (problem_08_whitespace_issues n w) = None \<and>
         list_all2 (\<lambda>size ids. ids \<le> size \<and> size \<le> 1 * ids)
           (bulks_into (table (fst w) ''inventory_whitespace'') (new_events w (problem_08_whitespace_issues n w)))
           (id_batches n)"
  using assms
  by (rule simple_batches [where f = "rows_08"])
     (simp_all add: problem_08_whitespace_issues_def insert_08_def Let_def rows_08_length)

lemma problem_09_batches:
  assumes "ready (fst w)"
  shows "fst (problem_09_invalid_emails n w) = None \<and>
         list_all2 (\<lambda>size ids. ids \<le> size \<and> size \<le> 1 * ids)
           (bulks_into (table (fst w) ''subscribers_bad_emails'') (new_events w (problem_09_invalid_emails n w)))
           (id_batches n)"
  using assms
  by (rule simple_batches [where f = "rows_09"])
     (simp_all add: problem_09_invalid_emails_def insert_09_def Let_def rows_09_length)

lemma problem_10_batches:
  assumes "ready (fst w)"
  shows "fst (problem_10_out_of_range n w) = None \<and>
         list_all2 (\<lambda>size ids. ids \<le> size \<and> size \<le> 1 * ids)
           (bulks_into (table (fst w) ''sales_bad_values'') (new_events w (problem_10_out_of_range n w)))
           (id_batches n)"
  using assms
  by (rule simple_batches [where f = "rows_10 (today (snd w))"])
     (simp_all add: problem_10_out_of_range_def insert_10_def Let_def rows_10_length)

lemma problem_11_batches:
  assumes "ready (fst w)"
  shows "fst (problem_11_csv_in_columns n w) = None \<and>
         list_all2 (\<lambda>size ids. ids \<le> size \<and> size \<le> 1 * ids)
           (bulks_into (table (fst w) ''articles_csv_tags'') (new_events w (problem_11_csv_in_columns n w)))
           (id_batches n)"
  using assms
  by (rule simple_batches [where f = "rows_11 n"])
     (simp_all add: problem_11_csv_in_columns_def insert_11_def Let_def rows_11_length)

lemma problem_12_batches:
  assumes "ready (fst w)"
  shows "fst (problem_12_encoding_issues n w) = None \<and>
         list_all2 (\<lambda>size ids. ids \<le> size \<and> size \<le> 1 * ids)
           (bulks_into (table (fst w) ''international_data'') (new_events w (problem_12_encoding_issues n w)))
           (id_batches n)"
  using assms
  by (rule simple_batches [where f = "rows_12"])
     (simp_all add: problem_12_encoding_issues_def insert_12_def Let_def rows_12_length)

lemma problem_14_batches:
  assumes "ready (fst w)"
  shows "fst (problem_14_missing_indexes n w) = None \<and>
         list_all2 (\<lambda>size ids. ids \<le> size \<and> size \<le> 1 * ids)
           (bulks_into (table (fst w) ''audit_log_no_index'') (new_events w (problem_14_missing_indexes n w)))
           (id_batches n)"
  using assms
  by (rule simple_batches [where f = "rows_14"])
     (simp_all add: problem_14_missing_indexes_def insert_14_def Let_def rows_14_length)

lemma problem_02_batches:
  assumes "ready (fst w)"
  shows "fst (problem_02_missing_foreign_keys n w) = None \<and>
         list_all2 (\<lambda>size ids. ids \<le> size \<and> size \<le> 1 * ids)
           (bulks_into (table (fst w) ''orders_no_fk'') (new_events w (problem_02_missing_foreign_keys n w)))
           (id_batches n) \<and>
         bulks_into (table (fst w) ''products'') (new_events w (problem_02_missing_foreign_keys n w)) = [100]"
proof -
  define seeded where "seeded = collect product_02 [0 ..< 100] (snd w)"
  from problem_02_run [OF assms, of n] obtain bs where
    bs: "problem_02_missing_foreign_keys n w =
           (None, (extended (fst w)
              ([Executed (CreateTable (table (fst w) ''products'')),
                ExecutedMany (insert_products (fst w)) (fst seeded),
                Executed (CreateTable (table (fst w) ''orders_no_fk''))] @
               map (ExecutedMany (insert_02 (fst w))) bs @ [Committed]),
              snd (build_rows rows_02 [0 ..< n] (snd seeded))))"
        "list_all2 (\<lambda>b k. \<exists>i g. b = fst (build_rows rows_02 [i ..< i + k] g)) bs (id_batches n)"
    unfolding seeded_def by blast
  have e: "new_events w (problem_02_missing_foreign_keys n w) =
        [Executed (CreateTable (table (fst w) ''products'')),
                ExecutedMany (insert_products (fst w)) (fst seeded),
                Executed (CreateTable (table (fst w) ''orders_no_fk''))] @
        map (ExecutedMany (insert_02 (fst w))) bs @ [Committed]"
    by (rule new_events_extended) (simp add: bs(1))
  have "\<And>i g. 1 \<le> length (fst (rows_02 i g)) \<and> length (fst (rows_02 i g)) \<le> 1"
    by (simp add: rows_02_length)
  from range_sizes [OF bs(2) this]
  have "list_all2 (\<lambda>size ids. ids \<le> size \<and> size \<le> 1 * ids) (map length bs) (id_batches n)" .
  moreover have "length (fst seeded) = 100" by (simp add: seeded_def)
  ultimately show ?thesis
    using bs(1) unfolding e
    by (simp add: insert_products_def insert_02_def table_def bulks_into_inserts bulks_into_other)
qed

lemma problem_15_batches:
  assumes "ready (fst w)"
  shows "fst (problem_15_type_coercion n w) = None \<and>
         list_all2 (\<lambda>size ids. ids \<le> size \<and> size \<le> 1 * ids)
           (bulks_into (table (fst w) ''transactions_str_id'') (new_events w (problem_15_type_coercion n w)))
           (id_batches n) \<and>
         bulks_into (table (fst w) ''accounts_int_id'') (new_events w (problem_15_type_coercion n w)) = [1000]"
proof -
  define seeded where "seeded = collect account_15 [0 ..< 1000] (snd w)"
  from problem_15_run [OF assms, of n] obtain bs where
    bs: "problem_15_type_coercion n w =
           (None, (extended (fst w)
              ([Executed (CreateTable (table (fst w) ''accounts_int_id'')),
                Executed (CreateTable (table (fst w) ''transactions_str_id'')),
                ExecutedMany (insert_accounts (fst w)) (fst seeded)] @
               map (ExecutedMany (insert_15 (fst w))) bs @ [Committed]),
              snd (build_rows rows_15 [0 ..< n] (snd seeded))))"
        "list_all2 (\<lambda>b k. \<exists>i g. b = fst (build_rows rows_15 [i ..< i + k] g)) bs (id_batches n)"
    unfolding seeded_def by blast
  have e: "new_events w (problem_15_type_coercion n w) =
        [Executed (CreateTable (table (fst w) ''accounts_int_id'')),
                Executed (CreateTable (table (fst w) ''transactions_str_id'')),
                ExecutedMany (insert_accounts (fst w)) (fst seeded)] @
        map (ExecutedMany (insert_15 (fst w))) bs @ [Committed]"
    by (rule new_events_extended) (simp add: bs(1))
  have "\<And>i g. 1 \<le> length (fst (rows_15 i g)) \<and> length (fst (rows_15 i g)) \<le> 1"
    by (simp add: rows_15_length)
  from range_sizes [OF bs(2) this]
  have "list_all2 (\<lambda>size ids. ids \<le> size \<and> size \<le> 1 * ids) (map length bs) (id_batches n)" .
  moreover have "length (fst seeded) = 1000" by (simp add: seeded_def)
  ultimately show ?thesis
    using bs(1) unfolding e
    by (simp add: insert_accounts_def insert_15_def table_def bulks_into_inserts bulks_into_other)
qed

lemma flushing_batches:
  assumes "ready (fst w)"
    and "r = seq (on_db (execute (CreateTable t))) (seq job (on_db commit)) w"
    and "job (extended (fst w) [Executed (CreateTable t)], snd w) =
           flush_all (InsertInto t cols) f xs (extended (fst w) [Executed (CreateTable t)], gs)"
    and "\<And>x g. 1 \<le> length (fst (f x g)) \<and> length (fst (f x g)) \<le> m"
  shows "fst r = None \<and>
         list_all (\<lambda>size. batch_size \<le> size \<and> size < batch_size + m)
           (butlast (bulks_into t (new_events w r))) \<and>
         list_all (\<lambda>size. 0 < size \<and> size < batch_size + m) (bulks_into t (new_events w r)) \<and>
         length xs \<le> sum_list (bulks_into t (new_events w r))"
proof -
  from flushing_run [where job = job, OF assms(1) assms(3)] obtain bs where
    bs: "r = (None, (extended (fst w)
                 (Executed (CreateTable t) # map (ExecutedMany (InsertInto t cols)) bs @ [Committed]),
               snd (build_rows f xs gs)))"
        "concat bs = fst (build_rows f xs gs)"
        "list_all (\<lambda>b. batch_size \<le> length b) (butlast bs)"
        "list_all (\<lambda>b. b \<noteq> [] \<and>
                    (\<exists>x g. length b < batch_size + length (fst (f x g)))) bs"
    unfolding assms(2) by blast
  have "new_events w r =
        Executed (CreateTable t) # map (ExecutedMany (InsertInto t cols)) bs @ [Committed]"
    by (rule new_events_extended) (simp add: bs(1))
  then have sizes: "bulks_into t (new_events w r) = map length bs"
    by (simp add: bulks_into_inserts)
  have up: "length b < batch_size + m"
    if "\<exists>x g. length b < batch_size + length (fst (f x g))" for b :: "row list"
  proof -
    from that obtain x g where "length b < batch_size + length (fst (f x g))" by blast
    moreover have "length (fst (f x g)) \<le> m" using assms(4) by blast
    ultimately show ?thesis by simp
  qed
  have all: "list_all (\<lambda>size. 0 < size \<and> size < batch_size + m) (map length bs)"
    using bs(4) up by (auto simp: list_all_iff)
  have "set (butlast bs) \<subseteq> set bs" by (auto dest: in_set_butlastD)
  then have "list_all (\<lambda>b. batch_size \<le> length b \<and> length b < batch_size + m) (butlast bs)"
    using bs(3,4) up by (auto simp: list_all_iff)
  then have most: "list_all (\<lambda>size. batch_size \<le> size \<and> size < batch_size + m)
                     (butlast (map length bs))"
    by (simp add: map_butlast [symmetric] list_all_iff)
  have "1 * length xs \<le> length (fst (build_rows f xs gs))"
    using assms(4) by (intro build_rows_length_ge) simp
  moreover have "sum_list (map length bs) = length (concat bs)"
    by (simp add: length_concat)
  ultimately have "length xs \<le> sum_list (map length bs)" using bs(2) by simp
  then show ?thesis using bs(1) all most unfolding sizes by simp
qed

lemma problem_05_batches:
  fixes n :: nat
  assumes "ready (fst w)"
  shows "fst (problem_05_duplicate_records n w) = None \<and>
         list_all (\<lambda>size. batch_size \<le> size \<and> size < batch_size + 4)
           (butlast (bulks_into (table (fst w) ''users_duplicates'')
              (new_events w (problem_05_duplicate_records n w)))) \<and>
         list_all (\<lambda>size. 0 < size \<and> size < batch_size + 4)
           (bulks_into (table (fst w) ''users_duplicates'')
              (new_events w (problem_05_duplicate_records n w))) \<and>
         n div 3 \<le> sum_list (bulks_into (table (fst w) ''users_duplicates'')
              (new_events w (problem_05_duplicate_records n w)))"
proof -
  define users where "users = collect base_user [0 ..< n div 3] (snd w)"
  have "length (fst users) = n div 3" by (simp add: users_def)
  then show ?thesis
    using flushing_batches [where job = "insert_users n" and w = w and f = rows_05
      and t = "table (fst w) ''users_duplicates''"
      and cols = "[''user_id'', ''username'', ''email'', ''phone'', ''created_at'']"
      and xs = "fst users" and gs = "snd users" and m = 4
      and r = "problem_05_duplicate_records n w", OF assms]
    by (simp add: problem_05_duplicate_records_def insert_users_def insert_05_def Let_def
        split_def users_def rows_05_length [unfolded One_nat_def])
qed

lemma problem_13_batches:
  assumes "ready (fst w)"
  shows "fst (problem_13_god_table n w) = None \<and>
         list_all (\<lambda>size. batch_size \<le> size \<and> size < batch_size + 1)
           (butlast (bulks_into (table (fst w) ''god_table'')
              (new_events w (problem_13_god_table n w)))) \<and>
         list_all (\<lambda>size. 0 < size \<and> size < batch_size + 1)
           (bulks_into (table (fst w) ''god_table'')
              (new_events w (problem_13_god_table n w))) \<and>
         n \<le> sum_list (bulks_into (table (fst w) ''god_table'')
              (new_events w (problem_13_god_table n w)))"
proof -
  define customers where "customers = collect customer_13 [0 ..< 100] (snd w)"
  define products where "products = collect product_13 [0 ..< 50] (snd customers)"
  show ?thesis
    using flushing_batches [where job = "insert_god_rows n" and w = w
      and f = "rows_13 (fst customers) (fst products)"
      and t = "table (fst w) ''god_table''"
      and cols = "[''id'', ''customer_id'', ''customer_first_name'', ''customer_last_name'',
      ''customer_email'', ''customer_phone'', ''customer_address_line1'',
      ''customer_address_line2'', ''customer_city'', ''customer_state'', ''customer_zip'',
      ''customer_country'', ''customer_created_at'', ''order_id'', ''order_date'',
      ''order_status'', ''order_total'', ''order_shipping_cost'', ''order_tax'',
      ''product_id'', ''product_name'', ''product_description'', ''product_category'',
      ''product_subcategory'', ''product_brand'', ''product_unit_price'', ''product_cost'',
      ''quantity'', ''line_total'', ''shipping_carrier'', ''shipping_tracking'',
      ''shipping_method'', ''estimated_delivery'', ''actual_delivery'']"
      and xs = "[0 ..< n]" and gs = "snd products" and m = 1
      and r = "problem_13_god_table n w", OF assms]
    by (simp add: problem_13_god_table_def insert_god_rows_def insert_13_def Let_def
        split_def customers_def products_def rows_13_length)
qed

text \<open>
  C2, as amended.  Whatever the driver does, a bulk insert of generators 2-4 and 6-15
  carries at most 1000 rows, one of generator 1 at most 2000, one of generator 5 at most
  1003.  On a ready adapter, asked for \<open>n\<close> rows:

  \<^item> generators 1-4, 6-12, 14 and 15 return and issue one bulk insert per range of ids, a
    range being 1000 ids and the last one the remainder of \<open>n\<close>; for generators 2-4,
    6-12, 14 and 15 the bulk insert carries one row per id, so every bulk insert but the
    last carries exactly 1000 rows; for generator 1 it carries between one and two rows
    per id;

  \<^item> generators 5 and 13 return and flush the buffer as soon as it holds 1000 rows or
    more: every bulk insert but the last carries exactly 1000 rows for generator 13 and
    between 1000 and 1003 for generator 5; the last one is not empty and no larger;
    together they carry at least \<open>n\<close> rows for generator 13 and \<open>n div 3\<close> for
    generator 5;

  \<^item> the products of generator 2 go in one bulk insert of 100 rows, the accounts of
    generator 15 in one of 1000 rows.
\<close>

theorem bulk_insert_sizes:
  "list_all2 (\<lambda>(name, func, rows) bound. only_at (\<lambda>e. bulk_size e \<le> bound) w (func rows w))
     (problems b)
     [2000, 1000, 1000, 1000, 1003, 1000, 1000, 1000, 1000, 1000, 1000, 1000, 1000, 1000, 1000]
   \<and> (ready (fst w) \<longrightarrow>
        list_all (\<lambda>(func, t, m).
             fst (func n w) = None \<and>
             list_all2 (\<lambda>size ids. ids \<le> size \<and> size \<le> m * ids)
               (bulks_into (table (fst w) t) (new_events w (func n w))) (id_batches n))
          [(problem_01_no_primary_key, ''customers_no_pk'', 2),
           (problem_02_missing_foreign_keys, ''orders_no_fk'', 1),
           (problem_03_wrong_data_types, ''transactions_bad_types'', 1),
           (problem_04_missing_not_null, ''employees_nulls'', 1),
           (problem_06_inconsistent_dates, ''events_bad_dates'', 1),
           (problem_07_inconsistent_casing, ''contacts_bad_casing'', 1),
           (problem_08_whitespace_issues, ''inventory_whitespace'', 1),
           (problem_09_invalid_emails, ''subscribers_bad_emails'', 1),
           (problem_10_out_of_range, ''sales_bad_values'', 1),
           (problem_11_csv_in_columns, ''articles_csv_tags'', 1),
           (problem_12_encoding_issues, ''international_data'', 1),
           (problem_14_missing_indexes, ''audit_log_no_index'', 1),
           (problem_15_type_coercion, ''transactions_str_id'', 1)] \<and>
        list_all (\<lambda>(func, t, m, least).
             fst (func n w) = None \<and>
             list_all (\<lambda>size. 1000 \<le> size \<and> size < 1000 + m)
               (butlast (bulks_into (table (fst w) t) (new_events w (func n w)))) \<and>
             list_all (\<lambda>size. 0 < size \<and> size < 1000 + m)
               (bulks_into (table (fst w) t) (new_events w (func n w))) \<and>
             least \<le> sum_list (bulks_into (table (fst w) t) (new_events w (func n w))))
          [(problem_05_duplicate_records, ''users_duplicates'', 4, n div 3),
           (problem_13_god_table, ''god_table'', 1, n)] \<and>
        bulks_into (table (fst w) ''products'')
          (new_events w (problem_02_missing_foreign_keys n w)) = [100] \<and>
        bulks_into (table (fst w) ''accounts_int_id'')
          (new_events w (problem_15_type_coercion n w)) = [1000])"
proof (intro conjI impI)
  show "list_all2 (\<lambda>(name, func, rows) bound. only_at (\<lambda>e. bulk_size e \<le> bound) w (func rows w))
     (problems b)
     [2000, 1000, 1000, 1000, 1003, 1000, 1000, 1000, 1000, 1000, 1000, 1000, 1000, 1000, 1000]"
    using problem_01_bulk [of w b] problem_02_bulk [of w b] problem_03_bulk [of w b]
      problem_04_bulk [of w b] problem_05_bulk [of w b] problem_06_bulk [of w b]
      problem_07_bulk [of w b] problem_08_bulk [of w b] problem_09_bulk [of w b]
      problem_10_bulk [of w b] problem_11_bulk [of w b] problem_12_bulk [of w b]
      problem_13_bulk [of w "b * 2"] problem_14_bulk [of w "b * 5"] problem_15_bulk [of w b]
    by (simp add: problems_def batch_size_def)
next
  assume r: "ready (fst w)"
  show "list_all (\<lambda>(func, t, m).
             fst (func n w) = None \<and>
             list_all2 (\<lambda>size ids. ids \<le> size \<and> size \<le> m * ids)
               (bulks_into (table (fst w) t) (new_events w (func n w))) (id_batches n))
          [(problem_01_no_primary_key, ''customers_no_pk'', 2),
           (problem_02_missing_foreign_keys, ''orders_no_fk'', 1),
           (problem_03_wrong_data_types, ''transactions_bad_types'', 1),
           (problem_04_missing_not_null, ''employees_nulls'', 1),
           (problem_06_inconsistent_dates, ''events_bad_dates'', 1),
           (problem_07_inconsistent_casing, ''contacts_bad_casing'', 1),
           (problem_08_whitespace_issues, ''inventory_whitespace'', 1),
           (problem_09_invalid_emails, ''subscribers_bad_emails'', 1),
           (problem_10_out_of_range, ''sales_bad_values'', 1),
           (problem_11_csv_in_columns, ''articles_csv_tags'', 1),
           (problem_12_encoding_issues, ''international_data'', 1),
           (problem_14_missing_indexes, ''audit_log_no_index'', 1),
           (problem_15_type_coercion, ''transactions_str_id'', 1)]"
    using problem_01_batches [OF r, of n] problem_02_batches [OF r, of n]
      problem_03_batches [OF r, of n] problem_04_batches [OF r, of n]
      problem_06_batches [OF r, of n] problem_07_batches [OF r, of n]
      problem_08_batches [OF r, of n] problem_09_batches [OF r, of n]
      problem_10_batches [OF r, of n] problem_11_batches [OF r, of n]
      problem_12_batches [OF r, of n] problem_14_batches [OF r, of n]
      problem_15_batches [OF r, of n]
    by simp
  show "list_all (\<lambda>(func, t, m, least).
             fst (func n w) = None \<and>
             list_all (\<lambda>size. 1000 \<le> size \<and> size < 1000 + m)
               (butlast (bulks_into (table (fst w) t) (new_events w (func n w)))) \<and>
             list_all (\<lambda>size. 0 < size \<and> size < 1000 + m)
               (bulks_into (table (fst w) t) (new_events w (func n w))) \<and>
             least \<le> sum_list (bulks_into (table (fst w) t) (new_events w (func n w))))
          [(problem_05_duplicate_records, ''users_duplicates'', 4, n div 3),
           (problem_13_god_table, ''god_table'', 1, n)]"
    using problem_05_batches [OF r, of n] problem_13_batches [OF r, of n]
    by (simp add: batch_size_def)
  show "bulks_into (table (fst w) ''products'')
          (new_events w (problem_02_missing_foreign_keys n w)) = [100]"
    using problem_02_batches [OF r, of n] by simp
  show "bulks_into (table (fst w) ''accounts_int_id'')
          (new_events w (problem_15_type_coercion n w)) = [1000]"
    using problem_15_batches [OF r, of n] by simp
qed

lemma id_batches_2500: "id_batches 2500 = [1000, 1000, 500]"
proof -
  have "(2500 :: nat) div 1000 = 2" "(2500 :: nat) mod 1000 = 500" by simp_all
  then show ?thesis by (simp add: id_batches_def batch_size_def numeral_2_eq_2)
qed

lemma exact_sizes:
  "list_all2 (\<lambda>size ids. ids \<le> size \<and> size \<le> ids) (sizes :: nat list) ks \<Longrightarrow> sizes = ks"
  by (induction sizes ks rule: list_all2_induct) simp_all

theorem bulk_insert_sizes_witness:
  "ready (fst (demo_db, heads)) \<and>
   fst (problem_14_missing_indexes 2500 (demo_db, heads)) = None \<and>
   bulks_into ''bdw_audit_log_no_index''
     (new_events (demo_db, heads) (problem_14_missing_indexes 2500 (demo_db, heads))) =
   [1000, 1000, 500] \<and>
   list_all (\<lambda>size. size = 1000)
     (butlast (bulks_into ''bdw_god_table''
        (new_events (demo_db, heads) (problem_13_god_table 2500 (demo_db, heads)))))"
proof -
  have r: "ready (fst (demo_db, heads))" by (simp add: demo_db_ready)
  note t = bulk_insert_sizes [of "(demo_db, heads)" 1000 2500, THEN conjunct2, rule_format, OF r]
  have "fst (problem_14_missing_indexes 2500 (demo_db, heads)) = None \<and>
        list_all2 (\<lambda>size ids. ids \<le> size \<and> size \<le> 1 * ids)
          (bulks_into ''bdw_audit_log_no_index''
             (new_events (demo_db, heads) (problem_14_missing_indexes 2500 (demo_db, heads))))
          [1000, 1000, 500]"
    using t by (simp add: id_batches_2500 demo_db_table)
  moreover have "list_all (\<lambda>size. 1000 \<le> size \<and> size < 1000 + 1)
     (butlast (bulks_into ''bdw_god_table''
        (new_events (demo_db, heads) (problem_13_god_table 2500 (demo_db, heads)))))"
    using t by (simp add: demo_db_table)
  ultimately show ?thesis using r exact_sizes by (auto simp: list_all_iff)
qed

lemma single_batch:
  assumes "ready (fst w)" and "0 < n" and "n \<le> batch_size"
  shows "batch_loop sql f 0 n w =
           (None, (extended (fst w) [ExecutedMany sql (fst (build_rows f [0 ..< n] (snd w)))],
                   snd (build_rows f [0 ..< n] (snd w))))"
proof -
  have m: "min (0 + batch_size) n = n" using assms(3) by simp
  have "batch_loop sql f (0 + batch_size) n
          (extended (fst w) [ExecutedMany sql (fst (build_rows f [0 ..< n] (snd w)))],
           snd (build_rows f [0 ..< n] (snd w))) =
        (None, (extended (fst w) [ExecutedMany sql (fst (build_rows f [0 ..< n] (snd w)))],
                snd (build_rows f [0 ..< n] (snd w))))"
    using assms(3) by (subst batch_loop.simps) simp
  then show ?thesis
    using assms(1,2) m
    by (subst batch_loop.simps) (simp add: executemany_ready split_def Let_def)
qed

text \<open>
  Counterexample to C2 as stated: asked for 1000 rows, with a source whose every
  \<open>random.random()\<close> is below 0.1, generator 1 issues a single bulk insert and it
  carries 2000 rows.
\<close>

theorem bulk_insert_sizes_counterexample:
  "map bulk_size
     (new_events (demo_db, heads) (problem_01_no_primary_key 1000 (demo_db, heads))) =
   [0, 2000, 0]"
proof -
  define rows where "rows = fst (build_rows rows_01 [0 ..< 1000] heads)"
  define g1 where "g1 = snd (build_rows rows_01 [0 ..< 1000] heads)"
  define c where "c = CreateTable (table demo_db ''customers_no_pk'')"
  define w1 where "w1 = (extended demo_db [Executed c], heads)"
  define w2 where "w2 = (extended (fst w1) [ExecutedMany (insert_01 demo_db) rows], g1)"
  have len: "length rows = 2000"
    unfolding rows_def using build_rows_01_heads [of heads "[0 ..< 1000]"]
    by (simp add: heads_def)
  have 1: "on_db (execute c) (demo_db, heads) = (None, w1)"
    using demo_db_ready by (simp add: on_db_execute_ready w1_def)
  have r1: "ready (fst w1)" using demo_db_ready by (simp add: w1_def)
  have 2: "batch_loop (insert_01 demo_db) rows_01 0 1000 w1 = (None, w2)"
    using single_batch [OF r1, of 1000 "insert_01 demo_db" rows_01]
    by (simp add: batch_size_def w1_def w2_def rows_def g1_def)
  have r2: "ready (fst w2)" using r1 by (simp add: w2_def)
  have "problem_01_no_primary_key 1000 (demo_db, heads) = on_db commit w2"
    using 1 2 by (simp add: problem_01_no_primary_key_def Let_def seq_def c_def)
  also have "\<dots> = (None, (extended (fst w2) [Committed], snd w2))"
    using r2 by (rule on_db_commit_ready)
  finally have "new_events (demo_db, heads) (problem_01_no_primary_key 1000 (demo_db, heads)) =
        [Executed c, ExecutedMany (insert_01 demo_db) rows, Committed]"
    by (intro new_events_extended) (simp add: w1_def w2_def)
  then show ?thesis using len by (simp add: c_def)
qed

subsection \<open>The scale controller\<close>

lemma created_append: "created (xs @ ys) = created xs @ created ys"
  by (induction xs rule: created.induct) simp_all

lemma job_created:
  assumes "atomic_at w r" and "fst r = None" and "created (new_events w r) = ts"
  shows "\<exists>evs g. r = (None, (extended (fst w) evs, g)) \<and> created evs = ts"
proof -
  obtain evs where evs: "fst (snd r) = extended (fst w) evs"
    using assms(1) unfolding atomic_at_def by blast
  then have "new_events w r = evs" by (rule new_events_extended)
  then have "created evs = ts" using assms(3) by simp
  moreover have "r = (None, (extended (fst w) evs, snd (snd r)))"
    using assms(2) evs by (metis prod.collapse)
  ultimately show ?thesis by blast
qed

lemma run_problems_created:
  assumes "list_all2
             (\<lambda>(name, func, rows) ts. \<forall>w. ready (fst w) \<longrightarrow>
                (\<exists>evs g. func rows w = (None, (extended (fst w) evs, g)) \<and>
                   created evs = map (table (fst w)) ts)) ps tss"
    and "ready (fst w)"
  shows "\<exists>evs g. run_problems ps w = (None, (extended (fst w) evs, g)) \<and>
           created evs = map (table (fst w)) (concat tss)"
  using assms
proof (induction ps tss arbitrary: w rule: list_all2_induct)
  case Nil
  then show ?case by (intro exI [where x = "[]"] exI [where x = "snd w"]) simp
next
  case (Cons p ps ts tss)
  obtain name func rows where p: "p = (name, func, rows)" by (cases p) auto
  have "\<forall>w. ready (fst w) \<longrightarrow>
          (\<exists>evs g. func rows w = (None, (extended (fst w) evs, g)) \<and>
             created evs = map (table (fst w)) ts)"
    using Cons.hyps(1) unfolding p by simp
  then obtain e1 g1 where
    1: "func rows w = (None, (extended (fst w) e1, g1))" "created e1 = map (table (fst w)) ts"
    using Cons.prems by blast
  have "ready (fst (extended (fst w) e1, g1))" using Cons.prems by simp
  from Cons.IH [OF this] obtain e2 g2 where
    2: "run_problems ps (extended (fst w) e1, g1) = (None, (extended (fst w) (e1 @ e2), g2))"
       "created e2 = map (table (fst w)) (concat tss)"
    by auto
  show ?case
    using 1 2 p
    by (intro exI [where x = "e1 @ e2"] exI [where x = g2]) (simp add: seq_def created_append)
qed

lemma problem_01_created:
  assumes "ready (fst w)"
  shows "\<exists>evs g. problem_01_no_primary_key n w = (None, (extended (fst w) evs, g)) \<and>
           created evs = map (table (fst w)) [''customers_no_pk'']"
  using problem_01_atomic [of w n] problem_01_rows [OF assms, of n]
  by (intro job_created) simp_all

lemma problem_02_created:
  assumes "ready (fst w)"
  shows "\<exists>evs g. problem_02_missing_foreign_keys n w = (None, (extended (fst w) evs, g)) \<and>
           created evs = map (table (fst w)) [''products'', ''orders_no_fk'']"
  using problem_02_atomic [of w n] problem_02_rows [OF assms, of n]
  by (intro job_created) simp_all

lemma problem_03_created:
  assumes "ready (fst w)"
  shows "\<exists>evs g. problem_03_wrong_data_types n w = (None, (extended (fst w) evs, g)) \<and>
           created evs = map (table (fst w)) [''transactions_bad_types'']"
  using problem_03_atomic [of w n] problem_03_rows [OF assms, of n]
  by (intro job_created) simp_all

lemma problem_04_created:
  assumes "ready (fst w)"
  shows "\<exists>evs g. problem_04_missing_not_null n w = (None, (extended (fst w) evs, g)) \<and>
           created evs = map (table (fst w)) [''employees_nulls'']"
  using problem_04_atomic [of w n] problem_04_rows [OF assms, of n]
  by (intro job_created) simp_all

lemma problem_05_created:
  assumes "ready (fst w)"
  shows "\<exists>evs g. problem_05_duplicate_records n w = (None, (extended (fst w) evs, g)) \<and>
           created evs = map (table (fst w)) [''users_duplicates'']"
  using problem_05_atomic [of w n] problem_05_rows [OF assms, of n]
  by (intro job_created) simp_all

lemma problem_06_created:
  assumes "ready (fst w)"
  shows "\<exists>evs g. problem_06_inconsistent_dates n w = (None, (extended (fst w) evs, g)) \<and>
           created evs = map (table (fst w)) [''events_bad_dates'']"
  using problem_06_atomic [of w n] problem_06_rows [OF assms, of n]
  by (intro job_created) simp_all

lemma problem_07_created:
  assumes "ready (fst w)"
  shows "\<exists>evs g. problem_07_inconsistent_casing n w = (None, (extended (fst w) evs, g)) \<and>
           created evs = map (table (fst w)) [''contacts_bad_casing'']"
  using problem_07_atomic [of w n] problem_07_rows [OF assms, of n]
  by (intro job_created) simp_all

lemma problem_08_created:
  assumes "ready (fst w)"
  shows "\<exists>evs g. problem_08_whitespace_issues n w = (None, (extended (fst w) evs, g)) \<and>
           created evs = map (table (fst w)) [''inventory_whitespace'']"
  using problem_08_atomic [of w n] problem_08_rows [OF assms, of n]
  by (intro job_created) simp_all

lemma problem_09_created:
  assumes "ready (fst w)"
  shows "\<exists>evs g. problem_09_invalid_emails n w = (None, (extended (fst w) evs, g)) \<and>
           created evs = map (table (fst w)) [''subscribers_bad_emails'']"
  using problem_09_atomic [of w n] problem_09_rows [OF assms, of n]
  by (intro job_created) simp_all

lemma problem_10_created:
  assumes "ready (fst w)"
  shows "\<exists>evs g. problem_10_out_of_range n w = (None, (extended (fst w) evs, g)) \<and>
           created evs = map (table (fst w)) [''sales_bad_values'']"
  using problem_10_atomic [of w n] problem_10_rows [OF assms, of n]
  by (intro job_created) simp_all

lemma problem_11_created:
  assumes "ready (fst w)"
  shows "\<exists>evs g. problem_11_csv_in_columns n w = (None, (extended (fst w) evs, g)) \<and>
           created evs = map (table (fst w)) [''articles_csv_tags'']"
  using problem_11_atomic [of w n] problem_11_rows [OF assms, of n]
  by (intro job_created) simp_all

lemma problem_12_created:
  assumes "ready (fst w)"
  shows "\<exists>evs g. problem_12_encoding_issues n w = (None, (extended (fst w) evs, g)) \<and>
           created evs = map (table (fst w)) [''international_data'']"
  using problem_12_atomic [of w n] problem_12_rows [OF assms, of n]
  by (intro job_created) simp_all

lemma problem_13_created:
  assumes "ready (fst w)"
  shows "\<exists>evs g. problem_13_god_table n w = (None, (extended (fst w) evs, g)) \<and>
           created evs = map (table (fst w)) [''god_table'']"
  using problem_13_atomic [of w n] problem_13_rows [OF assms, of n]
  by (intro job_created) simp_all

lemma problem_14_created:
  assumes "ready (fst w)"
  shows "\<exists>evs g. problem_14_missing_indexes n w = (None, (extended (fst w) evs, g)) \<and>
           created evs = map (table (fst w)) [''audit_log_no_index'']"
  using problem_14_atomic [of w n] problem_14_rows [OF assms, of n]
  by (intro job_created) simp_all

lemma problem_15_created:
  assumes "ready (fst w)"
  shows "\<exists>evs g. problem_15_type_coercion n w = (None, (extended (fst w) evs, g)) \<and>
           created evs = map (table (fst w)) [''accounts_int_id'', ''transactions_str_id'']"
  using problem_15_atomic [of w n] problem_15_rows [OF assms, of n]
  by (intro job_created) simp_all

text \<open>
  C3.  The scale table maps tiny to 100, small to 10000, medium to 100000, large to
  500000 and xlarge to 1000000 base rows, and any other token to 10000.  The job list
  holds the fifteen generators in declaration order, each with the base count except
  generator 13 with twice and generator 14 with five times the base count; run on a
  ready adapter, the loop over the list returns and the tables get created in that
  order.
\<close>

theorem scale_controller:
  "base_rows_of ''tiny'' = 100 \<and> base_rows_of ''small'' = 10000 \<and>
   base_rows_of ''medium'' = 100000 \<and> base_rows_of ''large'' = 500000 \<and>
   base_rows_of ''xlarge'' = 1000000 \<and>
   (scale \<notin> set [''tiny'', ''small'', ''medium'', ''large'', ''xlarge'']
      \<longrightarrow> base_rows_of scale = 10000) \<and>
   map (\<lambda>(name, func, rows). rows) (problems b) =
     [b, b, b, b, b, b, b, b, b, b, b, b, 2 * b, 5 * b, b] \<and>
   map (\<lambda>(name, func, rows). func) (problems b) =
     [problem_01_no_primary_key,
      problem_02_missing_foreign_keys,
      problem_03_wrong_data_types,
      problem_04_missing_not_null,
      problem_05_duplicate_records,
      problem_06_inconsistent_dates,
      problem_07_inconsistent_casing,
      problem_08_whitespace_issues,
      problem_09_invalid_emails,
      problem_10_out_of_range,
      problem_11_csv_in_columns,
      problem_12_encoding_issues,
      problem_13_god_table,
      problem_14_missing_indexes,
      problem_15_type_coercion] \<and>
   (ready (fst w) \<longrightarrow>
      fst (run_problems (problems b) w) = None \<and>
      created (new_events w (run_problems (problems b) w)) =
        map (table (fst w))
             [''customers_no_pk'',
              ''products'',
              ''orders_no_fk'',
              ''transactions_bad_types'',
              ''employees_nulls'',
              ''users_duplicates'',
              ''events_bad_dates'',
              ''contacts_bad_casing'',
              ''inventory_whitespace'',
              ''subscribers_bad_emails'',
              ''sales_bad_values'',
              ''articles_csv_tags'',
              ''international_data'',
              ''god_table'',
              ''audit_log_no_index'',
              ''accounts_int_id'',
              ''transactions_str_id''])"
proof (intro conjI impI)
  assume "scale \<notin> set [''tiny'', ''small'', ''medium'', ''large'', ''xlarge'']"
  then show "base_rows_of scale = 10000"
    by (simp add: base_rows_of_def scales_def)
next
  assume r: "ready (fst w)"
  have "list_all2
          (\<lambda>(name, func, rows) ts. \<forall>w. ready (fst w) \<longrightarrow>
             (\<exists>evs g. func rows w = (None, (extended (fst w) evs, g)) \<and>
                created evs = map (table (fst w)) ts))
          (problems b)
          [[''customers_no_pk''], [''products'', ''orders_no_fk''], [''transactions_bad_types''],
           [''employees_nulls''], [''users_duplicates''], [''events_bad_dates''],
           [''contacts_bad_casing''], [''inventory_whitespace''], [''subscribers_bad_emails''],
           [''sales_bad_values''], [''articles_csv_tags''], [''international_data''],
           [''god_table''], [''audit_log_no_index''],
           [''accounts_int_id'', ''transactions_str_id'']]"
    unfolding problems_def
    by (simp only: list_all2_Cons list_all2_Nil split_conv simp_thms)
       (intro conjI allI impI;
        (erule problem_01_created problem_02_created problem_03_created problem_04_created
           problem_05_created problem_06_created problem_07_created problem_08_created
           problem_09_created problem_10_created problem_11_created problem_12_created
           problem_13_created problem_14_created problem_15_created))
  from run_problems_created [OF this r] obtain evs g where
    e: "run_problems (problems b) w = (None, (extended (fst w) evs, g))"
       "created evs =
        map (table (fst w))
             [''customers_no_pk'',
              ''products'',
              ''orders_no_fk'',
              ''transactions_bad_types'',
              ''employees_nulls'',
              ''users_duplicates'',
              ''events_bad_dates'',
              ''contacts_bad_casing'',
              ''inventory_whitespace'',
              ''subscribers_bad_emails'',
              ''sales_bad_values'',
              ''articles_csv_tags'',
              ''international_data'',
              ''god_table'',
              ''audit_log_no_index'',
              ''accounts_int_id'',
              ''transactions_str_id'']"
    by auto
  have n: "new_events w (run_problems (problems b) w) = evs"
    by (rule new_events_extended) (simp add: e(1))
  show "fst (run_problems (problems b) w) = None" using e(1) by simp
  show "created (new_events w (run_problems (problems b) w)) =
        map (table (fst w))
             [''customers_no_pk'',
              ''products'',
              ''orders_no_fk'',
              ''transactions_bad_types'',
              ''employees_nulls'',
              ''users_duplicates'',
              ''events_bad_dates'',
              ''contacts_bad_casing'',
              ''inventory_whitespace'',
              ''subscribers_bad_emails'',
              ''sales_bad_values'',
              ''articles_csv_tags'',
              ''international_data'',
              ''god_table'',
              ''audit_log_no_index'',
              ''accounts_int_id'',
              ''transactions_str_id'']"
    using n e(2) by simp
qed (simp_all add: base_rows_of_def scales_def problems_def)

theorem scale_controller_witness:
  "base_rows_of ''huge'' = 10000 \<and>
   fst (run_problems (problems 100) (demo_db, tails)) = None \<and>
   created (new_events (demo_db, tails) (run_problems (problems 100) (demo_db, tails))) =
     map (table demo_db)
             [''customers_no_pk'',
              ''products'',
              ''orders_no_fk'',
              ''transactions_bad_types'',
              ''employees_nulls'',
              ''users_duplicates'',
              ''events_bad_dates'',
              ''contacts_bad_casing'',
              ''inventory_whitespace'',
              ''subscribers_bad_emails'',
              ''sales_bad_values'',
              ''articles_csv_tags'',
              ''international_data'',
              ''god_table'',
              ''audit_log_no_index'',
              ''accounts_int_id'',
              ''transactions_str_id'']"
  using scale_controller [of "''huge''" 100 "(demo_db, tails)"] demo_db_ready
  by simp

subsection \<open>Decimal text\<close>

lemma digit_char_code: "d < 10 \<Longrightarrow> (of_char (digit_char d) :: nat) = 48 + d"
  by (simp add: digit_char_def)

lemma digit_char_digit: "d < 10 \<Longrightarrow> is_digit (digit_char d)"
  by (simp add: is_digit_def digit_char_code)

lemma str_nat_digits: "str_nat n \<noteq> [] \<and> list_all is_digit (str_nat n)"
proof (induction n rule: str_nat.induct)
  case (1 n)
  show ?case
  proof (cases "n < 10")
    case True
    then show ?thesis by (subst (1 2) str_nat.simps) (simp add: digit_char_digit)
  next
    case False
    then show ?thesis using 1 by (subst (1 2) str_nat.simps) (simp add: digit_char_digit)
  qed
qed

lemma str_nat_value:
  "foldl (\<lambda>acc c. 10 * acc + (int (of_char c) - 48)) 0 (str_nat n) = int n"
proof (induction n rule: str_nat.induct)
  case (1 n)
  show ?case
  proof (cases "n < 10")
    case True
    then show ?thesis by (subst str_nat.simps) (simp add: digit_char_code)
  next
    case False
    then have "foldl (\<lambda>acc c. 10 * acc + (int (of_char c) - 48)) 0 (str_nat (n div 10)) =
               int (n div 10)"
      using 1 by simp
    moreover have "10 * int (n div 10) + int (n mod 10) = int n"
      by (metis mult_div_mod_eq of_nat_add of_nat_mult of_nat_numeral)
    ultimately show ?thesis using False
      by (subst str_nat.simps) (simp add: digit_char_code)
  qed
qed

lemma zeros_value:
  "foldl (\<lambda>acc c. 10 * acc + (int (of_char c) - 48)) 0 (replicate k CHR ''0'' @ s) =
   foldl (\<lambda>acc c. 10 * acc + (int (of_char c) - 48)) 0 s"
  by (induction k) simp_all

lemma str_nat_length: "n < 10 ^ m \<Longrightarrow> 0 < m \<Longrightarrow> length (str_nat n) \<le> m"
proof (induction n arbitrary: m rule: str_nat.induct)
  case (1 n)
  show ?case
  proof (cases "n < 10")
    case True
    then show ?thesis using "1.prems" by (subst str_nat.simps) simp
  next
    case False
    obtain m' where m: "m = Suc m'" using "1.prems"(2) by (cases m) auto
    have "0 < m'" using False "1.prems"(1) m by (cases m') auto
    moreover have "n div 10 < 10 ^ m'" using "1.prems"(1) m by (simp add: less_mult_imp_div_less mult.commute)
    ultimately have "length (str_nat (n div 10)) \<le> m'" using "1.IH" False by blast
    then show ?thesis using False m by (subst str_nat.simps) simp
  qed
qed

lemma parse_str_int: "0 \<le> n \<Longrightarrow> parse_decimal (str_int n) = Some n"
  using str_nat_digits [of "nat n"] str_nat_value [of "nat n"]
  by (simp add: parse_decimal_def str_int_def)

lemma parse_zero_pad:
  assumes "0 \<le> n"
  shows "parse_decimal (zero_pad w n) = Some n"
proof -
  define k where "k = w - length (str_nat (nat n))"
  have z: "zero_pad w n = replicate k CHR ''0'' @ str_nat (nat n)"
    using assms by (simp add: zero_pad_def k_def)
  have "list_all is_digit (replicate k CHR ''0'')"
    by (simp add: list_all_iff is_digit_def)
  then have "list_all is_digit (zero_pad w n)"
    using str_nat_digits [of "nat n"] unfolding z by simp
  moreover have "zero_pad w n \<noteq> []"
    using str_nat_digits [of "nat n"] unfolding z by simp
  moreover have "foldl (\<lambda>acc c. 10 * acc + (int (of_char c) - 48)) 0 (zero_pad w n) = n"
    unfolding z zeros_value using str_nat_value [of "nat n"] assms by simp
  ultimately show ?thesis by (simp add: parse_decimal_def)
qed

lemma zero_pad_length:
  "0 \<le> n \<Longrightarrow> n < 10 ^ w \<Longrightarrow> 0 < w \<Longrightarrow> length (zero_pad w n) = w"
  using str_nat_length [of "nat n" w]
  by (simp add: zero_pad_def)

subsection \<open>Generator 2: orders and their references\<close>

lemma draw_steps:
  "draw g 0 = rtape g (rpos g)"
  "draw g 1 = rtape g (Suc (rpos g))"
  "draw g 2 = rtape g (Suc (Suc (rpos g)))"
  "draw g 3 = rtape g (Suc (Suc (Suc (rpos g))))"
  "draw g 4 = rtape g (Suc (Suc (Suc (Suc (rpos g)))))"
  unfolding draw_def by (rule arg_cong [where f = "rtape g"], arith)+

lemma random_random_unit:
  "random_random g = (unit_of (rtape g (rpos g)), g\<lparr>rpos := rpos g + 1\<rparr>)"
  by (simp add: random_random_def next_raw_def unit_of_def)

lemma rows_02_law:
  "\<exists>d. fst (rows_02 i g) =
     [[VInt (if unit_of (draw g 0) < 3 / 10 then 900000 + int (draw g 1 mod 100000)
             else 1 + int (draw g 1 mod 10000)),
       VInt (if unit_of (draw g 2) < 2 / 10 then 500 + int (draw g 3 mod 500)
             else 1 + int (draw g 3 mod 100)),
       VInt (1 + int (draw g 4 mod 10)),
       VDateTime d]]"
  by (simp add: rows_02_def randint_def randbelow_def random_random_unit next_raw_def
      fake_date_def Let_def split_def
      draw_steps(1) draw_steps(2) [unfolded One_nat_def] draw_steps(3-5))

lemma rows_02_ranges:
  "list_all (\<lambda>row. \<exists>c p q d. row = [VInt c, VInt p, VInt q, VDateTime d] \<and>
       ((900000 \<le> c \<and> c \<le> 999999) \<or> (1 \<le> c \<and> c \<le> 10000)) \<and>
       ((500 \<le> p \<and> p \<le> 999) \<or> (1 \<le> p \<and> p \<le> 100)))
     (fst (rows_02 i g))"
proof -
  obtain d where d: "fst (rows_02 i g) =
     [[VInt (if unit_of (draw g 0) < 3 / 10 then 900000 + int (draw g 1 mod 100000)
             else 1 + int (draw g 1 mod 10000)),
       VInt (if unit_of (draw g 2) < 2 / 10 then 500 + int (draw g 3 mod 500)
             else 1 + int (draw g 3 mod 100)),
       VInt (1 + int (draw g 4 mod 10)),
       VDateTime d]]"
    using rows_02_law by blast
  have 1: "int (draw g 1 mod 100000) \<le> 99999" "int (draw g 1 mod 10000) \<le> 9999"
    "int (draw g 3 mod 500) \<le> 499" "int (draw g 3 mod 100) \<le> 99"
    by (simp_all add: less_Suc_eq_le [symmetric])
  show ?thesis unfolding d using 1 by simp
qed

text \<open>
  C4.  On a ready adapter generator 2 returns, and what it sends is: create \<open>products\<close>,
  one bulk insert of exactly 100 product rows, create \<open>orders_no_fk\<close>, the bulk inserts
  of the orders, one commit; so the products are seeded before any order is inserted.
  Every order row is \<open>(customer_id, product_id, quantity, order_date)\<close> with four fresh
  draws deciding the two ids: \<open>customer_id\<close> is \<open>900000 + k\<close> with \<open>k\<close> an index below
  100000 when the first draw, as a float in \<open>[0,1)\<close>, is below 0.3, and \<open>1 + k\<close> with
  \<open>k\<close> below 10000 otherwise; \<open>product_id\<close> is \<open>500 + k\<close> with \<open>k\<close> below 500 when the
  third draw is below 0.2, and \<open>1 + k\<close> with \<open>k\<close> below 100 otherwise.  Hence
  \<open>customer_id\<close> lies in [900000, 999999] or in [1, 10000] and \<open>product_id\<close> in
  [500, 999] or in [1, 100].
\<close>

theorem orders_reference_draws:
  assumes "ready (fst w)"
  shows "fst (problem_02_missing_foreign_keys n w) = None \<and>
         (\<exists>products bs.
            new_events w (problem_02_missing_foreign_keys n w) =
              [Executed (CreateTable (table (fst w) ''products'')),
               ExecutedMany (insert_products (fst w)) products,
               Executed (CreateTable (table (fst w) ''orders_no_fk''))] @
              map (ExecutedMany (insert_02 (fst w))) bs @ [Committed] \<and>
            length products = 100 \<and>
            list_all (\<lambda>row. \<exists>c p q d. row = [VInt c, VInt p, VInt q, VDateTime d] \<and>
                 ((900000 \<le> c \<and> c \<le> 999999) \<or> (1 \<le> c \<and> c \<le> 10000)) \<and>
                 ((500 \<le> p \<and> p \<le> 999) \<or> (1 \<le> p \<and> p \<le> 100)))
              (concat bs)) \<and>
         (\<exists>d. fst (rows_02 i g) =
            [[VInt (if unit_of (draw g 0) < 3 / 10 then 900000 + int (draw g 1 mod 100000)
                    else 1 + int (draw g 1 mod 10000)),
              VInt (if unit_of (draw g 2) < 2 / 10 then 500 + int (draw g 3 mod 500)
                    else 1 + int (draw g 3 mod 100)),
              VInt (1 + int (draw g 4 mod 10)),
              VDateTime d]])"
proof (intro conjI)
  define products where "products = collect product_02 [0 ..< 100] (snd w)"
  from problem_02_run [OF assms, of n] obtain bs where
    bs: "problem_02_missing_foreign_keys n w =
           (None, (extended (fst w)
              ([Executed (CreateTable (table (fst w) ''products'')),
                ExecutedMany (insert_products (fst w)) (fst products),
                Executed (CreateTable (table (fst w) ''orders_no_fk''))] @
               map (ExecutedMany (insert_02 (fst w))) bs @ [Committed]),
              snd (build_rows rows_02 [0 ..< n] (snd products))))"
        "concat bs = fst (build_rows rows_02 [0 ..< n] (snd products))"
    unfolding products_def by blast
  show "fst (problem_02_missing_foreign_keys n w) = None" using bs(1) by simp
  have e: "new_events w (problem_02_missing_foreign_keys n w) =
        [Executed (CreateTable (table (fst w) ''products'')),
         ExecutedMany (insert_products (fst w)) (fst products),
         Executed (CreateTable (table (fst w) ''orders_no_fk''))] @
        map (ExecutedMany (insert_02 (fst w))) bs @ [Committed]"
    by (rule new_events_extended) (simp add: bs(1))
  have "list_all (\<lambda>row. \<exists>c p q d. row = [VInt c, VInt p, VInt q, VDateTime d] \<and>
                ((900000 \<le> c \<and> c \<le> 999999) \<or> (1 \<le> c \<and> c \<le> 10000)) \<and>
                ((500 \<le> p \<and> p \<le> 999) \<or> (1 \<le> p \<and> p \<le> 100)))
          (concat bs)"
    unfolding bs(2) by (rule build_rows_all) (rule rows_02_ranges)
  moreover have "length (fst products) = 100" by (simp add: products_def)
  ultimately show "\<exists>products bs.
            new_events w (problem_02_missing_foreign_keys n w) =
              [Executed (CreateTable (table (fst w) ''products'')),
               ExecutedMany (insert_products (fst w)) products,
               Executed (CreateTable (table (fst w) ''orders_no_fk''))] @
              map (ExecutedMany (insert_02 (fst w))) bs @ [Committed] \<and>
            length products = 100 \<and>
            list_all (\<lambda>row. \<exists>c p q d. row = [VInt c, VInt p, VInt q, VDateTime d] \<and>
                 ((900000 \<le> c \<and> c \<le> 999999) \<or> (1 \<le> c \<and> c \<le> 10000)) \<and>
                 ((500 \<le> p \<and> p \<le> 999) \<or> (1 \<le> p \<and> p \<le> 100)))
              (concat bs)"
    using e by blast
qed (rule rows_02_law)

lemma draw_heads: "draw heads k = 0" "unit_of 0 = 0"
  by (simp_all add: draw_def heads_def unit_of_def)

theorem orders_reference_draws_witness:
  "fst (problem_02_missing_foreign_keys 1 (demo_db, heads)) = None \<and>
   take 3 (hd (fst (rows_02 0 heads))) = [VInt 900000, VInt 500, VInt 1]"
  using orders_reference_draws [of "(demo_db, heads)" 1 0 heads] demo_db_ready
  by (auto simp: draw_heads)

subsection \<open>Generator 15: ids stored as text\<close>

lemma rows_15_law:
  "\<exists>x d. fst (rows_15 i g) =
     [[VInt (int i + 1),
       VStr (if unit_of (draw g 1) < 4 / 10 then zero_pad 10 (1 + int (draw g 0 mod 1000))
             else str_int (1 + int (draw g 0 mod 1000))),
       VNum x, VDate d]]"
  by (simp add: rows_15_def randint_def randbelow_def random_random_unit next_raw_def
      uniform_def fake_date_def Let_def split_def
      draw_steps(1) draw_steps(2) [unfolded One_nat_def] draw_steps(3-5))

lemma rows_15_ids:
  "list_all (\<lambda>row. \<exists>s k. row ! 1 = VStr s \<and> parse_decimal s = Some k \<and> 1 \<le> k \<and> k \<le> 1000 \<and>
       (s = zero_pad 10 k \<or> s = str_int k))
     (fst (rows_15 i g))"
proof -
  define k where "k = 1 + int (draw g 0 mod 1000)"
  obtain x d where r: "fst (rows_15 i g) =
     [[VInt (int i + 1),
       VStr (if unit_of (draw g 1) < 4 / 10 then zero_pad 10 k else str_int k),
       VNum x, VDate d]]"
    using rows_15_law [of i g] unfolding k_def by blast
  have "int (draw g 0 mod 1000) \<le> 999" by (simp add: less_Suc_eq_le [symmetric])
  then have k: "1 \<le> k" "k \<le> 1000" by (simp_all add: k_def)
  then have "parse_decimal (zero_pad 10 k) = Some k" "parse_decimal (str_int k) = Some k"
    by (simp_all add: parse_zero_pad parse_str_int)
  then show ?thesis unfolding r using k by auto
qed

lemma accounts_ids:
  "map hd (fst (collect account_15 xs g)) = map (\<lambda>i. VInt (int i + 1)) xs"
  by (induction xs arbitrary: g) (simp_all add: split_def Let_def account_15_def)

text \<open>
  C7.  On a ready adapter generator 15 returns; the rows it inserts into
  \<open>accounts_int_id\<close> are exactly 1000 and their ids are the integers 1..1000 in order.
  In every row inserted into \<open>transactions_str_id\<close> the \<open>account_id\<close> is a text that
  reads back, as a decimal number, to an integer between 1 and 1000, and it is either
  that integer padded with zeros or its plain decimal text.  Per row, the id is
  \<open>1 + k\<close> for a fresh index \<open>k\<close> below 1000 and the padded form is taken exactly when
  the next draw, as a float in \<open>[0,1)\<close>, is below 0.4; the padded text of an id between 1
  and 1000 has ten characters.
\<close>

theorem account_ids_as_text:
  assumes "ready (fst w)"
  shows "fst (problem_15_type_coercion n w) = None \<and>
         map hd (rows_into (table (fst w) ''accounts_int_id'')
                   (new_events w (problem_15_type_coercion n w))) =
           map (\<lambda>i. VInt (int i)) [1 ..< 1001] \<and>
         list_all (\<lambda>row. \<exists>s k. row ! 1 = VStr s \<and> parse_decimal s = Some k \<and>
                     1 \<le> k \<and> k \<le> 1000 \<and> (s = zero_pad 10 k \<or> s = str_int k))
           (rows_into (table (fst w) ''transactions_str_id'')
              (new_events w (problem_15_type_coercion n w))) \<and>
         (\<exists>x d. fst (rows_15 i g) =
            [[VInt (int i + 1),
              VStr (if unit_of (draw g 1) < 4 / 10
                    then zero_pad 10 (1 + int (draw g 0 mod 1000))
                    else str_int (1 + int (draw g 0 mod 1000))),
              VNum x, VDate d]]) \<and>
         (1 \<le> k \<and> k \<le> 1000 \<longrightarrow> length (zero_pad 10 k) = 10)"
proof -
  define accounts where "accounts = collect account_15 [0 ..< 1000] (snd w)"
  have rows: "fst (problem_15_type_coercion n w) = None"
    "rows_into (table (fst w) ''transactions_str_id'')
       (new_events w (problem_15_type_coercion n w)) =
     fst (build_rows rows_15 [0 ..< n] (snd accounts))"
    "rows_into (table (fst w) ''accounts_int_id'')
       (new_events w (problem_15_type_coercion n w)) = fst accounts"
    using problem_15_rows [OF assms, of n] by (simp_all add: accounts_def)
  have "map (\<lambda>i. VInt (int i + 1)) [0 ..< 1000] = map (\<lambda>i. VInt (int i)) [1 ..< 1001]"
    by (simp add: list_eq_iff_nth_eq)
  then have a: "map hd (fst accounts) = map (\<lambda>i. VInt (int i)) [1 ..< 1001]"
    by (simp add: accounts_def accounts_ids)
  have t: "list_all (\<lambda>row. \<exists>s k. row ! 1 = VStr s \<and> parse_decimal s = Some k \<and>
                     1 \<le> k \<and> k \<le> 1000 \<and> (s = zero_pad 10 k \<or> s = str_int k))
           (fst (build_rows rows_15 [0 ..< n] (snd accounts)))"
    by (rule build_rows_all) (rule rows_15_ids)
  have p: "1 \<le> k \<and> k \<le> 1000 \<longrightarrow> length (zero_pad 10 k) = 10"
    by (simp add: zero_pad_length)
  show ?thesis using rows a t p rows_15_law [of i g] by simp
qed

theorem account_ids_as_text_witness:
  "fst (problem_15_type_coercion 1 (demo_db, heads)) = None \<and>
   length (zero_pad 10 1) = 10 \<and>
   take 2 (hd (fst (rows_15 0 heads))) = [VInt 1, VStr (zero_pad 10 1)]"
  using account_ids_as_text [of "(demo_db, heads)" 1 0 heads 1] demo_db_ready
  by (auto simp: draw_heads)

end
